(* ===== verification/Prelude.thy ===== *)
theory Prelude
  imports Main "HOL-Library.Word"
begin

text \<open>
  What every other theory shares: the types of the model (bytes, object ids, commit ids),
  the exceptions of the program as one datatype with the class hierarchy the \<open>except\<close>
  clauses test, the result type and its sequencing, and the generic facts on bytes and lists.

  Python's \<open>bytes\<close> is a list of 8-bit words, \<open>str\<close> a list of characters, an unbounded
  non-negative \<open>int\<close> a \<open>nat\<close>. An operation that can raise returns \<open>exc + 'a\<close>: \<open>Inl\<close>
  carries the exception. A message is kept where the source writes a constant string; the
  interpolated part of a formatted message is not.
\<close>

unbundle bit_operations_syntax

section \<open>Types\<close>

type_synonym byte = "8 word"
type_synonym bytes = "byte list"
type_synonym commit_id = string

section \<open>Exceptions and results\<close>

text \<open>
  The exception classes of \<open>src/git_ots\<close>, and those of Python the code meets.
  \<open>OutOfFuel\<close> is no exception of the program: it is what a recursion of the model returns
  when its fuel is spent, and each such recursion has a lemma that its callers never see it.
\<close>

datatype exc =
    ProofParseError string
  | AnchorExtractionError string
  | PayloadValidationError string
  | ConfigError string
  | ValueError string
  | IndexError
  | KeyError
  | TypeError string
  | UnicodeDecodeError
  | OverflowError
  | OSError string
  | SubmissionError int bytes
  | SubmissionTimeoutError
  | UpgradeError int bytes
  | VerificationError int bytes
  | PersistenceError string
  | RecoveryValidationError string
  | GitCommandError int string
  | GitCommandTimeoutError
  | InvalidRepositoryStateError string
  | RepositoryLockedError
  | TimestampTagAnnotationError string
  | KeyboardInterrupt
  | HTTPException string
  | OutOfFuel

text \<open>
  \<open>isinstance(exc, C)\<close> for the classes an \<open>except\<close> clause names: \<open>AnchorExtractionError\<close>
  extends \<open>ProofParseError\<close>, which with the payload, configuration and annotation errors and
  \<open>UnicodeDecodeError\<close> extends \<open>ValueError\<close>; the three adapter errors extend
  \<open>SubmissionError\<close> and the timeout of Git extends \<open>GitCommandError\<close>.
\<close>

fun is_PayloadValidationError :: "exc \<Rightarrow> bool" where
  "is_PayloadValidationError (PayloadValidationError _) = True"
| "is_PayloadValidationError _ = False"

fun is_AnchorExtractionError :: "exc \<Rightarrow> bool" where
  "is_AnchorExtractionError (AnchorExtractionError _) = True"
| "is_AnchorExtractionError _ = False"

fun is_ProofParseError :: "exc \<Rightarrow> bool" where
  "is_ProofParseError (ProofParseError _) = True"
| "is_ProofParseError (AnchorExtractionError _) = True"
| "is_ProofParseError _ = False"

fun is_ValueError :: "exc \<Rightarrow> bool" where
  "is_ValueError (ProofParseError _) = True"
| "is_ValueError (AnchorExtractionError _) = True"
| "is_ValueError (PayloadValidationError _) = True"
| "is_ValueError (ConfigError _) = True"
| "is_ValueError (ValueError _) = True"
| "is_ValueError (TimestampTagAnnotationError _) = True"
| "is_ValueError UnicodeDecodeError = True"
| "is_ValueError _ = False"

fun is_OSError :: "exc \<Rightarrow> bool" where
  "is_OSError (OSError _) = True"
| "is_OSError _ = False"

fun is_SubmissionError :: "exc \<Rightarrow> bool" where
  "is_SubmissionError (SubmissionError _ _) = True"
| "is_SubmissionError SubmissionTimeoutError = True"
| "is_SubmissionError (UpgradeError _ _) = True"
| "is_SubmissionError (VerificationError _ _) = True"
| "is_SubmissionError _ = False"

fun is_GitCommandError :: "exc \<Rightarrow> bool" where
  "is_GitCommandError (GitCommandError _ _) = True"
| "is_GitCommandError GitCommandTimeoutError = True"
| "is_GitCommandError _ = False"

fun is_PersistenceError :: "exc \<Rightarrow> bool" where
  "is_PersistenceError (PersistenceError _) = True"
| "is_PersistenceError _ = False"

fun is_RecoveryValidationError :: "exc \<Rightarrow> bool" where
  "is_RecoveryValidationError (RecoveryValidationError _) = True"
| "is_RecoveryValidationError _ = False"

lemma AnchorExtractionError_is_ProofParseError [simp]:
  "is_AnchorExtractionError e \<Longrightarrow> is_ProofParseError e"
  by (cases e) simp_all

lemma ProofParseError_is_ValueError [simp]: "is_ProofParseError e \<Longrightarrow> is_ValueError e"
  by (cases e) simp_all

type_synonym 'a result = "exc + 'a"

text \<open>Statement sequencing: the first exception ends the block.\<close>

fun bindE :: "'e + 'a \<Rightarrow> ('a \<Rightarrow> 'e + 'b) \<Rightarrow> 'e + 'b" where
  "bindE (Inl e) f = Inl e"
| "bindE (Inr x) f = f x"

text \<open>\<open>if not cond: raise e\<close> followed by the rest of the block.\<close>

definition guardE :: "bool \<Rightarrow> 'e \<Rightarrow> 'e + 'a \<Rightarrow> 'e + 'a" where
  "guardE c e k = (if c then k else Inl e)"

text \<open>\<open>try: m  except <classes>: ...\<close>: an exception outside the named classes propagates.\<close>

fun catchE :: "'e + 'a \<Rightarrow> ('e \<Rightarrow> bool) \<Rightarrow> ('e \<Rightarrow> 'e + 'a) \<Rightarrow> 'e + 'a" where
  "catchE (Inl e) p h = (if p e then h e else Inl e)"
| "catchE (Inr x) p h = Inr x"

lemma bindE_Inr_iff: "bindE m f = Inr y \<longleftrightarrow> (\<exists>x. m = Inr x \<and> f x = Inr y)"
  by (cases m) simp_all

lemma bindE_Inl_iff:
  "bindE m f = Inl e \<longleftrightarrow> m = Inl e \<or> (\<exists>x. m = Inr x \<and> f x = Inl e)"
  by (cases m) simp_all

lemma bindE_cong [fundef_cong]:
  "m = m' \<Longrightarrow> (\<And>x. m' = Inr x \<Longrightarrow> f x = g x) \<Longrightarrow> bindE m f = bindE m' g"
  by (cases m') simp_all

lemma guardE_Inr_iff [simp]: "guardE c e k = Inr y \<longleftrightarrow> c \<and> k = Inr y"
  by (simp add: guardE_def)

lemma guardE_Inl_iff: "guardE c e k = Inl e' \<longleftrightarrow> (if c then k = Inl e' else e' = e)"
  by (auto simp: guardE_def)

lemma guardE_simps [simp]: "guardE True e k = k" "guardE False e k = Inl e"
  by (simp_all add: guardE_def)

lemma catchE_Inr_iff:
  "catchE m p h = Inr x \<longleftrightarrow> m = Inr x \<or> (\<exists>e. m = Inl e \<and> p e \<and> h e = Inr x)"
  by (cases m) auto

lemma catchE_Inl_iff:
  "catchE m p h = Inl e \<longleftrightarrow> (m = Inl e \<and> \<not> p e) \<or> (\<exists>e'. m = Inl e' \<and> p e' \<and> h e' = Inl e)"
  by (cases m) auto

text \<open>A \<open>for\<close> loop that collects a result per element and stops at the first exception.\<close>

fun mapE :: "('a \<Rightarrow> 'e + 'b) \<Rightarrow> 'a list \<Rightarrow> 'e + 'b list" where
  "mapE f [] = Inr []"
| "mapE f (x # xs) = bindE (f x) (\<lambda>y. bindE (mapE f xs) (\<lambda>ys. Inr (y # ys)))"

lemma mapE_Inr_length: "mapE f xs = Inr ys \<Longrightarrow> length ys = length xs"
  by (induction xs arbitrary: ys) (auto simp: bindE_Inr_iff)

lemma mapE_Inr_nth: "mapE f xs = Inr ys \<Longrightarrow> i < length xs \<Longrightarrow> f (xs ! i) = Inr (ys ! i)"
proof (induction xs arbitrary: ys i)
  case (Cons x xs)
  then show ?case by (cases i) (auto simp: bindE_Inr_iff)
qed simp

section \<open>Bytes\<close>

text \<open>\<open>data[i:j]\<close> for \<open>0 \<le> i\<close>: Python clips both bounds to the length.\<close>

definition bslice :: "'a list \<Rightarrow> nat \<Rightarrow> nat \<Rightarrow> 'a list" where
  "bslice xs i j = take (j - i) (drop i xs)"

lemma length_bslice [simp]: "length (bslice xs i j) = min (j - i) (length xs - i)"
  by (simp add: bslice_def)

lemma bslice_append_mid: "length a = i \<Longrightarrow> bslice (a @ b @ c) i (i + length b) = b"
  by (simp add: bslice_def)

lemma bslice_self [simp]: "bslice xs i i = []"
  by (simp add: bslice_def)

lemma bslice_conc:
  "i \<le> j \<Longrightarrow> j \<le> k \<Longrightarrow> bslice xs i j @ bslice xs j k = bslice xs i k"
proof -
  assume ij: "i \<le> j" and jk: "j \<le> k"
  have "take (j - i) (drop i xs) @ take (k - j) (drop j xs) =
      take (j - i) (drop i xs) @ take (k - j) (drop (j - i) (drop i xs))"
    using ij by simp
  also have "\<dots> = take ((j - i) + (k - j)) (drop i xs)"
    by (simp only: take_add)
  also have "(j - i) + (k - j) = k - i" using ij jk by simp
  finally show ?thesis by (simp add: bslice_def)
qed

lemma bslice_Cons: "i < length xs \<Longrightarrow> i < j \<Longrightarrow> bslice xs i j = xs ! i # bslice xs (Suc i) j"
  by (simp add: bslice_def Cons_nth_drop_Suc [symmetric] take_Cons' del: Cons_nth_drop_Suc)

text \<open>\<open>str.encode("ascii")\<close> and the reverse reading of a byte as a character.\<close>

definition encode_ascii :: "string \<Rightarrow> bytes" where
  "encode_ascii s = map of_char s"

lemma length_encode_ascii [simp]: "length (encode_ascii s) = length s"
  by (simp add: encode_ascii_def)

lemma encode_ascii_append [simp]: "encode_ascii (s @ t) = encode_ascii s @ encode_ascii t"
  by (simp add: encode_ascii_def)

lemma unat_of_char: "unat (of_char c :: byte) = of_char c"
proof -
  have "(of_char c :: byte) = word_of_nat (of_char c)" by (simp add: of_nat_of_char)
  moreover have "(of_char c :: nat) < 256" by simp
  ultimately show ?thesis by (simp add: unat_of_nat take_bit_nat_eq_self del: of_nat_of_char)
qed

lemma inj_of_char_byte: "inj (of_char :: char \<Rightarrow> byte)"
proof (rule injI)
  fix c d :: char
  assume "(of_char c :: byte) = of_char d"
  then have "(of_char c :: nat) = of_char d" by (simp flip: unat_of_char)
  then show "c = d" by simp
qed

lemma encode_ascii_inj [simp]: "encode_ascii s = encode_ascii t \<longleftrightarrow> s = t"
  by (simp add: encode_ascii_def inj_map_eq_map inj_of_char_byte)

text \<open>The low seven bits and the continuation bit of a byte, as arithmetic.\<close>

lemma unat_low7: "unat (b AND 0x7F) = unat b mod 128" for b :: byte
proof -
  have "unat (b AND 0x7F) = unat b AND 0x7F" by (simp add: unsigned_and_eq)
  also have "\<dots> = take_bit 7 (unat b)" by (simp add: take_bit_eq_mask mask_eq_exp_minus_1)
  finally show ?thesis by (simp add: take_bit_eq_mod)
qed

lemma continuation_bit_clear: "b AND 0x80 = 0 \<longleftrightarrow> unat b < 128" for b :: byte
proof -
  have "(b AND 0x80 = 0) = (\<not> bit b 7)"
    by (simp add: and_exp_eq_0_iff_not_bit [of b 7, simplified])
  also have "\<dots> = (\<not> bit (unat b) 7)"
    by (simp add: bit_unsigned_iff)
  also have "\<dots> = (unat b div 128 mod 2 = 0)"
    by (simp add: bit_iff_odd even_iff_mod_2_eq_zero)
  also have "\<dots> = (unat b < 128)" using unsigned_less [of b, where 'a = nat] by auto
  finally show ?thesis .
qed

lemma or_push_bit_disjoint: "v < 2 ^ s \<Longrightarrow> v OR push_bit s k = v + 2 ^ s * k" for v k :: nat
proof -
  assume "v < 2 ^ s"
  then have "v = take_bit s v" by (simp add: take_bit_nat_eq_self)
  then have "v + push_bit s k = v OR push_bit s k"
    by (intro disjunctive_add) (metis bit_push_bit_iff bit_take_bit_iff not_le)
  then show ?thesis by (simp add: push_bit_eq_mult mult.commute)
qed

lemma or_128: "v < 128 \<Longrightarrow> v OR 0x80 = v + 128" for v :: nat
  using or_push_bit_disjoint [of v 7 1] by simp

lemma unat_set_continuation: "v < 128 \<Longrightarrow> unat (word_of_nat (v OR 0x80) :: byte) = v + 128"
  by (simp add: or_128 unat_of_nat take_bit_nat_eq_self del: of_nat_add of_nat_numeral)

lemma set_continuation_low7:
  assumes "128 \<le> unat b"
  shows "word_of_nat ((unat b mod 128) OR 0x80) = (b :: byte)"
proof -
  have "unat b < 256" using unsigned_less [of b, where 'a = nat] by simp
  with assms have "unat b mod 128 + 128 = unat b" by (simp add: le_mod_geq)
  then show ?thesis
    by (intro word_unat_eq_iff [THEN iffD2]) (simp add: unat_set_continuation)
qed

section \<open>Lists\<close>

text \<open>Distinct elements, first occurrences kept: a Python set filled in iteration order.\<close>

fun dedup :: "'a list \<Rightarrow> 'a list" where
  "dedup [] = []"
| "dedup (x # xs) = x # filter (\<lambda>y. y \<noteq> x) (dedup xs)"

lemma set_dedup [simp]: "set (dedup xs) = set xs"
  by (induction xs) auto

lemma distinct_dedup [simp]: "distinct (dedup xs)"
  by (induction xs) auto

section \<open>UTF-8\<close>

text \<open>Strict UTF-8, as \<open>bytes.decode("utf-8")\<close> accepts it (no surrogates, no overlong forms).\<close>

definition is_cont :: "byte \<Rightarrow> bool" where
  "is_cont b \<longleftrightarrow> 0x80 \<le> b \<and> b \<le> 0xBF"

fun utf8_valid :: "bytes \<Rightarrow> bool" where
  "utf8_valid [] = True"
| "utf8_valid (b # bs) =
     (if b < 0x80 then utf8_valid bs
      else if 0xC2 \<le> b \<and> b \<le> 0xDF then
        (case bs of c # bs' \<Rightarrow> is_cont c \<and> utf8_valid bs' | _ \<Rightarrow> False)
      else if 0xE0 \<le> b \<and> b \<le> 0xEF then
        (case bs of
           c # d # bs' \<Rightarrow>
             is_cont c \<and> is_cont d \<and> (b = 0xE0 \<longrightarrow> 0xA0 \<le> c) \<and> (b = 0xED \<longrightarrow> c \<le> 0x9F) \<and>
             utf8_valid bs'
         | _ \<Rightarrow> False)
      else if 0xF0 \<le> b \<and> b \<le> 0xF4 then
        (case bs of
           c # d # e # bs' \<Rightarrow>
             is_cont c \<and> is_cont d \<and> is_cont e \<and> (b = 0xF0 \<longrightarrow> 0x90 \<le> c) \<and>
             (b = 0xF4 \<longrightarrow> c \<le> 0x8F) \<and> utf8_valid bs'
         | _ \<Rightarrow> False)
      else False)"

definition bytes_text :: "bytes \<Rightarrow> string" where
  "bytes_text bs = map (\<lambda>b. char_of (unat b)) bs"

end
