(* ===== verification/Varuint.thy ===== *)
theory Varuint
  imports Prelude
begin

text \<open>
  The integers of the proof format: \<open>_read_varuint\<close> of \<open>timestamp.py\<close> and
  \<open>_encode_varuint\<close> of \<open>proof_tree.py\<close> (little-endian base 128), and the locale
  \<open>wire_codec\<close>, the contract between a serializer and an offset-based reader that every
  syntactic category of the format is an instance of.
\<close>

section \<open>Reading and writing\<close>

function read_varuint_loop :: "bytes \<Rightarrow> nat \<Rightarrow> nat \<Rightarrow> nat \<Rightarrow> (nat \<times> nat) result" where
  "read_varuint_loop data offset value shift =
     (if length data \<le> offset then Inl (ProofParseError ''truncated varuint'')
      else
        let byte = data ! offset;
            value' = value OR push_bit shift (unat (byte AND 0x7F))
        in if byte AND 0x80 = 0 then Inr (value', offset + 1)
           else read_varuint_loop data (offset + 1) value' (shift + 7))"
  by pat_completeness auto
termination
  by (relation "measure (\<lambda>(data, offset, value, shift). length data - offset)") auto

declare read_varuint_loop.simps [simp del]

definition read_varuint :: "bytes \<Rightarrow> nat \<Rightarrow> (nat \<times> nat) result" where
  "read_varuint data offset = read_varuint_loop data offset 0 0"

function encode_varuint_loop :: "nat \<Rightarrow> bytes" where
  "encode_varuint_loop value =
     (let byte = value AND 0x7F; value' = drop_bit 7 value
      in if value' \<noteq> 0 then word_of_nat (byte OR 0x80) # encode_varuint_loop value'
         else [word_of_nat byte])"
  by pat_completeness auto
termination
  by (relation "measure id") (auto simp: drop_bit_eq_div)

declare encode_varuint_loop.simps [simp del]

definition encode_varuint :: "int \<Rightarrow> bytes result" where
  "encode_varuint value =
     (if value < 0 then Inl (ValueError ''varuint must be non-negative'')
      else Inr (encode_varuint_loop (nat value)))"

section \<open>The arithmetic reading of the two loops\<close>

text \<open>
  A reference decoder on the remaining bytes: the value, and how many bytes it took. The
  loop with its shift and its bitwise accumulator computes exactly this.
\<close>

fun decode128 :: "bytes \<Rightarrow> (nat \<times> nat) option" where
  "decode128 [] = None"
| "decode128 (b # bs) =
     (if unat b < 128 then Some (unat b, 1)
      else map_option (\<lambda>(v, n). (unat b mod 128 + 128 * v, Suc n)) (decode128 bs))"

lemma read_varuint_loop_decode128:
  "value < 2 ^ shift \<Longrightarrow>
   read_varuint_loop data offset value shift =
     (case decode128 (drop offset data) of
        None \<Rightarrow> Inl (ProofParseError ''truncated varuint'')
      | Some (v, n) \<Rightarrow> Inr (value + 2 ^ shift * v, offset + n))"
proof (induction data offset "value" shift rule: read_varuint_loop.induct)
  case (1 data offset "value" shift)
  show ?case
  proof (cases "length data \<le> offset")
    case True
    then show ?thesis by (simp add: read_varuint_loop.simps [of data offset])
  next
    case False
    define b where "b = data ! offset"
    define v' where "v' = value OR push_bit shift (unat (b AND 0x7F))"
    have drop: "drop offset data = b # drop (Suc offset) data"
      using False by (simp add: b_def Cons_nth_drop_Suc)
    have v': "v' = value + 2 ^ shift * (unat b mod 128)"
      using 1(2) by (simp add: v'_def or_push_bit_disjoint unat_low7)
    have "v' < 2 ^ shift * 128"
    proof -
      have "unat b mod 128 \<le> 127" by (simp add: less_Suc_eq_le [symmetric])
      then have "2 ^ shift * (unat b mod 128) \<le> 2 ^ shift * (127 :: nat)"
        by (rule mult_le_mono2)
      then have "v' < 2 ^ shift + 2 ^ shift * 127" using 1(2) by (simp only: v')
      then show ?thesis by simp
    qed
    then have lt: "v' < 2 ^ (shift + 7)" by (simp add: power_add)
    show ?thesis
    proof (cases "unat b < 128")
      case True
      with False show ?thesis
        by (simp add: read_varuint_loop.simps [of data offset] drop Let_def
            continuation_bit_clear v' flip: b_def v'_def)
    next
      case ge: False
      have "read_varuint_loop data (offset + 1) v' (shift + 7) =
          (case decode128 (drop (offset + 1) data) of
             None \<Rightarrow> Inl (ProofParseError ''truncated varuint'')
           | Some (v, n) \<Rightarrow> Inr (v' + 2 ^ (shift + 7) * v, offset + 1 + n))"
        using ge False lt
        by (intro 1(1)) (simp_all add: b_def v'_def continuation_bit_clear)
      with False ge show ?thesis
        by (simp add: read_varuint_loop.simps [of data offset] drop Let_def
            continuation_bit_clear v' power_add algebra_simps
            flip: b_def v'_def split: option.split)
    qed
  qed
qed

lemma read_varuint_decode128:
  "read_varuint data offset =
     (case decode128 (drop offset data) of
        None \<Rightarrow> Inl (ProofParseError ''truncated varuint'')
      | Some (v, n) \<Rightarrow> Inr (v, offset + n))"
  by (auto simp: read_varuint_def read_varuint_loop_decode128 split: option.split)

lemma read_varuint_Inr_iff:
  "read_varuint data offset = Inr (v, offset') \<longleftrightarrow>
     (\<exists>n. decode128 (drop offset data) = Some (v, n) \<and> offset' = offset + n)"
  by (auto simp: read_varuint_decode128 split: option.splits)

lemma read_varuint_error:
  "read_varuint data offset = Inl e \<Longrightarrow> e = ProofParseError ''truncated varuint''"
  by (auto simp: read_varuint_decode128 split: option.splits)

lemma encode_varuint_loop_unfold:
  "encode_varuint_loop v =
     (if v < 128 then [word_of_nat v]
      else word_of_nat ((v mod 128) OR 0x80) # encode_varuint_loop (v div 128))"
proof -
  have low: "v AND 0x7F = v mod 128"
  proof -
    have "v AND 0x7F = take_bit 7 v" by (simp add: take_bit_eq_mask mask_eq_exp_minus_1)
    then show ?thesis by (simp add: take_bit_eq_mod)
  qed
  have high: "drop_bit 7 v = v div 128" by (simp add: drop_bit_eq_div)
  show ?thesis
    by (subst encode_varuint_loop.simps) (auto simp: low high Let_def div_eq_0_iff)
qed

lemma encode_varuint_loop_nonempty [simp]: "encode_varuint_loop v \<noteq> []"
  by (subst encode_varuint_loop_unfold) simp

lemma decode128_encode:
  "decode128 (encode_varuint_loop v @ rest) = Some (v, length (encode_varuint_loop v))"
proof (induction v rule: encode_varuint_loop.induct)
  case (1 v)
  show ?case
  proof (cases "v < 128")
    case True
    then show ?thesis
      by (simp add: encode_varuint_loop_unfold [of v] unat_of_nat take_bit_nat_eq_self)
  next
    case False
    have "decode128 (encode_varuint_loop (v div 128) @ rest) =
        Some (v div 128, length (encode_varuint_loop (v div 128)))"
      using 1 False by (simp add: drop_bit_eq_div)
    with False show ?thesis
      by (simp add: encode_varuint_loop_unfold [of v] unat_set_continuation)
  qed
qed

text \<open>
  The reader accepts padded encodings (\<open>0x80 0x00\<close> is zero), the writer never produces
  one: re-encoding what was read never takes more bytes, and as many only if they agree.
\<close>

lemma decode128_tight:
  "decode128 bs = Some (v, n) \<Longrightarrow>
     0 < n \<and> n \<le> length bs \<and> length (encode_varuint_loop v) \<le> n \<and>
     (length (encode_varuint_loop v) = n \<longrightarrow> take n bs = encode_varuint_loop v)"
proof (induction bs arbitrary: v n)
  case (Cons b bs)
  show ?case
  proof (cases "unat b < 128")
    case True
    with Cons.prems show ?thesis by (auto simp: encode_varuint_loop_unfold [of "unat b"])
  next
    case False
    with Cons.prems obtain v' n' where d: "decode128 bs = Some (v', n')"
      and v: "v = unat b mod 128 + 128 * v'" and n: "n = Suc n'"
      by auto
    note IH = Cons.IH [OF d]
    show ?thesis
    proof (cases "v' = 0")
      case True
      then have "v = unat b mod 128" using v by simp
      then have "v < 128" by simp
      then have "length (encode_varuint_loop v) = 1"
        by (simp add: encode_varuint_loop_unfold [of v])
      with IH n show ?thesis by simp
    next
      case v'0: False
      then have "\<not> v < 128" "v mod 128 = unat b mod 128" "v div 128 = v'"
        using v by simp_all
      with False IH n show ?thesis
        by (auto simp: encode_varuint_loop_unfold [of v] set_continuation_low7)
    qed
  qed
qed simp

section \<open>The contract of a wire format\<close>

text \<open>
  \<open>ser\<close> writes a value, \<open>rd\<close> reads one at an offset and returns the offset after it,
  \<open>ok\<close> says which values the writer is meant for. \<open>rd_ser\<close> is the round trip in any
  surrounding bytes; \<open>rd_bounds\<close> that a read consumes at least a byte and stays inside the
  buffer; \<open>rd_tight\<close> that the canonical form of what was read is no longer than the bytes
  it was read from, and equal to them if it is as long.
\<close>

locale wire_codec =
  fixes ser :: "'a \<Rightarrow> bytes"
    and rd :: "bytes \<Rightarrow> nat \<Rightarrow> ('a \<times> nat) result"
    and ok :: "'a \<Rightarrow> bool"
  assumes rd_ser:
      "ok x \<Longrightarrow> rd (pre @ ser x @ post) (length pre) = Inr (x, length pre + length (ser x))"
    and rd_bounds: "rd data off = Inr (x, off') \<Longrightarrow> off < off' \<and> off' \<le> length data"
    and rd_tight:
      "rd data off = Inr (x, off') \<Longrightarrow>
         ok x \<and> length (ser x) \<le> off' - off \<and>
         (length (ser x) = off' - off \<longrightarrow> bslice data off off' = ser x)"
begin

lemma rd_ser_at:
  assumes "ok x" and "drop off data = ser x @ post" and "off \<le> length data"
  shows "rd data off = Inr (x, off + length (ser x))"
proof -
  have "data = take off data @ ser x @ post"
    using assms(2) by (metis append_take_drop_id)
  then show ?thesis
    using rd_ser [OF assms(1), of "take off data" post] assms(3) by simp
qed

lemma rd_ser_0: "ok x \<Longrightarrow> rd (ser x) 0 = Inr (x, length (ser x))"
  using rd_ser [of x "[]" "[]"] by simp

text \<open>No value's encoding is a prefix of another's, so a sequence of them parses uniquely.\<close>

lemma uniquely_decodable:
  assumes "ok x" "ok y" "ser x @ r = ser y @ s"
  shows "x = y \<and> r = s"
proof -
  have "rd (ser x @ r) 0 = Inr (x, length (ser x))"
    using rd_ser [OF assms(1), of "[]" r] by simp
  moreover have "rd (ser x @ r) 0 = Inr (y, length (ser y))"
    using rd_ser [OF assms(2), of "[]" s] by (simp add: assms(3))
  ultimately show ?thesis using assms(3) by auto
qed

lemma ser_nonempty: "ok x \<Longrightarrow> ser x \<noteq> []"
  using rd_bounds [OF rd_ser_0] by auto

text \<open>Reading, writing and reading again gives the value of the first read.\<close>

lemma reread: "rd data off = Inr (x, off') \<Longrightarrow> rd (ser x) 0 = Inr (x, length (ser x))"
  using rd_ser_0 rd_tight by blast

lemma rewrite_exact:
  assumes "rd data off = Inr (x, off')"
  shows "bslice data off off' = ser x \<longleftrightarrow> length (ser x) = off' - off"
proof
  assume "bslice data off off' = ser x"
  then have "length (ser x) = length (bslice data off off')" by simp
  then show "length (ser x) = off' - off" using rd_bounds [OF assms] by auto
next
  assume "length (ser x) = off' - off"
  then show "bslice data off off' = ser x" using rd_tight [OF assms] by simp
qed

end

interpretation varuint_codec: wire_codec encode_varuint_loop read_varuint "\<lambda>_. True"
proof unfold_locales
  fix x and pre post :: bytes
  show "read_varuint (pre @ encode_varuint_loop x @ post) (length pre) =
      Inr (x, length pre + length (encode_varuint_loop x))"
    by (simp add: read_varuint_decode128 decode128_encode)
next
  fix data off x off'
  assume rd: "read_varuint data off = Inr (x, off')"
  then obtain n where d: "decode128 (drop off data) = Some (x, n)" and off': "off' = off + n"
    by (auto simp: read_varuint_Inr_iff)
  note tight = decode128_tight [OF d]
  then show "off < off' \<and> off' \<le> length data" using off' by auto
  show "True \<and> length (encode_varuint_loop x) \<le> off' - off \<and>
      (length (encode_varuint_loop x) = off' - off \<longrightarrow>
       bslice data off off' = encode_varuint_loop x)"
    using tight off' by (simp add: bslice_def)
qed

end
