(* ===== verification/DetachedProof.thy ===== *)
theory DetachedProof
  imports Varuint
begin

text \<open>
  The structural half of \<open>timestamp.py\<close>: the canonical payload \<open>git:<format>:<id>\n\<close>,
  the header and binding check of a detached proof, and the recursive scan that collects the
  attestation tags of a proof. The digest functions of \<open>hashlib\<close> are the argument \<open>H\<close>.
\<close>

section \<open>Constants\<close>

datatype hash_name = Sha1 | Sha256

text \<open>The bytes of \<open>b"\x00OpenTimestamps\x00\x00Proof\x00\xbf\x89\xe2\xe8\x84\xe8\x92\x94"\<close>.\<close>

definition header_magic :: bytes where
  "header_magic =
     0x00 # encode_ascii ''OpenTimestamps'' @ [0x00, 0x00] @ encode_ascii ''Proof'' @
     [0x00, 0xBF, 0x89, 0xE2, 0xE8, 0x84, 0xE8, 0x92, 0x94]"

lemma length_header_magic [simp]: "length header_magic = 31"
  by (simp add: header_magic_def)

definition bitcoin_tag :: bytes where
  "bitcoin_tag = [0x05, 0x88, 0x96, 0x0D, 0x73, 0xD7, 0x19, 0x01]"

definition pending_tag :: bytes where
  "pending_tag = [0x83, 0xDF, 0xE3, 0x0D, 0x2E, 0xF9, 0x0C, 0x8E]"

definition unary_op_tags :: "byte list" where
  "unary_op_tags = [0x02, 0x03, 0x08, 0x67, 0xF2, 0xF3]"

definition binary_op_tags :: "byte list" where
  "binary_op_tags = [0xF0, 0xF1]"

definition max_depth :: nat where
  "max_depth = 256"

definition hash_op_algorithms :: "byte \<Rightarrow> (hash_name \<times> nat) option" where
  "hash_op_algorithms tag =
     (if tag = 0x02 then Some (Sha1, 20) else if tag = 0x08 then Some (Sha256, 32) else None)"

section \<open>The canonical payload\<close>

definition hex_digits :: "char list" where
  "hex_digits = ''0123456789abcdef''"

definition format_length :: "string \<Rightarrow> nat option" where
  "format_length fmt =
     (if fmt = ''sha1'' then Some 40 else if fmt = ''sha256'' then Some 64 else None)"

definition build_payload :: "string \<Rightarrow> commit_id \<Rightarrow> bytes result" where
  "build_payload object_format commit_id =
     (case format_length object_format of
        None \<Rightarrow> Inl (PayloadValidationError ''unsupported object format'')
      | Some expected_length \<Rightarrow>
          if length commit_id \<noteq> expected_length
          then Inl (PayloadValidationError ''commit id must be of full length'')
          else if \<exists>ch \<in> set commit_id. ch \<notin> set hex_digits
          then Inl (PayloadValidationError ''commit id must be lowercase hexadecimal'')
          else Inr (encode_ascii (''git:'' @ object_format @ '':'' @ commit_id @ [CHR 0x0A])))"

section \<open>Header and binding\<close>

definition valid_timestamp_starts :: "byte list" where
  "valid_timestamp_starts = [0x00, 0xFF, 0x02, 0x03, 0x08, 0x67, 0xF0, 0xF1, 0xF2, 0xF3]"

definition starts_with :: "bytes \<Rightarrow> bytes \<Rightarrow> bool" where
  "starts_with data prefix \<longleftrightarrow> take (length prefix) data = prefix"

definition validate_detached_proof ::
    "(hash_name \<Rightarrow> bytes \<Rightarrow> bytes) \<Rightarrow> bytes \<Rightarrow> bytes option \<Rightarrow> unit result" where
  "validate_detached_proof H data payload =
     guardE (starts_with data header_magic)
       (ValueError ''not an OpenTimestamps detached proof'') (
     let version_pos = length header_magic in
     guardE (version_pos < length data) (ValueError ''truncated OpenTimestamps proof'') (
     guardE (data ! version_pos = 1) (ValueError ''unsupported OpenTimestamps proof version'') (
     let op_pos = version_pos + 1 in
     guardE (op_pos < length data) (ValueError ''truncated OpenTimestamps proof'') (
     case hash_op_algorithms (data ! op_pos) of
       None \<Rightarrow> Inl (ValueError ''unsupported hash operation in proof'')
     | Some (hash_name, digest_length) \<Rightarrow>
         let digest_end = op_pos + 1 + digest_length; timestamp_pos = digest_end in
         guardE (timestamp_pos < length data)
           (ValueError ''truncated OpenTimestamps proof digest or timestamp'') (
         guardE (data ! timestamp_pos \<in> set valid_timestamp_starts)
           (ValueError ''invalid OpenTimestamps timestamp structure'') (
         case payload of
           None \<Rightarrow> Inr ()
         | Some p \<Rightarrow>
             if bslice data (op_pos + 1) digest_end \<noteq> H hash_name p
             then Inl (ValueError
               ''OpenTimestamps proof digest does not match the canonical payload'')
             else Inr ()))))))"

section \<open>Scanning for attestation tags\<close>

definition skip_attestation :: "bytes \<Rightarrow> nat \<Rightarrow> nat result" where
  "skip_attestation data offset =
     (if length data < offset + 8 then Inl (ProofParseError ''truncated attestation tag'')
      else bindE (read_varuint data (offset + 8)) (\<lambda>(payload_length, offset1).
        if length data < offset1 + payload_length
        then Inl (ProofParseError ''truncated attestation payload'')
        else Inr (offset1 + payload_length)))"

definition skip_operation :: "bytes \<Rightarrow> nat \<Rightarrow> nat result" where
  "skip_operation data offset =
     (if length data \<le> offset then Inl (ProofParseError ''truncated operation'')
      else
        let tag = data ! offset in
        if tag \<in> set unary_op_tags then Inr (offset + 1)
        else if tag \<in> set binary_op_tags then
          bindE (read_varuint data (offset + 1)) (\<lambda>(arg_length, offset1).
            if length data < offset1 + arg_length
            then Inl (ProofParseError ''truncated operation argument'')
            else Inr (offset1 + arg_length))
        else Inl (ProofParseError ''unknown operation tag''))"

text \<open>
  \<open>_parse_timestamp_tree\<close>: \<open>scan_tree\<close> is the function, \<open>scan_loop\<close> its \<open>while\<close> loop and
  what follows it, \<open>scan_entry\<close> the two branches of the loop body (an attestation, or an
  operation and the tree under it). Each call spends a unit of fuel; \<open>parse_timestamp_tree\<close>
  starts with more than the buffer can use (\<open>parse_timestamp_tree_fuel\<close> in \<open>ProofTree\<close>).
\<close>

fun scan_tree :: "nat \<Rightarrow> bytes \<Rightarrow> nat \<Rightarrow> nat \<Rightarrow> (bytes set \<times> nat) result"
  and scan_loop :: "nat \<Rightarrow> bytes \<Rightarrow> nat \<Rightarrow> nat \<Rightarrow> (bytes set \<times> nat) result"
  and scan_entry :: "nat \<Rightarrow> bytes \<Rightarrow> nat \<Rightarrow> nat \<Rightarrow> (bytes set \<times> nat) result" where
  "scan_tree 0 data offset depth = Inl OutOfFuel"
| "scan_tree (Suc n) data offset depth =
     (if max_depth < depth then Inl (ProofParseError ''timestamp recursion limit exceeded'')
      else scan_loop n data offset depth)"
| "scan_loop 0 data offset depth = Inl OutOfFuel"
| "scan_loop (Suc n) data offset depth =
     (if offset < length data \<and> data ! offset = 0xFF then
        if length data \<le> offset + 1 then Inl (ProofParseError ''truncated fork marker'')
        else bindE (scan_entry n data (offset + 1) depth) (\<lambda>(tags, offset1).
          bindE (scan_loop n data offset1 depth) (\<lambda>(seen, offset2).
            Inr (tags \<union> seen, offset2)))
      else if length data \<le> offset then Inl (ProofParseError ''truncated timestamp'')
      else scan_entry n data offset depth)"
| "scan_entry 0 data offset depth = Inl OutOfFuel"
| "scan_entry (Suc n) data offset depth =
     (if data ! offset = 0x00 then
        if length data < offset + 1 + 8 then Inl (ProofParseError ''truncated attestation tag'')
        else bindE (skip_attestation data (offset + 1)) (\<lambda>offset1.
          Inr ({bslice data (offset + 1) (offset + 1 + 8)}, offset1))
      else bindE (skip_operation data offset) (\<lambda>offset1.
        scan_tree n data offset1 (depth + 1)))"

definition parse_fuel :: "bytes \<Rightarrow> nat" where
  "parse_fuel data = 3 * length data + 3"

definition parse_timestamp_tree :: "bytes \<Rightarrow> nat \<Rightarrow> (bytes set \<times> nat) result" where
  "parse_timestamp_tree data offset = scan_tree (parse_fuel data) data offset 0"

definition classify_detached_proof :: "bytes \<Rightarrow> string result" where
  "classify_detached_proof data =
     guardE (starts_with data header_magic)
       (ProofParseError ''not an OpenTimestamps detached proof'') (
     let version_pos = length header_magic in
     guardE (version_pos < length data) (ProofParseError ''truncated OpenTimestamps proof'') (
     guardE (data ! version_pos = 1)
       (ProofParseError ''unsupported OpenTimestamps proof version'') (
     let op_pos = version_pos + 1 in
     guardE (op_pos < length data) (ProofParseError ''truncated OpenTimestamps proof'') (
     case hash_op_algorithms (data ! op_pos) of
       None \<Rightarrow> Inl (ProofParseError ''unsupported hash operation in proof'')
     | Some (_, digest_length) \<Rightarrow>
         let timestamp_pos = op_pos + 1 + digest_length in
         guardE (timestamp_pos < length data)
           (ProofParseError ''truncated OpenTimestamps proof digest or timestamp'') (
         bindE (parse_timestamp_tree data timestamp_pos) (\<lambda>(tags, final_offset).
           guardE (final_offset = length data)
             (ProofParseError ''trailing bytes after timestamp tree'') (
           guardE (tags \<noteq> {})
             (ProofParseError ''timestamp tree contains no attestations'') (
           if bitcoin_tag \<in> tags then Inr ''valid'' else Inr ''pending-attestation''))))))))"

section \<open>Payloads\<close>

lemma build_payload_Inr_iff:
  "build_payload fmt cid = Inr p \<longleftrightarrow>
     format_length fmt = Some (length cid) \<and> set cid \<subseteq> set hex_digits \<and>
     p = encode_ascii (''git:'' @ fmt @ '':'' @ cid @ [CHR 0x0A])"
  by (auto simp: build_payload_def split: option.splits)

lemma build_payload_error:
  "build_payload fmt cid = Inl e \<Longrightarrow> \<exists>msg. e = PayloadValidationError msg"
  by (auto simp: build_payload_def split: option.splits if_splits)

lemma format_length_cases:
  "format_length fmt = Some n \<longleftrightarrow> fmt = ''sha1'' \<and> n = 40 \<or> fmt = ''sha256'' \<and> n = 64"
  by (auto simp: format_length_def)

lemma validate_error: "validate_detached_proof H data p = Inl e \<Longrightarrow> \<exists>msg. e = ValueError msg"
  by (auto simp: validate_detached_proof_def guardE_def Let_def split: if_splits option.splits)

lemma validate_Inr_iff:
  "validate_detached_proof H data (Some p) = Inr () \<longleftrightarrow>
     starts_with data header_magic \<and> 32 < length data \<and> data ! 31 = 1 \<and>
     (\<exists>h n. hash_op_algorithms (data ! 32) = Some (h, n) \<and> 33 + n < length data \<and>
        data ! (33 + n) \<in> set valid_timestamp_starts \<and> bslice data 33 (33 + n) = H h p)"
  by (auto simp: validate_detached_proof_def Let_def split: option.splits)

lemma validate_None_Inr_iff:
  "validate_detached_proof H data None = Inr () \<longleftrightarrow>
     starts_with data header_magic \<and> 32 < length data \<and> data ! 31 = 1 \<and>
     (\<exists>h n. hash_op_algorithms (data ! 32) = Some (h, n) \<and> 33 + n < length data \<and>
        data ! (33 + n) \<in> set valid_timestamp_starts)"
  by (auto simp: validate_detached_proof_def Let_def split: option.splits)

end
