(* ===== verification/FileStore.thy ===== *)
theory FileStore
  imports Prelude
begin

text \<open>
  The files the code reads and writes: a store of paths with their entries, the calls of
  \<open>pathlib\<close> the code makes on it, and \<open>_atomic_write\<close> of \<open>timestamp.py\<close> with every state of the
  store another process, or a crash, could observe.
\<close>

section \<open>Paths and entries\<close>

type_synonym path = string

datatype entry = RegularFile bytes | Directory | OtherEntry

type_synonym file_store = "(path \<times> entry) list"

definition path_join :: "path \<Rightarrow> string \<Rightarrow> path" where
  "path_join d n = d @ ''/'' @ n"

definition stat_entry :: "path \<Rightarrow> file_store \<Rightarrow> entry option" where
  "stat_entry p s = map_of s p"

definition path_exists :: "path \<Rightarrow> file_store \<Rightarrow> bool" where
  "path_exists p s \<longleftrightarrow> map_of s p \<noteq> None"

definition is_dir :: "path \<Rightarrow> file_store \<Rightarrow> bool" where
  "is_dir p s \<longleftrightarrow> map_of s p = Some Directory"

definition file_content :: "path \<Rightarrow> file_store \<Rightarrow> bytes option" where
  "file_content p s = (case map_of s p of Some (RegularFile b) \<Rightarrow> Some b | _ \<Rightarrow> None)"

definition is_file :: "path \<Rightarrow> file_store \<Rightarrow> bool" where
  "is_file p s \<longleftrightarrow> file_content p s \<noteq> None"

definition read_bytes :: "path \<Rightarrow> file_store \<Rightarrow> bytes result" where
  "read_bytes p s =
     (case file_content p s of Some b \<Rightarrow> Inr b | None \<Rightarrow> Inl (OSError ''cannot read file''))"

text \<open>\<open>d.iterdir()\<close>: the names of the entries directly under \<open>d\<close>.\<close>

definition list_dir :: "path \<Rightarrow> file_store \<Rightarrow> string list" where
  "list_dir d s =
     remdups (List.map_filter (\<lambda>(p, _).
       let n = drop (length d + 1) p in
       if take (length d + 1) p = d @ ''/'' \<and> n \<noteq> [] \<and> CHR ''/'' \<notin> set n then Some n else None) s)"

definition put_file :: "path \<Rightarrow> bytes \<Rightarrow> file_store \<Rightarrow> file_store" where
  "put_file p b s = (p, RegularFile b) # filter (\<lambda>(q, _). q \<noteq> p) s"

definition remove_path :: "path \<Rightarrow> file_store \<Rightarrow> file_store" where
  "remove_path p s = filter (\<lambda>(q, _). q \<noteq> p) s"

lemma map_of_remove [simp]: "map_of (remove_path p s) q = (if q = p then None else map_of s q)"
  unfolding remove_path_def by (induction s) (auto split: if_splits)

lemma map_of_put [simp]:
  "map_of (put_file p b s) q = (if q = p then Some (RegularFile b) else map_of s q)"
proof -
  have "map_of (filter (\<lambda>(q, _). q \<noteq> p) s) q = (if q = p then None else map_of s q)"
    by (induction s) (auto split: if_splits)
  then show ?thesis by (simp add: put_file_def)
qed

lemma file_content_put [simp]:
  "file_content q (put_file p b s) = (if q = p then Some b else file_content q s)"
  by (simp add: file_content_def)

lemma file_content_remove [simp]:
  "file_content q (remove_path p s) = (if q = p then None else file_content q s)"
  by (simp add: file_content_def)

section \<open>Atomic writes\<close>

text \<open>
  Where a write can fail: creating the temporary file, after a part of the content, at the
  \<open>fsync\<close>, at the rename.
\<close>

datatype write_fault = NoFault | FailCreate | FailWrite nat | FailSync | FailReplace

text \<open>
  \<open>_atomic_write\<close>: its result and the states of the store it goes through, oldest first. \<open>tmp\<close> is
  the fresh name \<open>NamedTemporaryFile\<close> chose. \<open>cleanup\<close> is the \<open>finally\<close> clause.
\<close>

definition cleanup :: "path \<Rightarrow> file_store \<Rightarrow> file_store" where
  "cleanup tmp s = (if path_exists tmp s then remove_path tmp s else s)"

definition atomic_write ::
    "write_fault \<Rightarrow> path \<Rightarrow> path \<Rightarrow> bytes \<Rightarrow> bool \<Rightarrow> file_store \<Rightarrow> path result \<times> file_store list" where
  "atomic_write fault tmp final content force s =
     (let write =
        (if fault = FailCreate then (Inl (OSError ''cannot create temporary file''), [s])
         else
           let s1 = put_file tmp [] s in
           case fault of
             FailWrite n \<Rightarrow>
               let s2 = put_file tmp (take n content) s1 in
               (Inl (OSError ''write failed''), [s, s1, s2, cleanup tmp s2])
           | _ \<Rightarrow>
               let s2 = put_file tmp content s1 in
               if fault = FailSync
               then (Inl (OSError ''fsync failed''), [s, s1, s2, cleanup tmp s2])
               else if fault = FailReplace
               then (Inl (OSError ''replace failed''), [s, s1, s2, cleanup tmp s2])
               else
                 let s3 = put_file final content (remove_path tmp s2) in
                 (Inr final, [s, s1, s2, s3, cleanup tmp s3]))
      in
      if path_exists final s then
        (case read_bytes final s of
           Inl e \<Rightarrow> (Inl e, [s])
         | Inr existing \<Rightarrow>
             if existing = content then (Inr final, [s])
             else if \<not> force
             then (Inl (PersistenceError ''file already exists with different content''), [s])
             else write)
      else write)"

definition store_after :: "'a \<times> file_store list \<Rightarrow> file_store" where
  "store_after r = last (snd r)"

lemma cleanup_lookup [simp]: "map_of (cleanup tmp s) q = (if q = tmp then None else map_of s q)"
  by (auto simp: cleanup_def path_exists_def)

lemma file_content_cleanup [simp]:
  "file_content q (cleanup tmp s) = (if q = tmp then None else file_content q s)"
  by (simp add: file_content_def)

lemma file_content_some: "map_of s p = Some (RegularFile b) \<longleftrightarrow> file_content p s = Some b"
  by (auto simp: file_content_def split: option.splits entry.splits)

text \<open>The possible outcomes of \<open>atomic_write\<close> on a fresh temporary name.\<close>

lemma atomic_write_observable:
  assumes "tmp \<noteq> final" "s' \<in> set (snd (atomic_write fault tmp final content force s))"
  shows "(map_of s' final = map_of s final \<or> file_content final s' = Some content) \<and>
    (\<forall>q. q \<noteq> final \<and> q \<noteq> tmp \<longrightarrow> map_of s' q = map_of s q)"
  using assms
  by (auto simp: atomic_write_def Let_def file_content_def split: if_splits write_fault.splits sum.splits)

lemma atomic_write_done:
  assumes "tmp \<noteq> final" "map_of s tmp = None"
    and "atomic_write fault tmp final content force s = (r, ss)"
  shows "(\<forall>p. r = Inr p \<longrightarrow> p = final \<and> file_content final (last ss) = Some content \<and>
        (\<forall>q. q \<noteq> final \<longrightarrow> map_of (last ss) q = map_of s q)) \<and>
    (\<forall>e. r = Inl e \<longrightarrow> map_of (last ss) = map_of s)"
  using assms
  by (auto simp: atomic_write_def Let_def read_bytes_def path_exists_def fun_eq_iff
      split: if_splits write_fault.splits sum.splits option.splits)

lemma atomic_write_protects:
  assumes "file_content final s = Some old" "old \<noteq> content"
  shows "atomic_write fault tmp final content False s =
    (Inl (PersistenceError ''file already exists with different content''), [s])"
  using assms
  by (auto simp: atomic_write_def Let_def read_bytes_def path_exists_def file_content_def
      split: option.splits)

section \<open>Properties\<close>

text \<open>
  C9: writes are atomic. In every state a write goes through, wherever it fails or is cut off,
  the final path holds what it held before or the complete new content, and no other path but the
  temporary one has changed.
\<close>

theorem write_is_atomic:
  assumes "tmp \<noteq> final" "s' \<in> set (snd (atomic_write fault tmp final content force s))"
  shows "(map_of s' final = map_of s final \<or> file_content final s' = Some content) \<and>
    (\<forall>q. q \<noteq> final \<and> q \<noteq> tmp \<longrightarrow> map_of s' q = map_of s q)"
  using assms by (rule atomic_write_observable)

lemma write_is_atomic_witness:
  "map_of (snd (atomic_write (FailWrite 1) ''t'' ''f'' [1, 2, 3] False []) ! 2) ''f'' = None"
  using write_is_atomic [of "''t''" "''f''"
      "snd (atomic_write (FailWrite 1) ''t'' ''f'' [1, 2, 3] False []) ! 2" "FailWrite 1" "[1, 2, 3]" False "[]"]
  by (simp add: atomic_write_def path_exists_def Let_def file_content_def)

text \<open>
  A stored proof is never replaced by accident. Without \<open>force\<close>, a write over a file with
  other content raises \<open>PersistenceError\<close> and goes through no state but the first.
\<close>

theorem write_protects_existing:
  assumes "file_content final s = Some old" "old \<noteq> content"
  shows "atomic_write fault tmp final content False s =
    (Inl (PersistenceError ''file already exists with different content''), [s])"
  using assms by (rule atomic_write_protects)

lemma write_protects_existing_witness:
  "atomic_write NoFault ''t'' ''f'' [1] False [(''f'', RegularFile [2])] =
     (Inl (PersistenceError ''file already exists with different content''), [[(''f'', RegularFile [2])]])"
  by (rule write_protects_existing [of _ _ "[2]"]) (simp_all add: file_content_def)

text \<open>
  A write that succeeds leaves the content at the final path and no temporary file; one that
  raises leaves every path as it was.
\<close>

theorem write_outcome:
  assumes "tmp \<noteq> final" "map_of s tmp = None"
    and "atomic_write fault tmp final content force s = (r, ss)"
  shows "(\<forall>p. r = Inr p \<longrightarrow> p = final \<and> file_content final (last ss) = Some content \<and>
        (\<forall>q. q \<noteq> final \<longrightarrow> map_of (last ss) q = map_of s q)) \<and>
    (\<forall>e. r = Inl e \<longrightarrow> map_of (last ss) = map_of s)"
  using assms by (rule atomic_write_done)

lemma write_outcome_witness:
  "map_of (last (snd (atomic_write FailReplace ''t'' ''f'' [1] True [(''f'', RegularFile [2])]))) =
     map_of [(''f'', RegularFile [2])]"
  using write_outcome [of "''t''" "''f''" "[(''f'', RegularFile [2])]" FailReplace "[1]" True
      "fst (atomic_write FailReplace ''t'' ''f'' [1] True [(''f'', RegularFile [2])])"
      "snd (atomic_write FailReplace ''t'' ''f'' [1] True [(''f'', RegularFile [2])])"]
  by (simp add: atomic_write_def path_exists_def Let_def read_bytes_def file_content_def)

end
