(* ===== verification/PyText.thy ===== *)
theory PyText
  imports Prelude
begin

text \<open>
  The methods of Python's \<open>str\<close> the code uses. A text is the list of the bytes of its UTF-8
  encoding, a byte that \<open>surrogateescape\<close> carried over standing for itself; the white space and the
  line boundaries outside ASCII (U+0085, U+00A0, U+2028 and the like) count as ordinary text.
\<close>

section \<open>Characters\<close>

text \<open>\<open>str.isspace\<close> and the line boundaries of \<open>str.splitlines\<close>, in ASCII.\<close>

definition is_space :: "char \<Rightarrow> bool" where
  "is_space c \<longleftrightarrow> (let n = of_char c :: nat in
     9 \<le> n \<and> n \<le> 13 \<or> 28 \<le> n \<and> n \<le> 32)"

definition is_line_break :: "char \<Rightarrow> bool" where
  "is_line_break c \<longleftrightarrow> (let n = of_char c :: nat in
     10 \<le> n \<and> n \<le> 13 \<or> 28 \<le> n \<and> n \<le> 30)"

definition is_digit :: "char \<Rightarrow> bool" where
  "is_digit c \<longleftrightarrow> (let n = of_char c :: nat in 48 \<le> n \<and> n \<le> 57)"

definition digit_val :: "char \<Rightarrow> nat" where
  "digit_val c = of_char c - 48"

definition lower_char :: "char \<Rightarrow> char" where
  "lower_char c = (let n = of_char c :: nat in
     if 65 \<le> n \<and> n \<le> 90 then char_of (n + 32) else c)"

definition str_lower :: "string \<Rightarrow> string" where
  "str_lower s = map lower_char s"

section \<open>Prefixes, stripping and splitting\<close>

definition str_startswith :: "'a list \<Rightarrow> 'a list \<Rightarrow> bool" where
  "str_startswith s p \<longleftrightarrow> take (length p) s = p"

definition str_endswith :: "'a list \<Rightarrow> 'a list \<Rightarrow> bool" where
  "str_endswith s p \<longleftrightarrow> length p \<le> length s \<and> drop (length s - length p) s = p"

fun str_contains :: "'a list \<Rightarrow> 'a list \<Rightarrow> bool" where
  "str_contains [] p = (p = [])"
| "str_contains (c # s) p = (str_startswith (c # s) p \<or> str_contains s p)"

definition lstrip :: "string \<Rightarrow> string" where
  "lstrip s = dropWhile is_space s"

definition rstrip_chars :: "('a \<Rightarrow> bool) \<Rightarrow> 'a list \<Rightarrow> 'a list" where
  "rstrip_chars p s = rev (dropWhile p (rev s))"

definition strip :: "string \<Rightarrow> string" where
  "strip s = rstrip_chars is_space (lstrip s)"

text \<open>\<open>s.split(c)\<close> for a one-character separator.\<close>

fun split_char :: "'a \<Rightarrow> 'a list \<Rightarrow> 'a list list" where
  "split_char c [] = [[]]"
| "split_char c (x # xs) =
     (if x = c then [] # split_char c xs
      else case split_char c xs of [] \<Rightarrow> [[x]] | p # ps \<Rightarrow> (x # p) # ps)"

text \<open>\<open>s.split(c, n)\<close>\<close>

fun split_max :: "'a \<Rightarrow> nat \<Rightarrow> 'a list \<Rightarrow> 'a list list" where
  "split_max c 0 xs = [xs]"
| "split_max c (Suc n) [] = [[]]"
| "split_max c (Suc n) (x # xs) =
     (if x = c then [] # split_max c n xs
      else case split_max c (Suc n) xs of [] \<Rightarrow> [[x]] | p # ps \<Rightarrow> (x # p) # ps)"

text \<open>\<open>s.split(ab)\<close> for a two-character separator.\<close>

fun split_pair :: "'a \<Rightarrow> 'a \<Rightarrow> 'a list \<Rightarrow> 'a list list" where
  "split_pair a b [] = [[]]"
| "split_pair a b [x] = [[x]]"
| "split_pair a b (x # y # xs) =
     (if x = a \<and> y = b then [] # split_pair a b xs
      else case split_pair a b (y # xs) of [] \<Rightarrow> [[x]] | p # ps \<Rightarrow> (x # p) # ps)"

text \<open>\<open>s.partition(c)\<close>, without the separator: \<open>None\<close> where it does not occur.\<close>

definition partition_char :: "'a \<Rightarrow> 'a list \<Rightarrow> 'a list \<times> 'a list option" where
  "partition_char c s =
     (let a = takeWhile (\<lambda>x. x \<noteq> c) s; b = dropWhile (\<lambda>x. x \<noteq> c) s in
      (a, if b = [] then None else Some (tl b)))"

definition text_after :: "'a list option \<Rightarrow> 'a list" where
  "text_after r = (case r of None \<Rightarrow> [] | Some s \<Rightarrow> s)"

text \<open>\<open>s.splitlines()\<close>: no empty line after a final line break, and CR LF is one break.\<close>

fun splitlines :: "string \<Rightarrow> string list" where
  "splitlines [] = []"
| "splitlines [c] = [if is_line_break c then [] else [c]]"
| "splitlines (c # d # s) =
     (if c = CHR 0x0D \<and> d = CHR 0x0A then [] # splitlines s
      else if is_line_break c then [] # splitlines (d # s)
      else case splitlines (d # s) of [] \<Rightarrow> [[c]] | l # ls \<Rightarrow> (c # l) # ls)"

text \<open>\<open>s.split()\<close>: the words between white space.\<close>

fun words_acc :: "string \<Rightarrow> string \<Rightarrow> string list" where
  "words_acc w [] = (if w = [] then [] else [rev w])"
| "words_acc w (c # s) =
     (if is_space c then (if w = [] then words_acc [] s else rev w # words_acc [] s)
      else words_acc (c # w) s)"

definition split_words :: "string \<Rightarrow> string list" where
  "split_words s = words_acc [] s"

text \<open>\<open>sep.join(parts)\<close>\<close>

fun join_with :: "'a list \<Rightarrow> 'a list list \<Rightarrow> 'a list" where
  "join_with sep [] = []"
| "join_with sep [p] = p"
| "join_with sep (p # q # ps) = p @ sep @ join_with sep (q # ps)"

text \<open>\<open>int(s)\<close>: white space around, a sign, digits with single underscores between them.\<close>

fun digits_value :: "nat \<Rightarrow> string \<Rightarrow> nat option" where
  "digits_value acc [] = Some acc"
| "digits_value acc (c # s) =
     (if is_digit c then digits_value (10 * acc + digit_val c) s
      else if c = CHR ''_'' then
        (case s of [] \<Rightarrow> None
         | d # s' \<Rightarrow> if is_digit d then digits_value (10 * acc + digit_val d) s' else None)
      else None)"

definition py_nat :: "string \<Rightarrow> nat option" where
  "py_nat s = (case s of [] \<Rightarrow> None | c # _ \<Rightarrow> if is_digit c then digits_value 0 s else None)"

definition py_int :: "string \<Rightarrow> int option" where
  "py_int s =
     (case strip s of
        [] \<Rightarrow> None
      | c # t \<Rightarrow>
          if c = CHR ''-'' then map_option (\<lambda>n. - int n) (py_nat t)
          else if c = CHR ''+'' then map_option int (py_nat t)
          else map_option int (py_nat (c # t)))"

text \<open>\<open>str(n)\<close>, and \<open>f"{n:0<w>d}"\<close>.\<close>

fun nat_str :: "nat \<Rightarrow> string" where
  "nat_str n = (if n < 10 then [char_of (48 + n)] else nat_str (n div 10) @ [char_of (48 + n mod 10)])"

declare nat_str.simps [simp del]

definition zero_padded :: "nat \<Rightarrow> nat \<Rightarrow> string" where
  "zero_padded w n = (let s = nat_str n in replicate (w - length s) (CHR ''0'') @ s)"

definition int_str :: "int \<Rightarrow> string" where
  "int_str i = (if i < 0 then CHR ''-'' # nat_str (nat (- i)) else nat_str (nat i))"

definition newline :: char where
  "newline = CHR 0x0A"

definition nul :: char where
  "nul = CHR 0x00"

section \<open>Lemmas\<close>

lemma startswith_append [simp]: "str_startswith (p @ s) p"
  by (simp add: str_startswith_def)

lemma startswith_iff: "str_startswith s p \<longleftrightarrow> (\<exists>t. s = p @ t)"
  by (metis append_eq_conv_conj str_startswith_def)

lemma endswith_append [simp]: "str_endswith (s @ p) p"
  by (simp add: str_endswith_def)

lemma endswith_iff: "str_endswith s q \<longleftrightarrow> (\<exists>t. s = t @ q)"
  by (metis append_take_drop_id endswith_append str_endswith_def)

lemma endswith_add: "str_endswith y q \<Longrightarrow> str_endswith (x @ y) q"
  unfolding endswith_iff by (metis append.assoc)

lemma endswith_Cons: "str_endswith y q \<Longrightarrow> str_endswith (c # y) q"
  using endswith_add [of y q "[c]"] by simp

lemma split_char_nonempty: "split_char c xs \<noteq> []"
  by (induction xs) (auto split: list.splits)

text \<open>Splitting undoes joining, where the separator does not occur in the parts.\<close>

lemma split_char_part: "c \<notin> set p \<Longrightarrow> split_char c (p @ c # s) = p # split_char c s"
  by (induction p) auto

lemma split_char_whole: "c \<notin> set p \<Longrightarrow> split_char c p = [p]"
  by (induction p) auto

lemma split_join:
  "ps \<noteq> [] \<Longrightarrow> \<forall>p \<in> set ps. c \<notin> set p \<Longrightarrow> split_char c (join_with [c] ps) = ps"
proof (induction "[c]" ps rule: join_with.induct)
  case (3 p q ps)
  then show ?case using split_char_part [of c p "join_with [c] (q # ps)"] by simp
qed (simp_all add: split_char_whole)

lemma splitlines_line:
  "\<forall>c \<in> set l. \<not> is_line_break c \<Longrightarrow> splitlines (l @ newline # s) = l # splitlines s"
proof (induction l)
  case Nil
  then show ?case by (cases s) (simp_all add: newline_def is_line_break_def)
next
  case (Cons c l)
  then have IH: "splitlines (l @ newline # s) = l # splitlines s" by simp
  have "c \<noteq> CHR 0x0D" using Cons.prems by (auto simp: is_line_break_def)
  with IH Cons.prems show ?case by (cases "l @ newline # s") simp_all
qed

lemma splitlines_lines:
  "\<forall>l \<in> set ls. \<forall>c \<in> set l. \<not> is_line_break c \<Longrightarrow>
     splitlines (concat (map (\<lambda>l. l @ [newline]) ls)) = ls"
  by (induction ls) (simp_all add: splitlines_line)

lemma rstrip_chars_id: "s = [] \<or> \<not> p (last s) \<Longrightarrow> rstrip_chars p s = s"
  by (cases s rule: rev_cases) (simp_all add: rstrip_chars_def)

lemma strip_id: "s = [] \<or> \<not> is_space (hd s) \<and> \<not> is_space (last s) \<Longrightarrow> strip s = s"
  by (cases s) (auto simp: strip_def lstrip_def rstrip_chars_id)

section \<open>Digits, words and lines\<close>

lemma nat_str_digits: "c \<in> set (nat_str n) \<Longrightarrow> is_digit c"
proof (induction n rule: nat_str.induct)
  case (1 n)
  have d: "is_digit (char_of (48 + k))" if "k < 10" for k :: nat
    using that by (simp add: is_digit_def Let_def)
  show ?case
  proof (cases "n < 10")
    case True
    then show ?thesis using 1(2) d by (simp add: nat_str.simps [of n])
  next
    case False
    then show ?thesis using 1(1) [OF False] 1(2) d [of "n mod 10"]
      by (subst (asm) nat_str.simps) auto
  qed
qed

lemma zero_padded_digits: "c \<in> set (zero_padded w n) \<Longrightarrow> is_digit c"
  by (auto simp: zero_padded_def Let_def is_digit_def dest: nat_str_digits)

lemma nat_str_nonempty: "nat_str n \<noteq> []"
  by (subst nat_str.simps) simp

lemma zero_padded_nonempty: "zero_padded w n \<noteq> []"
  by (simp add: zero_padded_def Let_def nat_str_nonempty)

lemma digit_plain: "is_digit c \<Longrightarrow> \<not> is_space c \<and> \<not> is_line_break c"
  by (auto simp: is_digit_def is_space_def is_line_break_def Let_def)

lemma words_acc_word: "\<forall>c \<in> set w. \<not> is_space c \<Longrightarrow> words_acc a (w @ s) = words_acc (rev w @ a) s"
  by (induction w arbitrary: a) auto

lemma split_words_join:
  "\<forall>w \<in> set ws. w \<noteq> [] \<and> (\<forall>c \<in> set w. \<not> is_space c) \<Longrightarrow> split_words (join_with '' '' ws) = ws"
  unfolding split_words_def
proof (induction "'' ''" ws rule: join_with.induct)
  case (2 p)
  then show ?case using words_acc_word [of p "[]" "[]"] by simp
next
  case (3 p q ps)
  have "words_acc [] (p @ '' '' @ join_with '' '' (q # ps)) =
      words_acc (rev p) ('' '' @ join_with '' '' (q # ps))"
    using words_acc_word [of p "[]"] 3(2) by simp
  moreover have "is_space (CHR '' '')" by (simp add: is_space_def Let_def)
  ultimately show ?case using 3 by simp
qed simp

lemma split_char_lines:
  "\<forall>l \<in> set ls. c \<notin> set l \<Longrightarrow>
     split_char c (concat (map (\<lambda>l. l @ [c]) ls) @ s) = ls @ split_char c s"
  by (induction ls) (simp_all add: split_char_part)

end
