(* ===== verification/PyJson.thy ===== *)
theory PyJson
  imports PyText
begin

text \<open>
  JSON values (a float has its text and its value as mantissa and binary exponent, \<open>None\<close> for NaN and
  the infinities) and the text \<open>json.dumps(value, indent=2)\<close> writes. Parsing is left open: it is the
  \<open>json_loads\<close> of the host.
\<close>

datatype json =
    JNull
  | JBool bool
  | JInt int
  | JFloat string "(int \<times> int) option"
  | JStr string
  | JList "json list"
  | JObj "(string \<times> json) list"

text \<open>\<open>manifest.get(key)\<close> on the members of an object: the last one with the key counts.\<close>

definition json_get :: "(string \<times> json) list \<Rightarrow> string \<Rightarrow> json option" where
  "json_get members key = map_of (rev members) key"

definition json_get_str :: "(string \<times> json) list \<Rightarrow> string \<Rightarrow> string option" where
  "json_get_str members key = (case json_get members key of Some (JStr s) \<Rightarrow> Some s | _ \<Rightarrow> None)"

text \<open>A string literal, ASCII only.\<close>

definition hex_digit_char :: "nat \<Rightarrow> char" where
  "hex_digit_char n = (if n < 10 then char_of (48 + n) else char_of (87 + n))"

definition u_escape :: "nat \<Rightarrow> string" where
  "u_escape n = [CHR 0x5C, CHR ''u'', hex_digit_char (n div 4096 mod 16), hex_digit_char (n div 256 mod 16),
     hex_digit_char (n div 16 mod 16), hex_digit_char (n mod 16)]"

definition escape_code_point :: "nat \<Rightarrow> string" where
  "escape_code_point n = (let bs = CHR 0x5C in
     if n = 34 then [bs, CHR 0x22]
     else if n = 92 then [bs, bs]
     else if n = 10 then [bs, CHR ''n'']
     else if n = 13 then [bs, CHR ''r'']
     else if n = 9 then [bs, CHR ''t'']
     else if n = 12 then [bs, CHR ''f'']
     else if n = 8 then [bs, CHR ''b'']
     else if 32 \<le> n \<and> n \<le> 126 then [char_of n]
     else if n < 65536 then u_escape n
     else u_escape (55296 + (n - 65536) div 1024) @ u_escape (56320 + (n - 65536) mod 1024))"

text \<open>The code points of a text; a byte that is not part of a character is a lone surrogate.\<close>

definition cont_byte :: "nat \<Rightarrow> bool" where
  "cont_byte n \<longleftrightarrow> 128 \<le> n \<and> n \<le> 191"

fun code_points :: "nat list \<Rightarrow> nat list" where
  "code_points [] = []"
| "code_points (b # c # d # e # bs) =
     (if 240 \<le> b \<and> b \<le> 244 \<and> cont_byte c \<and> cont_byte d \<and> cont_byte e
      then ((b - 240) * 262144 + (c - 128) * 4096 + (d - 128) * 64 + (e - 128)) # code_points bs
      else if 224 \<le> b \<and> b \<le> 239 \<and> cont_byte c \<and> cont_byte d
      then ((b - 224) * 4096 + (c - 128) * 64 + (d - 128)) # code_points (e # bs)
      else if 194 \<le> b \<and> b \<le> 223 \<and> cont_byte c
      then ((b - 192) * 64 + (c - 128)) # code_points (d # e # bs)
      else (if b < 128 then b else 56320 + b) # code_points (c # d # e # bs))"
| "code_points [b, c, d] =
     (if 224 \<le> b \<and> b \<le> 239 \<and> cont_byte c \<and> cont_byte d
      then [(b - 224) * 4096 + (c - 128) * 64 + (d - 128)]
      else if 194 \<le> b \<and> b \<le> 223 \<and> cont_byte c
      then ((b - 192) * 64 + (c - 128)) # code_points [d]
      else (if b < 128 then b else 56320 + b) # code_points [c, d])"
| "code_points [b, c] =
     (if 194 \<le> b \<and> b \<le> 223 \<and> cont_byte c then [(b - 192) * 64 + (c - 128)]
      else (if b < 128 then b else 56320 + b) # code_points [c])"
| "code_points [b] = [if b < 128 then b else 56320 + b]"

definition json_string :: "string \<Rightarrow> string" where
  "json_string s = [CHR 0x22] @ concat (map escape_code_point (code_points (map of_char s))) @ [CHR 0x22]"

definition line_at :: "nat \<Rightarrow> string" where
  "line_at level = newline # replicate (2 * level) (CHR '' '')"

fun dumps_at :: "nat \<Rightarrow> json \<Rightarrow> string" where
  "dumps_at level JNull = ''null''"
| "dumps_at level (JBool b) = (if b then ''true'' else ''false'')"
| "dumps_at level (JInt i) = int_str i"
| "dumps_at level (JFloat s v) = s"
| "dumps_at level (JStr s) = json_string s"
| "dumps_at level (JList xs) =
     (if xs = [] then ''[]''
      else ''['' @ line_at (level + 1) @
        join_with (CHR '','' # line_at (level + 1)) (map (dumps_at (level + 1)) xs) @
        line_at level @ '']'')"
| "dumps_at level (JObj ms) =
     (if ms = [] then ''{}''
      else ''{'' @ line_at (level + 1) @
        join_with (CHR '','' # line_at (level + 1))
          (map (\<lambda>(k, x). json_string k @ '': '' @ dumps_at (level + 1) x) ms) @
        line_at level @ ''}'')"

definition json_dumps :: "json \<Rightarrow> string" where
  "json_dumps x = dumps_at 0 x"

end
