(* ===== verification/Effects.thy ===== *)
theory Effects
  imports DetachedProof FileStore PyJson
begin

text \<open>
  Programs with effects: a program takes the state of the outside world and returns its result,
  or the exception that ended it, with the new state. \<open>host\<close> lists what the code asks of the
  outside: the Git process, the files, the clock and the logger. It is a parameter of the
  model; the state \<open>'w\<close> of the outside is left open.

  A text is the list of its UTF-8 bytes, a time an integer of microseconds.
\<close>

section \<open>Programs\<close>

type_synonym ('w, 'a) prog = "'w \<Rightarrow> 'a result \<times> 'w"

definition ret :: "'a \<Rightarrow> ('w, 'a) prog" where
  "ret x = (\<lambda>w. (Inr x, w))"

definition raiseP :: "exc \<Rightarrow> ('w, 'a) prog" where
  "raiseP e = (\<lambda>w. (Inl e, w))"

definition bindP :: "('w, 'a) prog \<Rightarrow> ('a \<Rightarrow> ('w, 'b) prog) \<Rightarrow> ('w, 'b) prog" where
  "bindP m f = (\<lambda>w. case m w of (Inl e, w1) \<Rightarrow> (Inl e, w1) | (Inr x, w1) \<Rightarrow> f x w1)"

text \<open>\<open>try: m  except C as e: h e\<close>\<close>

definition catchP ::
    "('w, 'a) prog \<Rightarrow> (exc \<Rightarrow> bool) \<Rightarrow> (exc \<Rightarrow> ('w, 'a) prog) \<Rightarrow> ('w, 'a) prog" where
  "catchP m p h = (\<lambda>w. case m w of
     (Inl e, w1) \<Rightarrow> if p e then h e w1 else (Inl e, w1)
   | (Inr x, w1) \<Rightarrow> (Inr x, w1))"

text \<open>\<open>try: m  finally: f\<close>, where \<open>f\<close> does not raise.\<close>

definition finallyP :: "('w, 'a) prog \<Rightarrow> ('w \<Rightarrow> 'w) \<Rightarrow> ('w, 'a) prog" where
  "finallyP m f = (\<lambda>w. case m w of (r, w1) \<Rightarrow> (r, f w1))"

definition liftE :: "'a result \<Rightarrow> ('w, 'a) prog" where
  "liftE r = (\<lambda>w. (r, w))"

definition doP :: "('w \<Rightarrow> 'w) \<Rightarrow> ('w, unit) prog" where
  "doP f = (\<lambda>w. (Inr (), f w))"

definition askP :: "('w \<Rightarrow> 'a) \<Rightarrow> ('w, 'a) prog" where
  "askP f = (\<lambda>w. (Inr (f w), w))"

definition guardP :: "bool \<Rightarrow> exc \<Rightarrow> ('w, 'a) prog \<Rightarrow> ('w, 'a) prog" where
  "guardP c e k = (if c then k else raiseP e)"

text \<open>\<open>[f(x) for x in xs]\<close>\<close>

primrec mapP :: "('a \<Rightarrow> ('w, 'b) prog) \<Rightarrow> 'a list \<Rightarrow> ('w, 'b list) prog" where
  "mapP f [] = ret []"
| "mapP f (x # xs) = bindP (f x) (\<lambda>y. bindP (mapP f xs) (\<lambda>ys. ret (y # ys)))"

text \<open>A loop that carries a value.\<close>

primrec foldP :: "('a \<Rightarrow> 's \<Rightarrow> ('w, 's) prog) \<Rightarrow> 'a list \<Rightarrow> 's \<Rightarrow> ('w, 's) prog" where
  "foldP f [] s = ret s"
| "foldP f (x # xs) s = bindP (f x s) (\<lambda>s1. foldP f xs s1)"

lemma prog_simps [simp]:
  "bindP (ret x) f = f x" "bindP (raiseP e) g = raiseP e"
  "catchP (ret x) p h = ret x" "ret x w = (Inr x, w)" "raiseP e w = (Inl e, w)"
  "guardP True e k = k" "guardP False e k = raiseP e"
  "liftE r w = (r, w)" "doP u w = (Inr (), u w)" "askP a w = (Inr (a w), w)"
  by (simp_all add: bindP_def catchP_def ret_def raiseP_def guardP_def liftE_def doP_def askP_def)

lemma bindP_assoc: "bindP (bindP m f) g = bindP m (\<lambda>x. bindP (f x) g)"
  by (auto simp: bindP_def split: sum.splits prod.splits)

lemma bindP_Inr_iff:
  "bindP m f w = (Inr y, w') \<longleftrightarrow> (\<exists>x w1. m w = (Inr x, w1) \<and> f x w1 = (Inr y, w'))"
  by (auto simp: bindP_def split: sum.splits prod.splits)

lemma bindP_Inl_iff:
  "bindP m f w = (Inl e, w') \<longleftrightarrow>
     m w = (Inl e, w') \<or> (\<exists>x w1. m w = (Inr x, w1) \<and> f x w1 = (Inl e, w'))"
  by (auto simp: bindP_def split: sum.splits prod.splits)

lemma bindP_option_Inr_iff:
  "bindP m (\<lambda>r. case r of None \<Rightarrow> f | Some x \<Rightarrow> g x) w = (Inr y, w') \<longleftrightarrow>
     (\<exists>w1. m w = (Inr None, w1) \<and> f w1 = (Inr y, w')) \<or>
     (\<exists>x w1. m w = (Inr (Some x), w1) \<and> g x w1 = (Inr y, w'))"
  unfolding bindP_Inr_iff by (metis (no_types, lifting) not_None_eq option.simps(4,5))

lemma catchP_Inr_iff:
  "catchP m p h w = (Inr y, w') \<longleftrightarrow>
     m w = (Inr y, w') \<or> (\<exists>e w1. m w = (Inl e, w1) \<and> p e \<and> h e w1 = (Inr y, w'))"
  by (auto simp: catchP_def split: sum.splits prod.splits)

lemma catchP_Inl_iff:
  "catchP m p h w = (Inl e, w') \<longleftrightarrow>
     m w = (Inl e, w') \<and> \<not> p e \<or> (\<exists>e1 w1. m w = (Inl e1, w1) \<and> p e1 \<and> h e1 w1 = (Inl e, w'))"
  by (auto simp: catchP_def split: sum.splits prod.splits)

lemma guardP_iff [simp]:
  "guardP c e k w = (Inr y, w') \<longleftrightarrow> c \<and> k w = (Inr y, w')"
  "guardP c e k w = (Inl e', w') \<longleftrightarrow> c \<and> k w = (Inl e', w') \<or> \<not> c \<and> e' = e \<and> w' = w"
  by (auto simp: guardP_def raiseP_def)

lemma bindP_cong [fundef_cong]:
  assumes "m = m'" "w = w'" "\<And>x w1. m' w' = (Inr x, w1) \<Longrightarrow> f x w1 = f' x w1"
  shows "bindP m f w = bindP m' f' w'"
  using assms by (auto simp: bindP_def split: sum.splits prod.splits)

section \<open>Effects that stay within a relation\<close>

text \<open>
  \<open>within R m\<close>: running \<open>m\<close> takes every world to one the relation allows. For a reflexive and
  transitive relation a program stays within it if all its steps do.
\<close>

definition within :: "('w \<Rightarrow> 'w \<Rightarrow> bool) \<Rightarrow> ('w, 'a) prog \<Rightarrow> bool" where
  "within R m \<longleftrightarrow> (\<forall>w. R w (snd (m w)))"

lemma withinD: "within R m \<Longrightarrow> m w = (r, w') \<Longrightarrow> R w w'"
  unfolding within_def by (metis snd_conv)

locale world_order =
  fixes R :: "'w \<Rightarrow> 'w \<Rightarrow> bool"
  assumes refl: "R w w"
    and trans: "R u v \<Longrightarrow> R v w \<Longrightarrow> R u w"
begin

lemma within_pure: "within R (ret x)" "within R (raiseP e)" "within R (liftE r)" "within R (askP a)"
  by (simp_all add: within_def refl)

lemma within_bind: "within R m \<Longrightarrow> (\<And>x. within R (f x)) \<Longrightarrow> within R (bindP m f)"
  unfolding within_def bindP_def by (auto split: sum.splits prod.splits) (metis snd_conv trans)+

lemma within_bind_result:
  assumes "within R m" "\<And>w x w1. m w = (Inr x, w1) \<Longrightarrow> within R (f x)"
  shows "within R (bindP m f)"
  using assms unfolding within_def bindP_def by (auto split: sum.splits prod.splits) (metis snd_conv trans)+

lemma within_catch:
  "within R m \<Longrightarrow> (\<And>e. p e \<Longrightarrow> within R (g e)) \<Longrightarrow> within R (catchP m p g)"
  unfolding within_def catchP_def by (auto split: sum.splits prod.splits) (metis snd_conv trans)+

lemma within_guard: "within R k \<Longrightarrow> within R (guardP c e k)"
  by (simp add: guardP_def within_pure)

lemma within_cases:
  "(c \<Longrightarrow> within R k) \<Longrightarrow> (\<not> c \<Longrightarrow> within R l) \<Longrightarrow> within R (if c then k else l)"
  "(\<And>x y. within R (f x y)) \<Longrightarrow> within R (case p of (x, y) \<Rightarrow> f x y)"
  "within R k \<Longrightarrow> (\<And>x. within R (g x)) \<Longrightarrow> within R (case r of None \<Rightarrow> k | Some x \<Rightarrow> g x)"
  by (simp_all split: prod.split option.split)

lemma within_map: "(\<And>x. within R (f x)) \<Longrightarrow> within R (mapP f xs)"
  by (induction xs) (auto intro!: within_bind within_pure)

lemma within_fold: "(\<And>x s. x \<in> set xs \<Longrightarrow> within R (f x s)) \<Longrightarrow> within R (foldP f xs s)"
  by (induction xs arbitrary: s) (auto intro!: within_bind within_pure)

end

section \<open>Effects that leave a view of the world unchanged\<close>

text \<open>
  \<open>keeps v m\<close>: running \<open>m\<close> does not change what \<open>v\<close> sees of the world. A read-only command
  keeps a view, and so does everything built from such commands.
\<close>

definition keeps :: "('w \<Rightarrow> 'v) \<Rightarrow> ('w, 'a) prog \<Rightarrow> bool" where
  "keeps v m \<longleftrightarrow> (\<forall>w. v (snd (m w)) = v w)"

lemma keepsD: "keeps v m \<Longrightarrow> m w = (r, w') \<Longrightarrow> v w' = v w"
  unfolding keeps_def by (metis snd_conv)

interpretation same_view: world_order "\<lambda>w w'. v w' = v w" for v
  by unfold_locales simp_all

lemma keeps_within: "keeps v m \<longleftrightarrow> within (\<lambda>w w'. v w' = v w) m"
  by (simp add: keeps_def within_def)

named_theorems keeps_intros

lemma keeps_ret [keeps_intros]: "keeps v (ret x)"
  and keeps_raise [keeps_intros]: "keeps v (raiseP e)"
  and keeps_lift [keeps_intros]: "keeps v (liftE r)"
  and keeps_ask [keeps_intros]: "keeps v (askP a)"
  unfolding keeps_within by (rule same_view.within_pure)+

lemma keeps_pair [keeps_intros]: "keeps v (Pair r)"
  by (simp add: keeps_def)

lemma keeps_bind [keeps_intros]: "keeps v m \<Longrightarrow> (\<And>x. keeps v (f x)) \<Longrightarrow> keeps v (bindP m f)"
  unfolding keeps_within by (rule same_view.within_bind)

lemma keeps_catch [keeps_intros]:
  "keeps v m \<Longrightarrow> (\<And>e. p e \<Longrightarrow> keeps v (g e)) \<Longrightarrow> keeps v (catchP m p g)"
  unfolding keeps_within by (rule same_view.within_catch)

lemma keeps_guard [keeps_intros]: "keeps v k \<Longrightarrow> keeps v (guardP c e k)"
  unfolding keeps_within by (rule same_view.within_guard)

lemma keeps_if [keeps_intros]: "(c \<Longrightarrow> keeps v a) \<Longrightarrow> (\<not> c \<Longrightarrow> keeps v b) \<Longrightarrow> keeps v (if c then a else b)"
  by simp

lemma keeps_map [keeps_intros]: "(\<And>x. keeps v (f x)) \<Longrightarrow> keeps v (mapP f xs)"
  unfolding keeps_within by (rule same_view.within_map)

lemma keeps_fold [keeps_intros]: "(\<And>x s. keeps v (f x s)) \<Longrightarrow> keeps v (foldP f xs s)"
  unfolding keeps_within by (rule same_view.within_fold)

lemma keeps_option [keeps_intros]:
  "(a = None \<Longrightarrow> keeps v m) \<Longrightarrow> (\<And>x. a = Some x \<Longrightarrow> keeps v (f x)) \<Longrightarrow>
     keeps v (case a of None \<Rightarrow> m | Some x \<Rightarrow> f x)"
  by (cases a) simp_all

lemma keeps_prod [keeps_intros]:
  "(\<And>x y. a = (x, y) \<Longrightarrow> keeps v (f x y)) \<Longrightarrow> keeps v (case a of (x, y) \<Rightarrow> f x y)"
  by (cases a) simp

lemma mapP_Inr_length: "mapP f xs w = (Inr ys, w') \<Longrightarrow> length ys = length xs"
  by (induction xs arbitrary: w ys) (auto simp: bindP_Inr_iff)

section \<open>The exceptions of a program\<close>

text \<open>\<open>raises_at E m w\<close>: run in \<open>w\<close>, the program \<open>m\<close> raises nothing but exceptions of \<open>E\<close>.\<close>

definition raises_at :: "(exc \<Rightarrow> bool) \<Rightarrow> ('w, 'a) prog \<Rightarrow> 'w \<Rightarrow> bool" where
  "raises_at E m w \<longleftrightarrow> (\<forall>e w'. m w = (Inl e, w') \<longrightarrow> E e)"

lemma raises_atD: "raises_at E m w \<Longrightarrow> m w = (Inl e, w') \<Longrightarrow> E e"
  by (simp add: raises_at_def)

named_theorems raises_intros

lemma raises_pure [raises_intros]:
  "raises_at E (ret x) w" "raises_at E (askP a) w" "raises_at E (doP u) w"
  "E e \<Longrightarrow> raises_at E (raiseP e) w" "(\<And>e. r = Inl e \<Longrightarrow> E e) \<Longrightarrow> raises_at E (liftE r) w"
  by (simp_all add: raises_at_def)

lemma raises_bind [raises_intros]:
  "raises_at E m w \<Longrightarrow> (\<And>x w1. m w = (Inr x, w1) \<Longrightarrow> raises_at E (f x) w1) \<Longrightarrow> raises_at E (bindP m f) w"
  by (auto simp: raises_at_def bindP_Inl_iff)

lemma raises_guard [raises_intros]:
  "(c \<Longrightarrow> raises_at E k w) \<Longrightarrow> (\<not> c \<Longrightarrow> E e) \<Longrightarrow> raises_at E (guardP c e k) w"
  by (cases c) (simp_all add: raises_at_def)

lemma raises_catch [raises_intros]:
  "raises_at (\<lambda>e. p e \<or> E e) m w \<Longrightarrow> (\<And>e w1. p e \<Longrightarrow> raises_at E (g e) w1) \<Longrightarrow> raises_at E (catchP m p g) w"
  by (fastforce simp: raises_at_def catchP_Inl_iff)

lemma raises_cases [raises_intros]:
  "(c \<Longrightarrow> raises_at E a w) \<Longrightarrow> (\<not> c \<Longrightarrow> raises_at E b w) \<Longrightarrow> raises_at E (if c then a else b) w"
  "(\<And>x y. z = (x, y) \<Longrightarrow> raises_at E (f x y) w) \<Longrightarrow> raises_at E (case z of (x, y) \<Rightarrow> f x y) w"
  by (simp_all split: prod.split)

section \<open>The host\<close>

text \<open>
  \<open>store_of\<close> and \<open>set_store\<close> read and replace the files; \<open>write_fault\<close> says where the next atomic
  write fails, \<open>temp_name\<close> which temporary name it gets. \<open>json_loads\<close> and \<open>fromisoformat\<close> are the
  parsers of Python's \<open>json\<close> and \<open>datetime\<close>, \<open>digest\<close> and \<open>ripemd\<close> the functions of \<open>hashlib\<close>.
\<close>

datatype tzinfo = NaiveTime | UtcTime | OffsetTime

record 'w host =
  run_git :: "string list \<Rightarrow> string option \<Rightarrow> ('w, int \<times> string \<times> string) prog"
  run_git_bytes :: "string list \<Rightarrow> string option \<Rightarrow> ('w, int \<times> bytes \<times> bytes) prog"
  store_of :: "'w \<Rightarrow> file_store"
  set_store :: "file_store \<Rightarrow> 'w \<Rightarrow> 'w"
  write_fault :: "'w \<Rightarrow> write_fault"
  temp_name :: "path \<Rightarrow> 'w \<Rightarrow> path"
  resolve_path :: "path \<Rightarrow> 'w \<Rightarrow> path"
  monotonic :: "'w \<Rightarrow> int"
  sleep :: "int \<Rightarrow> 'w \<Rightarrow> 'w"
  log_warning :: "string \<Rightarrow> 'w \<Rightarrow> 'w"
  json_loads :: "string \<Rightarrow> json option"
  fromisoformat :: "string \<Rightarrow> (int \<times> tzinfo) option"
  digest :: "hash_name \<Rightarrow> bytes \<Rightarrow> bytes"
  ripemd :: "bytes \<Rightarrow> bytes option"

definition stat_path :: "'w host \<Rightarrow> path \<Rightarrow> 'w \<Rightarrow> entry option" where
  "stat_path h p w = stat_entry p (store_of h w)"

definition read_file :: "'w host \<Rightarrow> path \<Rightarrow> ('w, bytes) prog" where
  "read_file h p = (\<lambda>w. (read_bytes p (store_of h w), w))"

lemma keeps_read_file [keeps_intros]: "keeps v (read_file h p)"
  by (simp add: keeps_def read_file_def)

section \<open>A host with files and without Git\<close>

text \<open>For the examples: the world is the store, every Git command fails, the clock stands still.\<close>

definition fresh_temp :: "path \<Rightarrow> file_store \<Rightarrow> path" where
  "fresh_temp p s = p @ replicate (Suc (foldr max (map (length \<circ> fst) s) 0)) (CHR ''x'') @ ''.tmp''"

definition file_host ::
    "(string \<Rightarrow> json option) \<Rightarrow> (string \<Rightarrow> (int \<times> tzinfo) option) \<Rightarrow>
     (hash_name \<Rightarrow> bytes \<Rightarrow> bytes) \<Rightarrow> file_store host" where
  "file_host loads isofmt H =
     \<lparr>run_git = (\<lambda>_ _ w. (Inr (128, [], ''fatal: not a git repository''), w)),
      run_git_bytes = (\<lambda>_ _ w. (Inr (128, [], []), w)), store_of = (\<lambda>w. w),
      set_store = (\<lambda>s _. s), write_fault = (\<lambda>_. NoFault), temp_name = fresh_temp,
      resolve_path = (\<lambda>p _. p), monotonic = (\<lambda>_. 0), sleep = (\<lambda>_ w. w),
      log_warning = (\<lambda>_ w. w), json_loads = loads, fromisoformat = isofmt, digest = H,
      ripemd = (\<lambda>_. None)\<rparr>"

lemma fresh_temp_fresh: "map_of s (fresh_temp p s) = None"
proof -
  have "(q, e) \<in> set s \<Longrightarrow> length q \<le> foldr max (map (length \<circ> fst) s) 0" for q e
    by (induction s) auto
  then have "(fresh_temp p s, e) \<notin> set s" for e
    by (fastforce simp: fresh_temp_def)
  then show ?thesis by (meson map_of_SomeD not_Some_eq)
qed

end
