(* ===== verification/PyTime.thy ===== *)
theory PyTime
  imports PyText
begin

text \<open>
  Instants as microseconds since the epoch, and the two \<open>strftime\<close> formats of the code. The
  year is written with four digits, as for the years 1000 to 9999.
\<close>

type_synonym instant = int

definition microseconds :: int where
  "microseconds = 1000000"

text \<open>Days since 1970-01-01 to a date of the Gregorian calendar: (year, month, day).\<close>

definition civil_from_days :: "int \<Rightarrow> int \<times> int \<times> int" where
  "civil_from_days d =
     (let z = d + 719468;
          era = z div 146097;
          doe = z mod 146097;
          yoe = (doe - doe div 1460 + doe div 36524 - doe div 146096) div 365;
          doy = doe - (365 * yoe + yoe div 4 - yoe div 100);
          mp = (5 * doy + 2) div 153;
          day = doy - (153 * mp + 2) div 5 + 1;
          month = (if mp < 10 then mp + 3 else mp - 9);
          year = yoe + era * 400 + (if month \<le> 2 then 1 else 0)
      in (year, month, day))"

definition days_from_civil :: "int \<Rightarrow> int \<Rightarrow> int \<Rightarrow> int" where
  "days_from_civil year month day =
     (let y = (if month \<le> 2 then year - 1 else year);
          era = y div 400;
          yoe = y mod 400;
          doy = (153 * (if month > 2 then month - 3 else month + 9) + 2) div 5 + day - 1;
          doe = yoe * 365 + yoe div 4 - yoe div 100 + doy
      in era * 146097 + doe - 719468)"

record civil_time =
  ct_year :: int
  ct_month :: int
  ct_day :: int
  ct_hour :: int
  ct_minute :: int
  ct_second :: int

definition civil_time_of :: "instant \<Rightarrow> civil_time" where
  "civil_time_of t =
     (let s = t div microseconds;
          days = s div 86400;
          r = s mod 86400;
          (y, m, d) = civil_from_days days
      in \<lparr>ct_year = y, ct_month = m, ct_day = d, ct_hour = r div 3600,
          ct_minute = r mod 3600 div 60, ct_second = r mod 60\<rparr>)"

definition pad2 :: "int \<Rightarrow> string" where
  "pad2 i = zero_padded 2 (nat i)"

definition pad4 :: "int \<Rightarrow> string" where
  "pad4 i = zero_padded 4 (nat i)"

text \<open>\<open>%Y-%m-%dT%H:%M:%SZ\<close> and \<open>%Y%m%dT%H%M%SZ\<close>.\<close>

definition rfc3339_z :: "instant \<Rightarrow> string" where
  "rfc3339_z t = (let c = civil_time_of t in
     pad4 (ct_year c) @ ''-'' @ pad2 (ct_month c) @ ''-'' @ pad2 (ct_day c) @ ''T'' @
     pad2 (ct_hour c) @ '':'' @ pad2 (ct_minute c) @ '':'' @ pad2 (ct_second c) @ ''Z'')"

definition compact_z :: "instant \<Rightarrow> string" where
  "compact_z t = (let c = civil_time_of t in
     pad4 (ct_year c) @ pad2 (ct_month c) @ pad2 (ct_day c) @ ''T'' @
     pad2 (ct_hour c) @ pad2 (ct_minute c) @ pad2 (ct_second c) @ ''Z'')"

end
