(* ===== verification/Manifest.thy ===== *)
theory Manifest
  imports Effects PyTime "HOL-Library.List_Lexorder" "HOL-Library.Char_ord"
begin

text \<open>
  \<open>timestamp.py\<close>: building the schema-1 manifest, persisting proofs and manifests, and the
  inspection of recovery artifacts.
\<close>

section \<open>Manifests\<close>

definition payload_format_v1 :: string where
  "payload_format_v1 = ''git-commit-id-v1''"

definition known_triggers :: "string list" where
  "known_triggers = [''every_commit'', ''max_age'', ''fixed_time'']"

type_synonym manifest = "(string \<times> json) list"

definition build_manifest ::
    "string \<Rightarrow> commit_id \<Rightarrow> string \<Rightarrow> string \<Rightarrow> instant \<Rightarrow> string list \<Rightarrow> manifest result" where
  "build_manifest object_format cid proof_name source_ref submitted_at triggers =
     bindE (build_payload object_format cid) (\<lambda>_.
       Inr [(''schema'', JInt 1),
            (''source_commit'', JStr cid),
            (''git_object_format'', JStr object_format),
            (''payload_format'', JStr payload_format_v1),
            (''submitted_at'', JStr (rfc3339_z submitted_at)),
            (''proof'', JStr proof_name),
            (''source_ref'', JStr source_ref),
            (''triggers'', JList (map JStr (sort (remdups triggers))))])"

section \<open>Persisting\<close>

text \<open>\<open>Path(d).is_absolute()\<close> and \<open>".." in Path(d).parts\<close>\<close>

definition resolve_proof_dir :: "'w host \<Rightarrow> path \<Rightarrow> path \<Rightarrow> ('w, path) prog" where
  "resolve_proof_dir h root d =
     guardP (\<not> str_startswith d ''/'' \<and> ''..'' \<notin> set (split_char (CHR ''/'') d))
       (PersistenceError ''proof directory must be a repository-relative path'') (
     let proof_dir = path_join root d in
     bindP (askP (\<lambda>w. is_dir proof_dir (store_of h w))) (\<lambda>ok.
       if ok then ret proof_dir
       else raiseP (PersistenceError ''proof directory does not exist'')))"

definition write_atomically ::
    "'w host \<Rightarrow> path \<Rightarrow> string \<Rightarrow> bytes \<Rightarrow> string \<Rightarrow> bool \<Rightarrow> ('w, path) prog" where
  "write_atomically h dir name content tmp_prefix force = (\<lambda>w.
     let (r, states) = atomic_write (write_fault h w) (temp_name h (path_join dir tmp_prefix) w)
           (path_join dir name) content force (store_of h w)
     in (r, set_store h (last states) w))"

text \<open>The binding check both proof writers begin with.\<close>

definition check_binding :: "'w host \<Rightarrow> bytes \<Rightarrow> bytes \<Rightarrow> string \<Rightarrow> ('w, unit) prog" where
  "check_binding h proof payload message =
     catchP (liftE (validate_detached_proof (digest h) proof (Some payload))) is_ValueError
       (\<lambda>_. raiseP (PersistenceError message))"

definition persist_proof ::
    "'w host \<Rightarrow> path \<Rightarrow> path \<Rightarrow> string \<Rightarrow> commit_id \<Rightarrow> bytes \<Rightarrow> ('w, path) prog" where
  "persist_proof h root d object_format cid proof =
     bindP (liftE (build_payload object_format cid)) (\<lambda>payload.
     guardP (proof \<noteq> []) (PersistenceError ''proof bytes must be non-empty'') (
     bindP (check_binding h proof payload ''invalid OpenTimestamps proof'') (\<lambda>_.
     bindP (resolve_proof_dir h root d) (\<lambda>proof_dir.
     write_atomically h proof_dir (cid @ ''.ots'') proof (''.'' @ cid @ ''.'') False))))"

definition persist_upgraded_proof ::
    "'w host \<Rightarrow> path \<Rightarrow> path \<Rightarrow> string \<Rightarrow> commit_id \<Rightarrow> bytes \<Rightarrow> ('w, path) prog" where
  "persist_upgraded_proof h root d object_format cid proof =
     bindP (liftE (build_payload object_format cid)) (\<lambda>payload.
     guardP (proof \<noteq> []) (PersistenceError ''upgraded proof bytes must be non-empty'') (
     bindP (check_binding h proof payload ''invalid upgraded OpenTimestamps proof'') (\<lambda>_.
     bindP (resolve_proof_dir h root d) (\<lambda>proof_dir.
     bindP (askP (\<lambda>w. is_file (path_join proof_dir (cid @ ''.ots'')) (store_of h w))) (\<lambda>there.
     guardP there (PersistenceError ''cannot upgrade a proof that does not exist'') (
     write_atomically h proof_dir (cid @ ''.ots'') proof (''.'' @ cid @ ''.'') True))))))"

definition text_bytes :: "string \<Rightarrow> bytes" where
  "text_bytes s = map of_char s"

definition persist_manifest :: "'w host \<Rightarrow> path \<Rightarrow> path \<Rightarrow> manifest \<Rightarrow> ('w, path) prog" where
  "persist_manifest h root d m =
     (case (json_get_str m ''source_commit'', json_get_str m ''git_object_format'') of
        (Some cid, Some object_format) \<Rightarrow>
          bindP (liftE (build_payload object_format cid)) (\<lambda>_.
          bindP (resolve_proof_dir h root d) (\<lambda>proof_dir.
          write_atomically h proof_dir (cid @ ''.json'')
            (text_bytes (json_dumps (JObj m) @ [newline])) (''.'' @ cid @ ''.'') False))
      | _ \<Rightarrow> raiseP (PersistenceError
          ''manifest must include source_commit and git_object_format strings''))"

section \<open>Recovery\<close>

record proof_evidence =
  ev_source_commit_id :: commit_id
  ev_submitted_at :: instant
  ev_triggers :: "string list"
  ev_proof_name :: string

record recovery_artifacts =
  ra_proof_path :: path
  ra_manifest_path :: path
  ra_proof_bytes :: bytes
  ra_manifest :: manifest
  ra_submitted_at :: instant
  ra_triggers :: "string list"

definition as_evidence :: "recovery_artifacts \<Rightarrow> commit_id \<Rightarrow> proof_evidence" where
  "as_evidence a cid =
     \<lparr>ev_source_commit_id = cid, ev_submitted_at = ra_submitted_at a, ev_triggers = ra_triggers a,
      ev_proof_name = (case json_get_str (ra_manifest a) ''proof'' of
        Some n \<Rightarrow> n | None \<Rightarrow> cid @ ''.ots'')\<rparr>"

text \<open>\<open>value == 1\<close> in Python, where \<open>True\<close> and \<open>1.0\<close> equal \<open>1\<close>.\<close>

definition json_is_one :: "json option \<Rightarrow> bool" where
  "json_is_one x =
     (case x of
        Some (JInt i) \<Rightarrow> i = 1
      | Some (JBool b) \<Rightarrow> b
      | Some (JFloat _ (Some (m, e))) \<Rightarrow> if 0 \<le> e then m * 2 ^ nat e = 1 else m = 2 ^ nat (- e)
      | _ \<Rightarrow> False)"

fun json_strings :: "json list \<Rightarrow> string list option" where
  "json_strings [] = Some []"
| "json_strings (JStr s # xs) = map_option ((#) s) (json_strings xs)"
| "json_strings (_ # xs) = None"

text \<open>A trigger set is kept as the sorted list of its elements.\<close>

definition trigger_set :: "string list \<Rightarrow> string list" where
  "trigger_set ts = sort (remdups ts)"

definition recovery_fail :: "string \<Rightarrow> 'a result" where
  "recovery_fail message = Inl (RecoveryValidationError message)"

definition validate_submitted_at ::
    "(string \<Rightarrow> (int \<times> tzinfo) option) \<Rightarrow> json option \<Rightarrow> instant result" where
  "validate_submitted_at isofmt x =
     (case x of
        Some (JStr s) \<Rightarrow>
          if \<not> str_endswith s ''Z''
          then recovery_fail ''submitted_at must be a UTC RFC 3339 string ending in Z''
          else (case isofmt s of
            None \<Rightarrow> recovery_fail ''submitted_at is not a valid RFC 3339 timestamp''
          | Some (t, tz) \<Rightarrow>
              if tz \<noteq> UtcTime then recovery_fail ''submitted_at must be UTC'' else Inr t)
      | _ \<Rightarrow> recovery_fail ''submitted_at must be a UTC RFC 3339 string ending in Z'')"

definition validate_manifest_triggers :: "json option \<Rightarrow> string list result" where
  "validate_manifest_triggers x =
     (case x of
        Some (JList xs) \<Rightarrow>
          if xs = [] then recovery_fail ''triggers must be a non-empty list''
          else (case json_strings xs of
            None \<Rightarrow> recovery_fail ''triggers must be strings''
          | Some ts \<Rightarrow>
              if \<not> set ts \<subseteq> set known_triggers then recovery_fail ''unknown trigger(s)''
              else Inr (trigger_set ts))
      | _ \<Rightarrow> recovery_fail ''triggers must be a non-empty list'')"

definition validate_recovery_manifest ::
    "(string \<Rightarrow> (int \<times> tzinfo) option) \<Rightarrow> manifest \<Rightarrow> commit_id \<Rightarrow> string \<Rightarrow>
     (instant \<times> string list) result" where
  "validate_recovery_manifest isofmt m cid object_format =
     guardE (json_is_one (json_get m ''schema'')) (RecoveryValidationError ''schema must be 1'') (
     guardE (json_get m ''payload_format'' = Some (JStr payload_format_v1))
       (RecoveryValidationError ''payload_format'') (
     bindE (validate_submitted_at isofmt (json_get m ''submitted_at'')) (\<lambda>submitted_at.
     guardE (json_get m ''proof'' = Some (JStr (cid @ ''.ots'')))
       (RecoveryValidationError ''proof'') (
     guardE (case json_get m ''source_ref'' of Some (JStr s) \<Rightarrow> s \<noteq> [] | _ \<Rightarrow> False)
       (RecoveryValidationError ''source_ref must be a non-empty string'') (
     bindE (validate_manifest_triggers (json_get m ''triggers'')) (\<lambda>triggers.
     Inr (submitted_at, triggers)))))))"

text \<open>\<open>read_text(encoding="utf-8")\<close> of a readable file, then \<open>json.loads\<close> to an object.\<close>

definition load_manifest :: "'w host \<Rightarrow> bytes \<Rightarrow> manifest result" where
  "load_manifest h raw =
     (if \<not> utf8_valid raw then recovery_fail ''manifest is not readable UTF-8''
      else case json_loads h (bytes_text raw) of
        None \<Rightarrow> recovery_fail ''manifest is not valid JSON''
      | Some (JObj m) \<Rightarrow> Inr m
      | Some _ \<Rightarrow> recovery_fail ''manifest must be a JSON object'')"

definition inspect_recovery_artifacts ::
    "'w host \<Rightarrow> path \<Rightarrow> path \<Rightarrow> string \<Rightarrow> commit_id \<Rightarrow> ('w, recovery_artifacts) prog" where
  "inspect_recovery_artifacts h root d object_format cid =
     guardP (format_length object_format \<noteq> None)
       (RecoveryValidationError ''unsupported object format'') (
     guardP (cid \<noteq> [] \<and> set cid \<subseteq> set hex_digits)
       (RecoveryValidationError ''commit id must be lowercase hexadecimal'') (
     bindP (resolve_proof_dir h root d) (\<lambda>proof_dir.
     let proof_path = path_join proof_dir (cid @ ''.ots'');
         manifest_path = path_join proof_dir (cid @ ''.json'')
     in
     bindP (askP (store_of h)) (\<lambda>files.
     guardP (is_file proof_path files) (RecoveryValidationError ''proof file missing'') (
     guardP (is_file manifest_path files) (RecoveryValidationError ''manifest file missing'') (
     bindP (read_file h proof_path) (\<lambda>proof.
     guardP (proof \<noteq> []) (RecoveryValidationError ''proof file is empty'') (
     bindP (catchP (liftE (build_payload object_format cid))
         is_PayloadValidationError
         (\<lambda>_. raiseP (RecoveryValidationError ''cannot build canonical payload''))) (\<lambda>payload.
     bindP (catchP (liftE (validate_detached_proof (digest h) proof (Some payload))) is_ValueError
         (\<lambda>_. raiseP (RecoveryValidationError ''invalid OpenTimestamps proof''))) (\<lambda>_.
     bindP (catchP (read_file h manifest_path) is_OSError
         (\<lambda>_. raiseP (RecoveryValidationError ''manifest is not readable UTF-8''))) (\<lambda>raw.
     bindP (liftE (load_manifest h raw)) (\<lambda>m.
     guardP (json_get m ''source_commit'' = Some (JStr cid))
       (RecoveryValidationError ''manifest source_commit does not match'') (
     guardP (json_get m ''git_object_format'' = Some (JStr object_format))
       (RecoveryValidationError ''manifest git_object_format does not match'') (
     bindP (liftE (validate_recovery_manifest (fromisoformat h) m cid object_format))
       (\<lambda>(submitted_at, triggers).
     ret \<lparr>ra_proof_path = proof_path, ra_manifest_path = manifest_path, ra_proof_bytes = proof,
          ra_manifest = m, ra_submitted_at = submitted_at, ra_triggers = triggers\<rparr>)))))))))))))))"

definition inspect_recovery_artifacts_if_present ::
    "'w host \<Rightarrow> path \<Rightarrow> path \<Rightarrow> string \<Rightarrow> commit_id \<Rightarrow> ('w, recovery_artifacts option) prog" where
  "inspect_recovery_artifacts_if_present h root d object_format cid =
     (let proof_dir = path_join root d;
          proof_path = path_join proof_dir (cid @ ''.ots'');
          manifest_path = path_join proof_dir (cid @ ''.json'')
      in
      bindP (askP (store_of h)) (\<lambda>files.
        if \<not> is_file proof_path files \<and> \<not> is_file manifest_path files then ret None
        else bindP (inspect_recovery_artifacts h root d object_format cid) (\<lambda>a. ret (Some a))))"

section \<open>Facts\<close>

text \<open>
  What the file system promises: replacing the files is what is read back, and the name
  \<open>NamedTemporaryFile\<close> picks is unused and ends in \<open>.tmp\<close>.
\<close>

definition lawful_store :: "'w host \<Rightarrow> bool" where
  "lawful_store h \<longleftrightarrow>
     (\<forall>s w. store_of h (set_store h s w) = s) \<and>
     (\<forall>p w. map_of (store_of h w) (temp_name h p w) = None \<and> str_endswith (temp_name h p w) ''.tmp'')"

lemma lawful_storeD:
  assumes "lawful_store h"
  shows "store_of h (set_store h s w) = s" "map_of (store_of h w) (temp_name h p w) = None"
    "str_endswith (temp_name h p w) ''.tmp''"
  using assms by (simp_all add: lawful_store_def)

lemma not_tmp:
  assumes "str_endswith t ''.tmp''"
  shows "t \<noteq> path_join d (n @ ''.ots'')" "t \<noteq> path_join d (n @ ''.json'')"
proof -
  have "last t = CHR ''p''" using assms
    by (auto simp: str_endswith_def dest: arg_cong [of _ _ last] simp: last_drop)
  then show "t \<noteq> path_join d (n @ ''.ots'')" "t \<noteq> path_join d (n @ ''.json'')"
    by (auto simp: path_join_def)
qed

lemma write_atomically_done:
  assumes h: "lawful_store h" and n: "n = m @ ''.ots'' \<or> n = m @ ''.json''"
    and r: "write_atomically h dir n content pre force w = (Inr p, w')"
  shows "p = path_join dir n \<and> file_content p (store_of h w') = Some content \<and>
    (\<forall>q. q \<noteq> p \<longrightarrow> map_of (store_of h w') q = map_of (store_of h w) q)"
proof -
  let ?t = "temp_name h (path_join dir pre) w"
  obtain ss where a: "atomic_write (write_fault h w) ?t (path_join dir n) content force (store_of h w) =
      (Inr p, ss)" and w': "w' = set_store h (last ss) w"
    using r by (auto simp: write_atomically_def Let_def split: prod.splits)
  have "?t \<noteq> path_join dir n" using not_tmp [OF lawful_storeD(3) [OF h]] n by blast
  from atomic_write_done [OF this lawful_storeD(2) [OF h] a] show ?thesis
    unfolding w' lawful_storeD(1) [OF h] by auto
qed

lemma write_atomically_failed:
  assumes h: "lawful_store h" and n: "n = m @ ''.ots'' \<or> n = m @ ''.json''"
    and r: "write_atomically h dir n content pre force w = (Inl e, w')"
  shows "map_of (store_of h w') = map_of (store_of h w)"
proof -
  let ?t = "temp_name h (path_join dir pre) w"
  obtain ss where a: "atomic_write (write_fault h w) ?t (path_join dir n) content force (store_of h w) =
      (Inl e, ss)" and w': "w' = set_store h (last ss) w"
    using r by (auto simp: write_atomically_def Let_def split: prod.splits)
  have "?t \<noteq> path_join dir n" using not_tmp [OF lawful_storeD(3) [OF h]] n by blast
  from atomic_write_done [OF this lawful_storeD(2) [OF h] a] show ?thesis
    unfolding w' lawful_storeD(1) [OF h] by auto
qed

lemma resolve_proof_dir_Inr_iff:
  "resolve_proof_dir h rt d w = (Inr dir, w') \<longleftrightarrow>
     \<not> str_startswith d ''/'' \<and> ''..'' \<notin> set (split_char (CHR ''/'') d) \<and>
     dir = path_join rt d \<and> is_dir dir (store_of h w) \<and> w' = w"
  by (auto simp: resolve_proof_dir_def Let_def bindP_Inr_iff split: if_splits)

lemma check_binding_Inr_iff:
  "check_binding h proof payload msg w = (Inr u, w') \<longleftrightarrow>
     validate_detached_proof (digest h) proof (Some payload) = Inr () \<and> w' = w"
  by (auto simp: check_binding_def catchP_Inr_iff)

lemma persist_proof_Inr_iff:
  "persist_proof h rt d fmt cid proof w = (Inr p, w') \<longleftrightarrow>
     proof \<noteq> [] \<and>
     (\<exists>payload dir. build_payload fmt cid = Inr payload \<and>
       validate_detached_proof (digest h) proof (Some payload) = Inr () \<and>
       resolve_proof_dir h rt d w = (Inr dir, w) \<and>
       write_atomically h dir (cid @ ''.ots'') proof (''.'' @ cid @ ''.'') False w = (Inr p, w'))"
  by (auto simp: persist_proof_def bindP_Inr_iff check_binding_Inr_iff resolve_proof_dir_Inr_iff)

lemma persist_manifest_Inr_iff:
  "persist_manifest h rt d m w = (Inr p, w') \<longleftrightarrow>
     (\<exists>cid fmt payload dir. json_get_str m ''source_commit'' = Some cid \<and>
       json_get_str m ''git_object_format'' = Some fmt \<and> build_payload fmt cid = Inr payload \<and>
       resolve_proof_dir h rt d w = (Inr dir, w) \<and>
       write_atomically h dir (cid @ ''.json'') (text_bytes (json_dumps (JObj m) @ [newline]))
         (''.'' @ cid @ ''.'') False w = (Inr p, w'))"
  by (auto simp: persist_manifest_def bindP_Inr_iff resolve_proof_dir_Inr_iff
      split: option.splits)

lemma json_strings_map [simp]: "json_strings (map JStr ts) = Some ts"
  by (induction ts) simp_all

lemma build_manifest_get:
  assumes "build_manifest fmt cid name r t ts = Inr m"
  shows "json_get m ''schema'' = Some (JInt 1)" "json_get m ''source_commit'' = Some (JStr cid)"
    "json_get m ''git_object_format'' = Some (JStr fmt)"
    "json_get m ''payload_format'' = Some (JStr payload_format_v1)"
    "json_get m ''submitted_at'' = Some (JStr (rfc3339_z t))"
    "json_get m ''proof'' = Some (JStr name)" "json_get m ''source_ref'' = Some (JStr r)"
    "json_get m ''triggers'' = Some (JList (map JStr (sort (remdups ts))))"
    "\<exists>p. build_payload fmt cid = Inr p"
  using assms by (auto simp: build_manifest_def bindE_Inr_iff json_get_def)

lemma manifest_accepted:
  assumes "build_manifest fmt cid (cid @ ''.ots'') source_ref t triggers = Inr m"
    and "triggers \<noteq> []" "set triggers \<subseteq> set known_triggers" "source_ref \<noteq> []"
    and "isofmt (rfc3339_z t) = Some (t', UtcTime)"
  shows "validate_recovery_manifest isofmt m cid fmt = Inr (t', trigger_set triggers)"
proof -
  note get = build_manifest_get [OF assms(1)]
  have z: "str_endswith (rfc3339_z t) ''Z''"
    unfolding rfc3339_z_def Let_def append_assoc [symmetric] by (rule endswith_append)
  have ne: "sort (remdups triggers) \<noteq> []"
    using assms(2) by (metis length_0_conv length_sort remdups_eq_nil_iff)
  have ts: "trigger_set (sort (remdups triggers)) = trigger_set triggers"
    by (simp add: trigger_set_def sorted_sort_id distinct_remdups_id)
  show ?thesis
    using assms(3-5) z ne ts
    by (simp add: validate_recovery_manifest_def get json_is_one_def validate_submitted_at_def
        validate_manifest_triggers_def)
qed

text \<open>
  A manifest the code builds is one its recovery check accepts, with the submission time and
  the trigger set it was built from. The time is what the standard parser reads back from the
  output of \<open>strftime\<close>.
\<close>

theorem manifest_recovers:
  assumes "build_manifest fmt cid (cid @ ''.ots'') source_ref t triggers = Inr m"
    and "triggers \<noteq> []" "set triggers \<subseteq> set known_triggers" "source_ref \<noteq> []"
    and "isofmt (rfc3339_z t) = Some (t', UtcTime)"
  shows "validate_recovery_manifest isofmt m cid fmt = Inr (t', trigger_set triggers)"
  using assms by (rule manifest_accepted)

text \<open>The text of a manifest is ASCII, whatever the source ref is.\<close>

definition ascii :: "string \<Rightarrow> bool" where
  "ascii s \<longleftrightarrow> (\<forall>c \<in> set s. (of_char c :: nat) < 128)"

lemma ascii_simps [simp]:
  "ascii []" "ascii (c # s) \<longleftrightarrow> (of_char c :: nat) < 128 \<and> ascii s"
  "ascii (s @ t) \<longleftrightarrow> ascii s \<and> ascii t" "ascii (replicate n c) \<longleftrightarrow> n = 0 \<or> (of_char c :: nat) < 128"
  by (auto simp: ascii_def)

lemma ascii_concat [simp]: "ascii (concat xs) \<longleftrightarrow> (\<forall>x \<in> set xs. ascii x)"
  by (auto simp: ascii_def)

lemma ascii_join: "ascii sep \<Longrightarrow> \<forall>p \<in> set ps. ascii p \<Longrightarrow> ascii (join_with sep ps)"
  by (induction sep ps rule: join_with.induct) auto

lemma ascii_hex_digit: "n < 16 \<Longrightarrow> (of_char (hex_digit_char n) :: nat) < 128"
  by (auto simp: hex_digit_char_def)

lemma ascii_u_escape: "ascii (u_escape n)"
  by (simp add: u_escape_def ascii_hex_digit)

lemma ascii_escape: "ascii (escape_code_point n)"
  by (simp add: escape_code_point_def Let_def ascii_u_escape)

lemma ascii_json_string: "ascii (json_string s)"
  by (simp add: json_string_def ascii_escape)

lemma ascii_nat_str: "ascii (nat_str n)"
  by (induction n rule: nat_str.induct) (subst nat_str.simps, auto)

lemma ascii_line_at: "ascii (line_at n)"
  by (simp add: line_at_def newline_def)

fun json_exact :: "json \<Rightarrow> bool" where
  "json_exact (JFloat _ _) = False"
| "json_exact (JList xs) = list_all json_exact xs"
| "json_exact (JObj ms) = list_all (\<lambda>(k, x). json_exact x) ms"
| "json_exact _ = True"

lemma ascii_dumps: "json_exact x \<Longrightarrow> ascii (dumps_at level x)"
proof (induction level x rule: dumps_at.induct)
  case (3 level i)
  then show ?case by (simp add: int_str_def ascii_nat_str)
next
  case (6 level xs)
  show ?case
  proof (cases "xs = []")
    case False
    with 6 have "\<forall>p \<in> set (map (dumps_at (level + 1)) xs). ascii p" by (auto simp: list_all_iff)
    then show ?thesis by (auto simp: ascii_line_at intro!: ascii_join)
  qed simp
next
  case (7 level ms)
  show ?case
  proof (cases "ms = []")
    case False
    with 7 have "\<forall>p \<in> set (map (\<lambda>(k, x). json_string k @ '': '' @ dumps_at (level + 1) x) ms). ascii p"
      by (fastforce simp: list_all_iff ascii_json_string)
    then show ?thesis by (auto simp: ascii_line_at intro!: ascii_join)
  qed simp
qed (simp_all add: ascii_json_string)

lemma utf8_ascii: "ascii s \<Longrightarrow> utf8_valid (text_bytes s)"
proof (induction s)
  case (Cons c s)
  then have "(of_char c :: nat) < 128" by simp
  then have "(of_char c :: byte) < 0x80"
    by (simp add: word_less_nat_alt unat_of_char)
  with Cons show ?case by (simp add: text_bytes_def)
qed (simp add: text_bytes_def)

lemma bytes_text_bytes: "bytes_text (text_bytes s) = s"
  by (induction s) (simp_all add: bytes_text_def text_bytes_def unat_of_char)

lemma manifest_text:
  assumes "build_manifest fmt cid name r t ts = Inr m"
  shows "utf8_valid (text_bytes (json_dumps (JObj m) @ [newline]))"
proof -
  have "json_exact (JObj m)"
    using assms by (auto simp: build_manifest_def bindE_Inr_iff list_all_iff)
  then have "ascii (json_dumps (JObj m) @ [newline])"
    using ascii_dumps [of "JObj m" 0] by (simp add: json_dumps_def newline_def)
  then show ?thesis by (rule utf8_ascii)
qed

lemma inspect_recovery_Inr:
  assumes "build_payload fmt cid = Inr payload" "resolve_proof_dir h rt d w = (Inr dir, w)"
    and "file_content (path_join dir (cid @ ''.ots'')) (store_of h w) = Some proof" "proof \<noteq> []"
    and "validate_detached_proof (digest h) proof (Some payload) = Inr ()"
    and "file_content (path_join dir (cid @ ''.json'')) (store_of h w) = Some raw"
    and "load_manifest h raw = Inr m"
    and "json_get m ''source_commit'' = Some (JStr cid)"
    and "json_get m ''git_object_format'' = Some (JStr fmt)"
    and "validate_recovery_manifest (fromisoformat h) m cid fmt = Inr (t, ts)"
  shows "inspect_recovery_artifacts h rt d fmt cid w =
    (Inr \<lparr>ra_proof_path = path_join dir (cid @ ''.ots''),
       ra_manifest_path = path_join dir (cid @ ''.json''), ra_proof_bytes = proof,
       ra_manifest = m, ra_submitted_at = t, ra_triggers = ts\<rparr>, w)"
proof -
  have "format_length fmt \<noteq> None" "cid \<noteq> [] \<and> set cid \<subseteq> set hex_digits"
    using assms(1) format_length_cases [of fmt "length cid"] by (auto simp: build_payload_Inr_iff)
  with assms show ?thesis
    by (simp add: inspect_recovery_artifacts_def bindP_def Let_def is_file_def read_file_def
        read_bytes_def catchP_def)
qed

lemma write_succeeds:
  assumes "write_fault h w = NoFault" "map_of (store_of h w) (path_join dir n) = None"
  shows "\<exists>w'. write_atomically h dir n content pre force w = (Inr (path_join dir n), w')"
  using assms by (simp add: write_atomically_def atomic_write_def path_exists_def Let_def)

text \<open>An example: a proof for the commit \<open>000...0\<close> stored in an empty proof directory.\<close>

definition example_commit :: commit_id where
  "example_commit = replicate 40 (CHR ''0'')"

definition example_manifest :: manifest where
  "example_manifest =
     projr (build_manifest ''sha1'' example_commit (example_commit @ ''.ots'') ''HEAD'' 0 [''max_age''])"

definition stored_proof :: bytes where
  "stored_proof = header_magic @ [0x01, 0x08] @ replicate 32 0 @ [0x00] @ pending_tag @ [2, 1, 0x75]"

definition example_host :: "file_store host" where
  "example_host = file_host (\<lambda>_. Some (JObj example_manifest)) (\<lambda>_. Some (0, UtcTime))
     (\<lambda>_ _. replicate 32 0)"

definition example_store :: file_store where
  "example_store = [(''r/d'', Directory)]"

lemma file_host_lawful: "lawful_store (file_host loads isofmt H)"
proof -
  have "str_endswith (fresh_temp p w) ''.tmp''" for p w
    unfolding fresh_temp_def append_assoc [symmetric] by (rule endswith_append)
  then show ?thesis
    by (simp add: lawful_store_def file_host_def fresh_temp_fresh)
qed

lemma example_host_lawful: "lawful_store example_host"
  unfolding example_host_def by (rule file_host_lawful)

lemma manifest_recovers_witness:
  "validate_recovery_manifest (\<lambda>_. Some (0, UtcTime)) example_manifest example_commit ''sha1'' =
     Inr (0, trigger_set [''max_age''])"
proof (rule manifest_recovers)
  show "build_manifest ''sha1'' example_commit (example_commit @ ''.ots'') ''HEAD'' 0 [''max_age''] =
      Inr example_manifest"
    by (simp add: example_manifest_def build_manifest_def build_payload_def example_commit_def
        format_length_def hex_digits_def)
qed (simp_all add: known_triggers_def)

text \<open>
  C4: crash recovery finds what a run stored. After a proof and the manifest built for it are
  persisted, in this order, inspecting the recovery artifacts succeeds and returns this proof,
  the submission time and the triggers, however the run ended afterwards. Used of the outside:
  the store reads back what was written, and the standard parsers read what their printers
  wrote.
\<close>

theorem persisted_pair_recovers:
  assumes "lawful_store h"
    and "build_manifest fmt cid (cid @ ''.ots'') source_ref t triggers = Inr m"
    and "triggers \<noteq> []" "set triggers \<subseteq> set known_triggers" "source_ref \<noteq> []"
    and "persist_proof h rt d fmt cid proof w = (Inr p, w1)"
    and "persist_manifest h rt d m w1 = (Inr q, w2)"
    and "json_loads h (json_dumps (JObj m) @ [newline]) = Some (JObj m)"
    and "fromisoformat h (rfc3339_z t) = Some (t', UtcTime)"
  shows "\<exists>a. inspect_recovery_artifacts h rt d fmt cid w2 = (Inr a, w2) \<and>
    ra_proof_bytes a = proof \<and> ra_submitted_at a = t' \<and> ra_triggers a = trigger_set triggers"
proof -
  note get = build_manifest_get [OF assms(2)]
  from assms(6) obtain payload dir where pl: "build_payload fmt cid = Inr payload"
    and v: "validate_detached_proof (digest h) proof (Some payload) = Inr ()"
    and rd: "resolve_proof_dir h rt d w = (Inr dir, w)" and ne: "proof \<noteq> []"
    and wp: "write_atomically h dir (cid @ ''.ots'') proof (''.'' @ cid @ ''.'') False w = (Inr p, w1)"
    unfolding persist_proof_Inr_iff by blast
  from assms(7) get obtain dir2 where rd2: "resolve_proof_dir h rt d w1 = (Inr dir2, w1)"
    and wm: "write_atomically h dir2 (cid @ ''.json'') (text_bytes (json_dumps (JObj m) @ [newline]))
       (''.'' @ cid @ ''.'') False w1 = (Inr q, w2)"
    unfolding persist_manifest_Inr_iff by (auto simp: json_get_str_def)
  have dir2: "dir2 = dir" using rd rd2 by (simp add: resolve_proof_dir_Inr_iff)
  note w1 = write_atomically_done [OF assms(1) disjI1 [OF refl] wp]
  note w2 = write_atomically_done [OF assms(1) disjI2 [OF refl] wm [unfolded dir2]]
  have neq: "path_join dir (cid @ ''.ots'') \<noteq> path_join dir (cid @ ''.json'')"
    by (simp add: path_join_def)
  have keep: "file_content x (store_of h w2) = file_content x (store_of h w1)"
    if "x \<noteq> path_join dir (cid @ ''.json'')" for x
    using w2 that by (simp add: file_content_def)
  have "dir \<noteq> path_join dir n" for n by (simp add: path_join_def)
  then have "map_of (store_of h w2) dir = map_of (store_of h w1) dir" using w2 by metis
  then have rd3: "resolve_proof_dir h rt d w2 = (Inr dir, w2)"
    using rd2 dir2 by (auto simp: resolve_proof_dir_Inr_iff is_dir_def)
  have f1: "file_content (path_join dir (cid @ ''.ots'')) (store_of h w2) = Some proof"
    using keep [OF neq] w1 by auto
  have f2: "file_content (path_join dir (cid @ ''.json'')) (store_of h w2) =
      Some (text_bytes (json_dumps (JObj m) @ [newline]))"
    using w2 by auto
  have lm: "load_manifest h (text_bytes (json_dumps (JObj m) @ [newline])) = Inr m"
    using manifest_text [OF assms(2)] assms(8) by (simp add: load_manifest_def bytes_text_bytes)
  note vm = manifest_accepted [OF assms(2-5), of "fromisoformat h" t', OF assms(9)]
  from inspect_recovery_Inr [OF pl rd3 f1 ne v f2 lm get(2,3) vm] show ?thesis by auto
qed

text \<open>The example store, on a host that may answer Git in any way, takes a proof and its manifest.\<close>

lemma example_manifest_built:
  "build_manifest ''sha1'' example_commit (example_commit @ ''.ots'') ''HEAD'' 0 [''max_age''] = Inr example_manifest"
  by (simp add: example_manifest_def build_manifest_def build_payload_def example_commit_def
      format_length_def hex_digits_def)

lemma example_pair_stored:
  fixes rg
  defines "h \<equiv> example_host\<lparr>run_git := rg\<rparr>"
  shows "\<exists>w1 w2 p q. persist_proof h ''r'' ''d'' ''sha1'' example_commit stored_proof example_store = (Inr p, w1) \<and>
    persist_manifest h ''r'' ''d'' example_manifest w1 = (Inr q, w2)"
proof -
  note s = h_def example_host_def file_host_def
  have law: "lawful_store h" using example_host_lawful by (simp add: h_def lawful_store_def)
  have pl: "\<exists>x. build_payload ''sha1'' example_commit = Inr x"
    by (simp add: build_payload_def example_commit_def format_length_def hex_digits_def)
  have "validate_detached_proof (\<lambda>_ _. replicate 32 0) stored_proof (Some []) = Inr ()" by code_simp
  then have v: "validate_detached_proof (digest h) stored_proof (Some x) = Inr ()" for x
    by (simp add: s validate_Inr_iff)
  have dir: "resolve_proof_dir h ''r'' ''d'' example_store = (Inr ''r/d'', example_store)"
    by (simp add: resolve_proof_dir_Inr_iff path_join_def is_dir_def example_store_def s str_startswith_def)
  obtain w1 where w1: "write_atomically h ''r/d'' (example_commit @ ''.ots'') stored_proof
      (''.'' @ example_commit @ ''.'') False example_store = (Inr (path_join ''r/d'' (example_commit @ ''.ots'')), w1)"
    using write_succeeds [of h example_store "''r/d''"]
    by (fastforce simp: s example_store_def path_join_def)
  have p: "persist_proof h ''r'' ''d'' ''sha1'' example_commit stored_proof example_store =
      (Inr (path_join ''r/d'' (example_commit @ ''.ots'')), w1)"
    unfolding persist_proof_Inr_iff using pl v dir w1 by (auto simp: stored_proof_def)
  note d1 = write_atomically_done [OF law disjI1 [OF refl] w1]
  have at1: "map_of (store_of h w1) q = map_of example_store q"
    if "q \<noteq> path_join ''r/d'' (example_commit @ ''.ots'')" for q
    using d1 that by (simp add: s)
  obtain w2 where w2: "write_atomically h ''r/d'' (example_commit @ ''.json'')
      (text_bytes (json_dumps (JObj example_manifest) @ [newline])) (''.'' @ example_commit @ ''.'') False w1 =
      (Inr (path_join ''r/d'' (example_commit @ ''.json'')), w2)"
    using write_succeeds [of h w1 "''r/d''" "example_commit @ ''.json''"] at1
    by (fastforce simp: s example_store_def path_join_def)
  have dir1: "resolve_proof_dir h ''r'' ''d'' w1 = (Inr ''r/d'', w1)"
    using dir at1 [of "''r/d''"] by (simp add: resolve_proof_dir_Inr_iff is_dir_def path_join_def s)
  have q: "persist_manifest h ''r'' ''d'' example_manifest w1 =
      (Inr (path_join ''r/d'' (example_commit @ ''.json'')), w2)"
    unfolding persist_manifest_Inr_iff
    using build_manifest_get [OF example_manifest_built] pl dir1 w2 by (auto simp: json_get_str_def)
  from p q show ?thesis by blast
qed

lemma persisted_pair_recovers_witness:
  "\<exists>a w2. inspect_recovery_artifacts example_host ''r'' ''d'' ''sha1'' example_commit w2 = (Inr a, w2) \<and>
     ra_proof_bytes a = stored_proof \<and> ra_triggers a = trigger_set [''max_age'']"
proof -
  obtain w1 w2 p q where pq:
    "persist_proof example_host ''r'' ''d'' ''sha1'' example_commit stored_proof example_store = (Inr p, w1)"
    "persist_manifest example_host ''r'' ''d'' example_manifest w1 = (Inr q, w2)"
    using example_pair_stored [of "run_git example_host"] by auto
  show ?thesis
    using persisted_pair_recovers [OF example_host_lawful example_manifest_built _ _ _ pq, of 0]
    by (force simp: known_triggers_def example_host_def file_host_def)
qed

end
