(* ===== verification/OtsClient.thy ===== *)
theory OtsClient
  imports Manifest
begin

text \<open>
  \<open>timestamp.py\<close>, the client of the \<open>ots\<close> program: the bounded child process, the deadline of
  \<open>OpenTimestampsCli._invoke\<close>, and \<open>submit\<close>, \<open>upgrade\<close>, \<open>verify\<close> and \<open>probe\<close>, which hand the program
  files in a temporary directory. What the program does is arbitrary.
\<close>

section \<open>The child process\<close>

text \<open>
  How \<open>process.communicate(input=..., timeout=...)\<close> can end, and what \<open>_default_runner\<close> does to the
  child and to the registration of the active child on each way out.
\<close>

datatype ots_communicate =
    Finished int bytes bytes
  | Expired bool
  | Stopped exc

datatype runner_event = SpawnChild | OnSpawn | KillProcessGroup | Reap bool | OnExit

definition default_runner ::
    "exc option \<Rightarrow> ots_communicate \<Rightarrow> (int \<times> bytes \<times> bytes) result \<times> runner_event list" where
  "default_runner popen_error outcome =
     (case popen_error of
        Some e \<Rightarrow> (Inl e, [])
      | None \<Rightarrow>
          (case outcome of
             Finished code out err \<Rightarrow> (Inr (code, out, err), [SpawnChild, OnSpawn, OnExit])
           | Expired ok \<Rightarrow>
               (Inl SubmissionTimeoutError,
                [SpawnChild, OnSpawn, KillProcessGroup, Reap ok, KillProcessGroup, OnExit])
           | Stopped e \<Rightarrow> (Inl e, [SpawnChild, OnSpawn, KillProcessGroup, OnExit])))"

section \<open>The adapter\<close>

text \<open>
  \<open>call_runner\<close> is \<open>self._runner\<close> called inline; \<open>join_worker\<close> the same call on the worker thread and
  the \<open>join\<close> with the deadline, \<open>None\<close> when the worker is still alive. \<open>active_child\<close> is
  \<open>_active_child_pgid\<close>, \<open>kill_group\<close> is \<open>_kill_process_group\<close>, and \<open>temp_dir\<close> the path
  \<open>tempfile.TemporaryDirectory\<close> creates.
\<close>

record 'w ots_cli =
  ots_command :: string
  ots_limit :: "int option"
  call_runner :: "string list \<Rightarrow> ('w, int \<times> bytes \<times> bytes) prog"
  join_worker :: "string list \<Rightarrow> 'w \<Rightarrow> (int \<times> bytes \<times> bytes) result option \<times> 'w"
  active_child :: "'w \<Rightarrow> nat option"
  kill_group :: "nat \<Rightarrow> 'w \<Rightarrow> 'w"
  temp_dir :: "'w \<Rightarrow> path"

definition check_command :: "string \<Rightarrow> unit result" where
  "check_command command =
     (if command = [] then Inl (PayloadValidationError ''opentimestamps command must not be empty'')
      else Inr ())"

definition terminate_active_child :: "'w ots_cli \<Rightarrow> ('w, unit) prog" where
  "terminate_active_child c = doP (\<lambda>w. case active_child c w of None \<Rightarrow> w | Some pgid \<Rightarrow> kill_group c pgid w)"

definition invoke :: "'w ots_cli \<Rightarrow> string list \<Rightarrow> ('w, int \<times> bytes \<times> bytes) prog" where
  "invoke c argv =
     (case ots_limit c of
        None \<Rightarrow> call_runner c argv
      | Some _ \<Rightarrow> (\<lambda>w. case join_worker c argv w of
            (None, w1) \<Rightarrow> bindP (terminate_active_child c) (\<lambda>_. raiseP SubmissionTimeoutError) w1
          | (Some r, w1) \<Rightarrow> (r, w1)))"

section \<open>Temporary directories\<close>

definition make_dir :: "path \<Rightarrow> file_store \<Rightarrow> file_store" where
  "make_dir p s = (p, Directory) # s"

definition write_file :: "path \<Rightarrow> bytes \<Rightarrow> file_store \<Rightarrow> file_store" where
  "write_file p content s = put_file p content s"

text \<open>\<open>with tempfile.TemporaryDirectory() as tmpdir\<close>: removed with all it holds, however the body ends.\<close>

definition remove_tree :: "path \<Rightarrow> file_store \<Rightarrow> file_store" where
  "remove_tree d s = filter (\<lambda>(p, _). p \<noteq> d \<and> \<not> str_startswith p (d @ ''/'')) s"

definition in_temp_dir ::
    "'w host \<Rightarrow> 'w ots_cli \<Rightarrow> (path \<Rightarrow> ('w, 'a) prog) \<Rightarrow> ('w, 'a) prog" where
  "in_temp_dir h c body =
     bindP (askP (temp_dir c)) (\<lambda>d.
     bindP (doP (\<lambda>w. set_store h (make_dir d (store_of h w)) w)) (\<lambda>_.
     finallyP (body d) (\<lambda>w. set_store h (remove_tree d (store_of h w)) w)))"

definition write_bytes :: "'w host \<Rightarrow> path \<Rightarrow> bytes \<Rightarrow> ('w, unit) prog" where
  "write_bytes h p content = doP (\<lambda>w. set_store h (write_file p content (store_of h w)) w)"

section \<open>Diagnostics\<close>

text \<open>
  \<open>_last_diagnostic_line\<close>: the bytes of the stream stand for the text, those that are no UTF-8
  included.
\<close>

definition last_diagnostic_line :: "bytes \<Rightarrow> string" where
  "last_diagnostic_line stream =
     (case filter (\<lambda>s. s \<noteq> []) (map strip (rev (splitlines (bytes_text stream)))) of
        [] \<Rightarrow> [] | s # _ \<Rightarrow> s)"

definition run_detail :: "bytes \<Rightarrow> bytes \<Rightarrow> string" where
  "run_detail out err =
     (if last_diagnostic_line err \<noteq> [] then last_diagnostic_line err else last_diagnostic_line out)"

section \<open>Submitting\<close>

definition or_text :: "bytes \<Rightarrow> string \<Rightarrow> bytes" where
  "or_text err s = (if err \<noteq> [] then err else encode_ascii s)"

definition submit :: "'w host \<Rightarrow> 'w ots_cli \<Rightarrow> bytes \<Rightarrow> ('w, bytes) prog" where
  "submit h c payload =
     in_temp_dir h c (\<lambda>d. let tmp_path = path_join d ''payload'' in
       bindP (write_bytes h tmp_path payload) (\<lambda>_.
       bindP (catchP (invoke c [ots_command c, ''stamp'', tmp_path]) is_OSError
           (\<lambda>_. raiseP (SubmissionError 127 (encode_ascii ''OpenTimestamps client not found'')))) (\<lambda>(code, out, err).
       guardP (code = 0) (SubmissionError code err) (
       let proof_path = tmp_path @ ''.ots'' in
       bindP (askP (stat_path h proof_path)) (\<lambda>k.
       guardP (k \<noteq> None)
         (SubmissionError code (or_text err ''opentimestamps produced no proof file'')) (
       bindP (read_file h proof_path) (\<lambda>proof.
       guardP (proof \<noteq> [])
         (SubmissionError code (or_text err ''opentimestamps produced an empty proof file'')) (
       bindP (catchP (liftE (validate_detached_proof (digest h) proof (Some payload))) is_ValueError
           (\<lambda>_. raiseP (SubmissionError code
              (encode_ascii ''opentimestamps produced an invalid proof file'')))) (\<lambda>_.
       ret proof)))))))))"

section \<open>Upgrading\<close>

record upgrade_attempt =
  ua_upgraded :: "bytes option"
  ua_detail :: string

definition upgrade :: "'w host \<Rightarrow> 'w ots_cli \<Rightarrow> bytes \<Rightarrow> bytes \<Rightarrow> ('w, upgrade_attempt) prog" where
  "upgrade h c proof payload =
     guardP (proof \<noteq> []) (UpgradeError 1 (encode_ascii ''cannot upgrade an empty proof'')) (
     in_temp_dir h c (\<lambda>d. let tmp_path = path_join d ''proof.ots'' in
       bindP (write_bytes h tmp_path proof) (\<lambda>_.
       bindP (catchP (invoke c [ots_command c, ''upgrade'', tmp_path]) is_OSError
           (\<lambda>_. raiseP (UpgradeError 127 (encode_ascii ''OpenTimestamps client not found'')))) (\<lambda>(code, out, err).
       bindP (catchP (read_file h tmp_path) is_OSError
           (\<lambda>_. raiseP (UpgradeError code (encode_ascii ''cannot read back upgraded proof'')))) (\<lambda>upgraded.
       if upgraded = proof then ret \<lparr>ua_upgraded = None, ua_detail = run_detail out err\<rparr>
       else
         bindP (catchP (liftE (validate_detached_proof (digest h) upgraded (Some payload))) is_ValueError
             (\<lambda>_. raiseP (UpgradeError code
                (encode_ascii ''upgraded proof no longer binds to its source commit'')))) (\<lambda>_.
         ret \<lparr>ua_upgraded = Some upgraded, ua_detail = run_detail out err\<rparr>))))))"

section \<open>Verifying\<close>

record verification_attempt =
  vt_verified :: bool
  vt_detail :: string

definition verify :: "'w host \<Rightarrow> 'w ots_cli \<Rightarrow> bytes \<Rightarrow> bytes \<Rightarrow> ('w, verification_attempt) prog" where
  "verify h c proof payload =
     guardP (proof \<noteq> []) (VerificationError 1 (encode_ascii ''cannot verify an empty proof'')) (
     bindP (catchP (liftE (validate_detached_proof (digest h) proof (Some payload))) is_ValueError
         (\<lambda>_. raiseP (VerificationError 1
            (encode_ascii ''cannot verify a proof not bound to its payload'')))) (\<lambda>_.
     bindP (in_temp_dir h c (\<lambda>d.
         let payload_path = path_join d ''payload''; proof_path = path_join d ''proof.ots'' in
         bindP (write_bytes h payload_path payload) (\<lambda>_.
         bindP (write_bytes h proof_path proof) (\<lambda>_.
         catchP (invoke c [ots_command c, ''verify'', ''-f'', payload_path, proof_path]) is_OSError
           (\<lambda>_. raiseP (VerificationError 127 (encode_ascii ''OpenTimestamps client not found''))))))) (\<lambda>(code, out, err).
     ret \<lparr>vt_verified = (code = 0), vt_detail = run_detail out err\<rparr>)))"

section \<open>Probing\<close>

definition required_commands :: "string list" where
  "required_commands = [''stamp'', ''upgrade'', ''verify'']"

definition probe :: "'w ots_cli \<Rightarrow> ('w, string \<times> bool) prog" where
  "probe c =
     bindP (catchP
         (bindP (invoke c [ots_command c, ''--version'']) (\<lambda>v.
          bindP (invoke c [ots_command c, ''--help'']) (\<lambda>help. ret (v, help))))
         is_OSError (\<lambda>_. raiseP (SubmissionError 127 (encode_ascii ''cannot execute the client'')))) (\<lambda>((vcode, vout, verr), (hcode, hout, herr)).
     guardP (vcode = 0) (SubmissionError vcode verr) (
     guardP (hcode = 0) (SubmissionError hcode herr) (
     let version = strip (bytes_text vout); help_text = bytes_text (hout @ herr) in
     guardP (list_all (\<lambda>cmd. str_contains help_text cmd) required_commands)
       (SubmissionError 1 (encode_ascii ''client lacks required command(s)'')) (
     ret (version, version = ''v0.7.2'')))))"

section \<open>What the client promises\<close>

lemma in_temp_dir_removed:
  assumes "lawful_store h" "p = temp_dir c w \<or> str_startswith p (temp_dir c w @ ''/'')"
  shows "map_of (store_of h (snd (in_temp_dir h c body w))) p = None"
proof -
  have "map_of (remove_tree d s) p = None" if "p = d \<or> str_startswith p (d @ ''/'')" for d s
    using that unfolding remove_tree_def by (auto simp: map_of_eq_None_iff)
  with assms show ?thesis
    by (auto simp: in_temp_dir_def bindP_def finallyP_def lawful_storeD(1) split: prod.splits)
qed

lemma in_temp_dir_Inr:
  "in_temp_dir h c body w = (Inr x, w') \<Longrightarrow> \<exists>d w1 w2. body d w1 = (Inr x, w2)"
  by (auto simp: in_temp_dir_def bindP_Inr_iff finallyP_def split: prod.splits)

text \<open>
  The interface of a client as the code above it uses it: bytes it hands out bind the payload.
\<close>

locale binding_client =
  fixes H :: "hash_name \<Rightarrow> bytes \<Rightarrow> bytes"
    and stamp :: "bytes \<Rightarrow> ('w, bytes) prog"
    and complete :: "bytes \<Rightarrow> bytes \<Rightarrow> ('w, upgrade_attempt) prog"
  assumes stamped: "stamp payload w = (Inr b, w') \<Longrightarrow> validate_detached_proof H b (Some payload) = Inr ()"
    and completed: "complete b payload w = (Inr a, w') \<Longrightarrow> ua_upgraded a = Some q \<Longrightarrow>
      q \<noteq> b \<and> validate_detached_proof H q (Some payload) = Inr ()"
begin

text \<open>The bytes to go on with after a completion attempt: they bind the payload if the old ones did.\<close>

lemma completed_binds:
  assumes "complete b payload w = (Inr a, w')" "validate_detached_proof H b (Some payload) = Inr ()"
  shows "validate_detached_proof H (case ua_upgraded a of None \<Rightarrow> b | Some q \<Rightarrow> q) (Some payload) = Inr ()"
  using completed [OF assms(1)] assms(2) by (auto split: option.split)

end

interpretation ots: binding_client "digest h" "submit h c" "upgrade h c" for h c
proof unfold_locales
  fix payload w b w'
  assume "submit h c payload w = (Inr b, w')"
  then show "validate_detached_proof (digest h) b (Some payload) = Inr ()"
    unfolding submit_def by (auto dest!: in_temp_dir_Inr simp: Let_def bindP_Inr_iff catchP_Inr_iff)
next
  fix b payload w a w' q
  assume "upgrade h c b payload w = (Inr a, w')" "ua_upgraded a = Some q"
  then show "q \<noteq> b \<and> validate_detached_proof (digest h) q (Some payload) = Inr ()"
    unfolding upgrade_def
    by (auto dest!: in_temp_dir_Inr simp: Let_def bindP_Inr_iff catchP_Inr_iff split: if_splits)
qed

definition idle_client :: "file_store ots_cli" where
  "idle_client = \<lparr>ots_command = ''ots'', ots_limit = None,
     call_runner = (\<lambda>_ w. (Inr (1, [], []), w)), join_worker = (\<lambda>_ w. (None, w)),
     active_child = (\<lambda>_. None), kill_group = (\<lambda>_ w. w), temp_dir = (\<lambda>_. ''/tmp/t'')\<rparr>"

text \<open>
  C32: the client of \<open>timestamp.py\<close>. However submitting or upgrading ends, the temporary directory is
  gone with everything in it; what submitting returns binds the payload, and what upgrading returns
  as new binds it too and differs from the proof it was given.
\<close>

theorem client_binds_and_cleans_up:
  assumes "lawful_store h" "p = temp_dir c w \<or> str_startswith p (temp_dir c w @ ''/'')" "b \<noteq> []"
  shows "map_of (store_of h (snd (submit h c payload w))) p = None \<and>
    map_of (store_of h (snd (upgrade h c b payload w))) p = None \<and>
    (\<forall>q w'. submit h c payload w = (Inr q, w') \<longrightarrow>
       validate_detached_proof (digest h) q (Some payload) = Inr ()) \<and>
    (\<forall>a w' q. upgrade h c b payload w = (Inr a, w') \<and> ua_upgraded a = Some q \<longrightarrow>
       q \<noteq> b \<and> validate_detached_proof (digest h) q (Some payload) = Inr ())"
proof (intro conjI allI impI)
  show "map_of (store_of h (snd (submit h c payload w))) p = None"
    unfolding submit_def by (rule in_temp_dir_removed [OF assms(1,2)])
  show "map_of (store_of h (snd (upgrade h c b payload w))) p = None"
    unfolding upgrade_def using assms(3) in_temp_dir_removed [OF assms(1,2)] by simp
next
  fix q w'
  assume "submit h c payload w = (Inr q, w')"
  then show "validate_detached_proof (digest h) q (Some payload) = Inr ()" by (rule ots.stamped)
next
  fix a w' q
  assume "upgrade h c b payload w = (Inr a, w') \<and> ua_upgraded a = Some q"
  then have "upgrade h c b payload w = (Inr a, w')" "ua_upgraded a = Some q" by simp_all
  from ots.completed [OF this]
  show "q \<noteq> b" "validate_detached_proof (digest h) q (Some payload) = Inr ()" by simp_all
qed

lemma client_binds_and_cleans_up_witness:
  "map_of (store_of example_host (snd (submit example_host idle_client [1] []))) ''/tmp/t/payload'' = None"
  using client_binds_and_cleans_up [OF example_host_lawful, of "''/tmp/t/payload''" idle_client "[]" "[1]" "[1]"]
  by (simp add: idle_client_def str_startswith_def)

end
