(* ===== verification/RepositoryLock.thy ===== *)
theory RepositoryLock
  imports Prelude
begin

text \<open>
  \<open>git.py\<close>, \<open>RepositoryLock\<close>: the advisory lock of the common Git directory. One process keeps a
  table \<open>_LOCK_STATE\<close> from lock files to a count and the file descriptor that carries the OS lock;
  an instance is an object with a path and, while it holds, that descriptor. \<open>flocked\<close> is the
  state of \<open>flock\<close>, which other processes share, and \<open>lock_fault\<close> the call on a lock file, if any,
  that the operating system currently fails for another reason than a held lock.
\<close>

section \<open>State\<close>

type_synonym lock_path = string

datatype holder = ThisProcess nat | OtherProcess

datatype lock_call = MkdirCall | OpenCall | FlockCall

record lock_state =
  lock_table :: "lock_path \<Rightarrow> (nat \<times> nat) option"
  open_fds :: "nat list"
  flocked :: "lock_path \<Rightarrow> holder option"
  lock_fault :: "lock_path \<Rightarrow> lock_call option"

record lock_instance =
  lock_path :: lock_path
  lock_fd :: "nat option"

text \<open>\<open>os.open\<close> returns a descriptor that is not in use.\<close>

definition fresh_fd :: "nat list \<Rightarrow> nat" where
  "fresh_fd fds = Suc (foldr max fds 0)"

definition os_close :: "nat \<Rightarrow> lock_state \<Rightarrow> lock_state" where
  "os_close fd s = s\<lparr>open_fds := filter (\<lambda>x. x \<noteq> fd) (open_fds s)\<rparr>"

section \<open>Operations\<close>

text \<open>
  \<open>acquire\<close>. The \<open>flock\<close> call asks for the exclusive lock without waiting, and fails when
  another descriptor holds it. Every \<open>OSError\<close> of that call is reported as a held lock; one of
  \<open>mkdir\<close> or \<open>os.open\<close>, before the \<open>try\<close>, is passed on.
\<close>

definition acquire :: "lock_instance \<Rightarrow> lock_state \<Rightarrow> lock_instance result \<times> lock_state" where
  "acquire i s =
     (if lock_fd i \<noteq> None then (Inr i, s)
      else case lock_table s (lock_path i) of
        Some (count, fd) \<Rightarrow>
          (Inr (i\<lparr>lock_fd := Some fd\<rparr>),
           s\<lparr>lock_table := (lock_table s)(lock_path i := Some (count + 1, fd))\<rparr>)
      | None \<Rightarrow>
          if lock_fault s (lock_path i) = Some MkdirCall then (Inl (OSError ''mkdir''), s)
          else if lock_fault s (lock_path i) = Some OpenCall then (Inl (OSError ''open''), s)
          else
          let fd = fresh_fd (open_fds s); s1 = s\<lparr>open_fds := fd # open_fds s\<rparr> in
          if flocked s1 (lock_path i) \<noteq> None \<or> lock_fault s1 (lock_path i) = Some FlockCall
          then (Inl RepositoryLockedError, os_close fd s1)
          else (Inr (i\<lparr>lock_fd := Some fd\<rparr>),
                s1\<lparr>flocked := (flocked s1)(lock_path i := Some (ThisProcess fd)),
                   lock_table := (lock_table s1)(lock_path i := Some (1, fd))\<rparr>))"

definition release :: "lock_instance \<Rightarrow> lock_state \<Rightarrow> lock_instance \<times> lock_state" where
  "release i s =
     (case lock_fd i of
        None \<Rightarrow> (i, s)
      | Some fd \<Rightarrow>
          let i1 = i\<lparr>lock_fd := None\<rparr> in
          case lock_table s (lock_path i) of
            None \<Rightarrow> (i1, s)
          | Some (count, shared_fd) \<Rightarrow>
              if shared_fd \<noteq> fd then (i1, s)
              else if count > 1
              then (i1, s\<lparr>lock_table := (lock_table s)(lock_path i := Some (count - 1, fd))\<rparr>)
              else (i1, os_close fd (s\<lparr>lock_table := (lock_table s)(lock_path i := None),
                     flocked := (flocked s)(lock_path i := None)\<rparr>)))"

section \<open>The process and its environment\<close>

text \<open>
  A configuration: the instances the process has made and the shared state. A step acquires or
  releases one instance, makes a new one, is a step of another process, which takes the lock
  only when \<open>flock\<close> lets it and drops only its own, or changes which calls fail.
\<close>

type_synonym config = "lock_instance list \<times> lock_state"

inductive lock_step :: "config \<Rightarrow> config \<Rightarrow> bool" where
  step_new: "lock_step (is, s) (is @ [\<lparr>lock_path = p, lock_fd = None\<rparr>], s)"
| step_acquire: "k < length is \<Longrightarrow> acquire (is ! k) s = (Inr i, s') \<Longrightarrow>
    lock_step (is, s) (is[k := i], s')"
| step_busy: "k < length is \<Longrightarrow> acquire (is ! k) s = (Inl e, s') \<Longrightarrow> lock_step (is, s) (is, s')"
| step_release: "k < length is \<Longrightarrow> release (is ! k) s = (i, s') \<Longrightarrow>
    lock_step (is, s) (is[k := i], s')"
| step_other_takes: "flocked s p = None \<Longrightarrow>
    lock_step (is, s) (is, s\<lparr>flocked := (flocked s)(p := Some OtherProcess)\<rparr>)"
| step_other_drops: "flocked s p = Some OtherProcess \<Longrightarrow>
    lock_step (is, s) (is, s\<lparr>flocked := (flocked s)(p := None)\<rparr>)"
| step_fault: "lock_step (is, s) (is, s\<lparr>lock_fault := f\<rparr>)"

inductive lock_reachable :: "config \<Rightarrow> bool" where
  reach_start: "open_fds s = [] \<Longrightarrow> \<forall>p. lock_table s p = None \<and>
    (flocked s p = None \<or> flocked s p = Some OtherProcess) \<Longrightarrow> lock_reachable ([], s)"
| reach_step: "lock_reachable c \<Longrightarrow> lock_step c c' \<Longrightarrow> lock_reachable c'"

inductive_cases lock_stepE: "lock_step (is, s) c'"

definition holds_lock :: "lock_path \<Rightarrow> lock_instance \<Rightarrow> bool" where
  "holds_lock p i \<longleftrightarrow> lock_path i = p \<and> lock_fd i \<noteq> None"

definition holders :: "lock_path \<Rightarrow> lock_instance list \<Rightarrow> nat" where
  "holders p is = length (filter (holds_lock p) is)"

text \<open>
  The invariant: the table has an entry for a path exactly when instances of the process hold
  it, with their number and the one descriptor they share, open and carrying the OS lock; two
  paths never share a descriptor.
\<close>

definition lock_inv :: "config \<Rightarrow> bool" where
  "lock_inv c = (case c of (is, s) \<Rightarrow>
     (\<forall>p. case lock_table s p of
        None \<Rightarrow> holders p is = 0 \<and> (\<forall>fd. flocked s p \<noteq> Some (ThisProcess fd))
      | Some (count, fd) \<Rightarrow> 0 < count \<and> holders p is = count \<and>
          flocked s p = Some (ThisProcess fd) \<and> fd \<in> set (open_fds s) \<and>
          (\<forall>i \<in> set is. holds_lock p i \<longrightarrow> lock_fd i = Some fd)) \<and>
     (\<forall>p q fd cp cq. lock_table s p = Some (cp, fd) \<and> lock_table s q = Some (cq, fd) \<longrightarrow> p = q))"

lemma fresh_fd_fresh: "fresh_fd fds \<notin> set fds"
proof -
  have "x \<in> set fds \<Longrightarrow> x \<le> foldr max fds 0" for x
    by (induction fds) auto
  then show ?thesis by (force simp: fresh_fd_def)
qed

lemma holders_update:
  assumes "k < length is"
  shows "holders p (is[k := i]) + (if holds_lock p (is ! k) then 1 else 0) =
    holders p is + (if holds_lock p i then 1 else 0)"
proof -
  have "holders p is = holders p (take k is) + (if holds_lock p (is ! k) then 1 else 0) +
      holders p (drop (Suc k) is)"
    by (subst id_take_nth_drop [OF assms]) (simp add: holders_def)
  moreover have "holders p (is[k := i]) = holders p (take k is) + (if holds_lock p i then 1 else 0) +
      holders p (drop (Suc k) is)"
    by (simp add: upd_conv_take_nth_drop [OF assms] holders_def)
  ultimately show ?thesis by simp
qed

lemma holders_pos: "k < length is \<Longrightarrow> holds_lock p (is ! k) \<Longrightarrow> 0 < holders p is"
  by (auto simp: holders_def filter_empty_conv)

lemma holders_new [simp]: "lock_fd i = None \<Longrightarrow> holders p (is @ [i]) = holders p is"
  by (simp add: holders_def holds_lock_def)

text \<open>The invariant, one path at a time.\<close>

definition path_inv :: "lock_path \<Rightarrow> config \<Rightarrow> bool" where
  "path_inv p c = (case c of (is, s) \<Rightarrow>
     (case lock_table s p of
        None \<Rightarrow> holders p is = 0 \<and> (\<forall>fd. flocked s p \<noteq> Some (ThisProcess fd))
      | Some (count, fd) \<Rightarrow> 0 < count \<and> holders p is = count \<and>
          flocked s p = Some (ThisProcess fd) \<and> fd \<in> set (open_fds s) \<and>
          (\<forall>i \<in> set is. holds_lock p i \<longrightarrow> lock_fd i = Some fd)))"

definition fds_distinct :: "lock_state \<Rightarrow> bool" where
  "fds_distinct s \<longleftrightarrow> (\<forall>p q fd cp cq.
     lock_table s p = Some (cp, fd) \<and> lock_table s q = Some (cq, fd) \<longrightarrow> p = q)"

lemma lock_inv_paths: "lock_inv (is, s) \<longleftrightarrow> (\<forall>p. path_inv p (is, s)) \<and> fds_distinct s"
  by (simp add: lock_inv_def path_inv_def fds_distinct_def)

lemma path_invI:
  assumes "path_inv q (is, s)" and "lock_table s' q = lock_table s q" "flocked s' q = flocked s q"
    and "\<And>c fd. lock_table s q = Some (c, fd) \<Longrightarrow> fd \<in> set (open_fds s) \<Longrightarrow> fd \<in> set (open_fds s')"
    and "holders q is' = holders q is"
    and "\<And>i. i \<in> set is' \<Longrightarrow> holds_lock q i \<Longrightarrow> i \<in> set is"
  shows "path_inv q (is', s')"
  using assms by (auto simp: path_inv_def split: option.splits)

lemma in_updated: "x \<in> set (xs[k := y]) \<Longrightarrow> x = y \<or> x \<in> set xs"
  using set_update_subset_insert by fastforce

lemma acquire_inv:
  assumes inv: "lock_inv (is, s)" and k: "k < length is" and a: "acquire (is ! k) s = (Inr i, s')"
  shows "lock_inv (is[k := i], s')"
proof (cases "lock_fd (is ! k)")
  case (Some fd)
  with a have "i = is ! k" "s' = s" by (simp_all add: acquire_def)
  with inv show ?thesis by simp
next
  case None
  let ?p = "lock_path (is ! k)"
  have nh: "\<not> holds_lock q (is ! k)" for q using None by (simp add: holds_lock_def)
  note upd = holders_update [OF k, of _ i]
  have pq: "path_inv q (is, s)" for q using inv by (simp add: lock_inv_paths)
  show ?thesis
  proof (cases "lock_table s ?p")
    case Some': (Some cf)
    obtain c fd where cf: "cf = (c, fd)" by (cases cf)
    have i: "i = (is ! k)\<lparr>lock_fd := Some fd\<rparr>"
      and s': "s' = s\<lparr>lock_table := (lock_table s)(?p := Some (c + 1, fd))\<rparr>"
      using a None Some' cf by (auto simp: acquire_def)
    have hi: "holds_lock q i \<longleftrightarrow> q = ?p" for q by (auto simp: i holds_lock_def)
    have "path_inv q (is[k := i], s')" for q
    proof (cases "q = ?p")
      case True
      with pq [of q] nh upd [of q] hi [of q] Some' cf show ?thesis
        by (auto simp: path_inv_def s' i dest!: in_updated)
    next
      case False
      show ?thesis
        by (rule path_invI [OF pq])
          (use False nh upd [of q] hi in \<open>auto simp: s' dest!: in_updated\<close>)
    qed
    moreover have "fds_distinct s'"
      using inv Some' cf unfolding lock_inv_paths fds_distinct_def s' by (auto split: if_splits)
    ultimately show ?thesis by (simp add: lock_inv_paths)
  next
    case None': None
    let ?fd = "fresh_fd (open_fds s)"
    have free: "flocked s ?p = None" and i: "i = (is ! k)\<lparr>lock_fd := Some ?fd\<rparr>"
      and s': "s' = s\<lparr>open_fds := ?fd # open_fds s, flocked := (flocked s)(?p := Some (ThisProcess ?fd)),
        lock_table := (lock_table s)(?p := Some (1, ?fd))\<rparr>"
      using a None None' by (auto simp: acquire_def Let_def split: if_splits)
    have hi: "holds_lock q i \<longleftrightarrow> q = ?p" for q by (auto simp: i holds_lock_def)
    have zero: "\<forall>j \<in> set is. \<not> holds_lock ?p j"
      using pq [of ?p] None' by (auto simp: path_inv_def holders_def filter_empty_conv)
    have "path_inv q (is[k := i], s')" for q
    proof (cases "q = ?p")
      case True
      with pq [of q] nh upd [of q] hi [of q] None' zero show ?thesis
        by (auto simp: path_inv_def s' i dest!: in_updated)
    next
      case False
      show ?thesis
        by (rule path_invI [OF pq])
          (use False nh upd [of q] hi in \<open>auto simp: s' dest!: in_updated\<close>)
    qed
    moreover have "fds_distinct s'"
    proof -
      have "lock_table s q = Some (c, ?fd) \<Longrightarrow> False" for q c
        using pq [of q] fresh_fd_fresh [of "open_fds s"] by (auto simp: path_inv_def)
      then show ?thesis
        using inv unfolding lock_inv_paths fds_distinct_def s' by (auto split: if_splits)
    qed
    ultimately show ?thesis by (simp add: lock_inv_paths)
  qed
qed

lemma acquire_busy_inv:
  assumes inv: "lock_inv (is, s)" and a: "acquire i s = (Inl e, s')"
  shows "lock_inv (is, s')"
proof -
  have s': "lock_table s' = lock_table s" "flocked s' = flocked s"
    "set (open_fds s') = set (open_fds s)"
    using a fresh_fd_fresh [of "open_fds s"]
    by (auto simp: acquire_def Let_def os_close_def split: if_splits option.splits)
  have "path_inv q (is, s')" for q
    by (rule path_invI [of q "is" s]) (use inv in \<open>simp_all add: lock_inv_paths s'\<close>)
  with inv show ?thesis by (simp add: lock_inv_paths fds_distinct_def s')
qed

lemma release_inv:
  assumes inv: "lock_inv (is, s)" and k: "k < length is" and r: "release (is ! k) s = (i, s')"
  shows "lock_inv (is[k := i], s')"
proof (cases "lock_fd (is ! k)")
  case None
  with r have "i = is ! k" "s' = s" by (simp_all add: release_def)
  with inv show ?thesis by simp
next
  case (Some fd)
  let ?p = "lock_path (is ! k)"
  have h: "holds_lock q (is ! k) \<longleftrightarrow> q = ?p" for q using Some by (auto simp: holds_lock_def)
  note upd = holders_update [OF k, of _ i]
  have pq: "path_inv q (is, s)" for q using inv by (simp add: lock_inv_paths)
  obtain c where t: "lock_table s ?p = Some (c, fd)" and c: "0 < c"
    using pq [of ?p] k h Some holders_pos [OF k, of ?p]
    by (auto simp: path_inv_def split: option.splits)
  have i: "i = (is ! k)\<lparr>lock_fd := None\<rparr>"
    using r Some t by (auto simp: release_def Let_def split: if_splits)
  have hi: "\<not> holds_lock q i" for q by (simp add: i holds_lock_def)
  show ?thesis
  proof (cases "1 < c")
    case True
    have s': "s' = s\<lparr>lock_table := (lock_table s)(?p := Some (c - 1, fd))\<rparr>"
      using r Some t True by (auto simp: release_def Let_def)
    have "path_inv q (is[k := i], s')" for q
    proof (cases "q = ?p")
      case True
      with pq [of q] h upd [of q] hi [of q] t \<open>1 < c\<close> show ?thesis
        by (auto simp: path_inv_def s' dest!: in_updated)
    next
      case False
      show ?thesis
        by (rule path_invI [OF pq])
          (use False h upd [of q] hi in \<open>auto simp: s' dest!: in_updated\<close>)
    qed
    moreover have "fds_distinct s'"
      using inv t unfolding lock_inv_paths fds_distinct_def s' by (auto split: if_splits)
    ultimately show ?thesis by (simp add: lock_inv_paths)
  next
    case False
    with c have c1: "c = 1" by simp
    have s': "s' = os_close fd (s\<lparr>lock_table := (lock_table s)(?p := None),
        flocked := (flocked s)(?p := None)\<rparr>)"
      using r Some t c1 by (auto simp: release_def Let_def)
    have other: "lock_table s q = Some (cq, fq) \<Longrightarrow> q \<noteq> ?p \<Longrightarrow> fq \<noteq> fd" for q cq fq
      using inv t unfolding lock_inv_paths fds_distinct_def by blast
    have "path_inv q (is[k := i], s')" for q
    proof (cases "q = ?p")
      case True
      with pq [of q] h upd [of q] hi [of q] t c1 show ?thesis
        by (auto simp: path_inv_def s' os_close_def)
    next
      case False
      show ?thesis
        by (rule path_invI [OF pq])
          (use False h upd [of q] hi other in \<open>auto simp: s' os_close_def dest!: in_updated\<close>)
    qed
    moreover have "fds_distinct s'"
      using inv unfolding lock_inv_paths fds_distinct_def s' os_close_def by (auto split: if_splits)
    ultimately show ?thesis by (simp add: lock_inv_paths)
  qed
qed

lemma lock_step_inv: "lock_step c c' \<Longrightarrow> lock_inv c \<Longrightarrow> lock_inv c'"
proof (induction rule: lock_step.induct)
  case (step_new "is" s p)
  let ?is = "is @ [\<lparr>lock_path = p, lock_fd = None\<rparr>]"
  have "path_inv q (?is, s)" for q
    by (rule path_invI [of q "is" s])
      (use step_new in \<open>auto simp: lock_inv_paths holds_lock_def\<close>)
  with step_new show ?case by (simp add: lock_inv_paths)
next
  case (step_other_takes s p "is")
  then have "path_inv q (is, s\<lparr>flocked := (flocked s)(p := Some OtherProcess)\<rparr>)" for q
    by (cases "q = p") (auto simp: lock_inv_paths path_inv_def split: option.splits dest: spec [of _ q])
  with step_other_takes show ?case by (simp add: lock_inv_paths fds_distinct_def)
next
  case (step_other_drops s p "is")
  then have "path_inv q (is, s\<lparr>flocked := (flocked s)(p := None)\<rparr>)" for q
    by (cases "q = p") (auto simp: lock_inv_paths path_inv_def split: option.splits dest: spec [of _ q])
  with step_other_drops show ?case by (simp add: lock_inv_paths fds_distinct_def)
next
  case (step_fault "is" s f)
  have "path_inv q (is, s\<lparr>lock_fault := f\<rparr>) = path_inv q (is, s)" for q
    by (auto simp: path_inv_def split: option.split)
  with step_fault show ?case by (simp add: lock_inv_paths fds_distinct_def)
qed (blast intro: acquire_inv acquire_busy_inv release_inv)+

lemma lock_reachable_inv: "lock_reachable c \<Longrightarrow> lock_inv c"
proof (induction rule: lock_reachable.induct)
  case (reach_start s)
  then have "flocked s p \<noteq> Some (ThisProcess fd)" for p fd
    by (metis holder.distinct(1) option.distinct(1) option.inject)
  with reach_start show ?case by (simp add: lock_inv_def holders_def)
qed (rule lock_step_inv)

lemma lock_excl:
  assumes "lock_reachable (is, s)" "i \<in> set is" "lock_fd i = Some fd"
  shows "flocked s (lock_path i) = Some (ThisProcess fd) \<and> fd \<in> set (open_fds s)"
proof -
  have h: "holds_lock (lock_path i) i" using assms(3) by (simp add: holds_lock_def)
  then have "0 < holders (lock_path i) is"
    using assms(2) by (auto simp: holders_def filter_empty_conv)
  moreover have "path_inv (lock_path i) (is, s)"
    using lock_reachable_inv [OF assms(1)] by (simp add: lock_inv_paths)
  ultimately show ?thesis
    using assms(2,3) h by (auto simp: path_inv_def split: option.splits)
qed

section \<open>Properties\<close>

text \<open>
  C10: mutual exclusion. Whatever the interleaving of acquiring and releasing instances with the
  steps of other processes, as long as some instance of the process holds a lock file, no other
  process does: the OS lock is held through the one descriptor all the holding instances share.
\<close>

theorem lock_excludes_others:
  assumes "lock_reachable (is, s)" "i \<in> set is" "lock_fd i = Some fd"
  shows "flocked s (lock_path i) = Some (ThisProcess fd) \<and> fd \<in> set (open_fds s)"
  using assms by (rule lock_excl)
text \<open>
  The lock is reentrant and freed by the outermost release. After releasing an instance that
  held a lock file, the OS lock is free when no other instance of the process holds that file,
  and still held otherwise.
\<close>

theorem outermost_release_frees:
  assumes "lock_reachable (is, s)" "k < length is" "lock_fd (is ! k) = Some fd"
    and "release (is ! k) s = (i, s')"
  shows "flocked s' (lock_path (is ! k)) = None \<longleftrightarrow> holders (lock_path (is ! k)) (is[k := i]) = 0"
proof -
  have "lock_reachable (is[k := i], s')"
    using reach_step [OF assms(1) step_release [OF assms(2,4)]] .
  from lock_reachable_inv [OF this] have inv: "path_inv (lock_path (is ! k)) (is[k := i], s')"
    by (simp add: lock_inv_paths)
  have reach: "lock_fd (is ! k) = Some fd \<Longrightarrow> flocked s (lock_path (is ! k)) = Some (ThisProcess fd)"
    using lock_excl [OF assms(1) nth_mem [OF assms(2)]] by simp
  have free_or_kept: "flocked s' (lock_path (is ! k)) = None \<or>
      flocked s' (lock_path (is ! k)) = flocked s (lock_path (is ! k))"
    using assms(4) by (auto simp: release_def Let_def os_close_def split: option.splits if_splits)
  with inv reach assms(3) show ?thesis
    by (auto simp: path_inv_def split: option.splits)
qed

text \<open>
  The lock is refused only for another process or a failing call. In every reachable state an
  instance that does not hold the lock fails to acquire it exactly when another process holds the
  OS lock, or when no instance of this process holds it and a call fails; the error is
  \<open>RepositoryLockedError\<close> unless the lock file could not be opened, and the failed attempt changes
  nothing: the descriptor it opened is closed again.
\<close>

theorem acquire_refused_iff:
  assumes "lock_reachable (is, s)" "i \<in> set is" "lock_fd i = None"
  shows "((\<exists>e. fst (acquire i s) = Inl e) \<longleftrightarrow> flocked s (lock_path i) = Some OtherProcess \<or>
      lock_table s (lock_path i) = None \<and> lock_fault s (lock_path i) \<noteq> None) \<and>
    (\<forall>e. fst (acquire i s) = Inl e \<longrightarrow> snd (acquire i s) = s \<and> (e = RepositoryLockedError \<or>
      is_OSError e \<and> lock_fault s (lock_path i) \<in> {Some MkdirCall, Some OpenCall}))"
proof (intro conjI allI impI)
  have "path_inv (lock_path i) (is, s)"
    using lock_reachable_inv [OF assms(1)] by (simp add: lock_inv_paths)
  then show "(\<exists>e. fst (acquire i s) = Inl e) \<longleftrightarrow> flocked s (lock_path i) = Some OtherProcess \<or>
      lock_table s (lock_path i) = None \<and> lock_fault s (lock_path i) \<noteq> None"
    using assms(3) lock_call.exhaust
    by (cases "flocked s (lock_path i)"; cases "the (flocked s (lock_path i))";
        cases "lock_fault s (lock_path i)"; cases "the (lock_fault s (lock_path i))")
      (auto simp: acquire_def path_inv_def Let_def split: option.splits)
next
  fix e
  assume "fst (acquire i s) = Inl e"
  moreover have "filter (\<lambda>x. x \<noteq> fresh_fd (open_fds s)) (open_fds s) = open_fds s"
    using fresh_fd_fresh [of "open_fds s"] by (auto simp: filter_id_conv)
  ultimately show "snd (acquire i s) = s" and "e = RepositoryLockedError \<or>
      is_OSError e \<and> lock_fault s (lock_path i) \<in> {Some MkdirCall, Some OpenCall}"
    by (auto simp: acquire_def Let_def os_close_def split: option.splits if_splits)
qed

section \<open>An example run\<close>

definition idle_state :: lock_state where
  "idle_state = \<lparr>lock_table = (\<lambda>_. None), open_fds = [], flocked = (\<lambda>_. None),
     lock_fault = (\<lambda>_. None)\<rparr>"

definition held_state :: lock_state where
  "held_state = \<lparr>lock_table = (\<lambda>_. None)(''l'' := Some (1, 1)), open_fds = [1],
     flocked = (\<lambda>_. None)(''l'' := Some (ThisProcess 1)), lock_fault = (\<lambda>_. None)\<rparr>"

definition instance_l :: "nat option \<Rightarrow> lock_instance" where
  "instance_l fd = \<lparr>lock_path = ''l'', lock_fd = fd\<rparr>"

lemma idle_reachable: "lock_reachable ([instance_l None], idle_state)"
proof -
  have "lock_reachable ([], idle_state)" by (rule reach_start) (simp_all add: idle_state_def)
  from reach_step [OF this step_new [of _ _ "''l''"]] show ?thesis by (simp add: instance_l_def)
qed

lemma held_reachable: "lock_reachable ([instance_l (Some 1)], held_state)"
proof -
  have a: "acquire ([instance_l None] ! 0) idle_state = (Inr (instance_l (Some 1)), held_state)"
    by (simp add: acquire_def idle_state_def held_state_def instance_l_def fresh_fd_def Let_def)
  from reach_step [OF idle_reachable step_acquire [OF _ a]] show ?thesis by simp
qed

lemma lock_excludes_others_witness:
  "flocked held_state ''l'' = Some (ThisProcess 1) \<and> 1 \<in> set (open_fds held_state)"
  using lock_excludes_others [OF held_reachable, of "instance_l (Some 1)" 1]
  by (simp add: instance_l_def)

lemma outermost_release_frees_witness:
  "flocked (snd (release (instance_l (Some 1)) held_state)) ''l'' = None"
  using outermost_release_frees [OF held_reachable, of 0 1
      "fst (release (instance_l (Some 1)) held_state)" "snd (release (instance_l (Some 1)) held_state)"]
  by (simp add: instance_l_def holders_def release_def held_state_def Let_def holds_lock_def)

lemma acquire_refused_witness:
  "\<not> (\<exists>e. fst (acquire (instance_l None) idle_state) = Inl e)"
  using acquire_refused_iff [OF idle_reachable, of "instance_l None"]
  by (simp add: instance_l_def idle_state_def)

end
