(* ===== verification/Locked.thy ===== *)
theory Locked
  imports RepositoryLock Effects
begin

text \<open>
  \<open>with RepositoryLock(common_git_dir=...)\<close> around a program: the lock is taken before the body and
  released after it, whether the body returns or raises.
\<close>

record 'w lock_access =
  locks_of :: "'w \<Rightarrow> lock_state"
  set_locks :: "lock_state \<Rightarrow> 'w \<Rightarrow> 'w"

definition new_lock :: "path \<Rightarrow> lock_instance" where
  "new_lock common_git_dir = \<lparr>lock_path = path_join common_git_dir ''git-ots.lock'', lock_fd = None\<rparr>"

definition with_lock :: "'w lock_access \<Rightarrow> path \<Rightarrow> ('w, 'a) prog \<Rightarrow> ('w, 'a) prog" where
  "with_lock L common_git_dir body = (\<lambda>w.
     case acquire (new_lock common_git_dir) (locks_of L w) of
       (Inl e, s) \<Rightarrow> (Inl e, set_locks L s w)
     | (Inr i, s) \<Rightarrow>
         (case body (set_locks L s w) of
            (r, w1) \<Rightarrow> (r, set_locks L (snd (release i (locks_of L w1))) w1)))"

text \<open>The part of the world the locks are, read back as it was written.\<close>

definition lawful_locks :: "'w lock_access \<Rightarrow> bool" where
  "lawful_locks L \<longleftrightarrow> (\<forall>s w. locks_of L (set_locks L s w) = s)"

lemma with_lock_refused:
  assumes "acquire (new_lock d) (locks_of L w) = (Inl e, s)"
  shows "with_lock L d body w = (Inl e, set_locks L s w)"
  using assms by (simp add: with_lock_def)

lemma with_lock_Inr_iff:
  "with_lock L d body w = (Inr x, w') \<longleftrightarrow>
     (\<exists>i s w1. acquire (new_lock d) (locks_of L w) = (Inr i, s) \<and>
        body (set_locks L s w) = (Inr x, w1) \<and>
        w' = set_locks L (snd (release i (locks_of L w1))) w1)"
  by (auto simp: with_lock_def split: prod.splits sum.splits)

text \<open>
  A body that leaves the locks alone finds the lock held, and the lock is as it was before when
  the block is left.
\<close>

lemma release_acquired:
  assumes "acquire i s = (Inr j, t)" "lock_fd i = None"
    and "\<And>c fd. lock_table s (lock_path i) = Some (c, fd) \<Longrightarrow> 0 < c"
    and "flocked s (lock_path i) = None \<or> lock_table s (lock_path i) \<noteq> None"
  shows "lock_table (snd (release j t)) = lock_table s \<and> flocked (snd (release j t)) = flocked s"
proof (cases "lock_table s (lock_path i)")
  case None
  with assms show ?thesis
    by (auto simp: acquire_def release_def os_close_def Let_def fun_eq_iff split: if_splits)
next
  case (Some p)
  with assms show ?thesis
    by (cases p) (auto simp: acquire_def release_def os_close_def Let_def fun_eq_iff split: if_splits)
qed

end
