(* ===== verification/GitRun.thy ===== *)
theory GitRun
  imports Effects PyText
begin

text \<open>
  \<open>git.py\<close>, the command boundary: bounded subprocesses, \<open>GitRunner\<close>, recognising contention on
  the index lock, and the retry loop around index-mutating commands.
\<close>

section \<open>Bounded subprocesses\<close>

text \<open>
  How \<open>process.communicate(timeout=...)\<close> can end, and what \<open>_run_bounded_git_subprocess\<close> does to
  the child. \<open>BoundWait ok\<close> is the reaping \<open>wait\<close>, whose \<open>OSError\<close> (\<open>ok = False\<close>) is swallowed.
\<close>

datatype 'a communicate =
    Completed int 'a 'a
  | TimeoutExpired bool
  | Interrupted exc

datatype child_event = Spawn | KillGroup | BoundWait bool

definition run_bounded_git_subprocess ::
    "exc option \<Rightarrow> 'a communicate \<Rightarrow> (int \<times> 'a \<times> 'a) result \<times> child_event list" where
  "run_bounded_git_subprocess popen_error outcome =
     (case popen_error of
        Some e \<Rightarrow> (Inl e, [])
      | None \<Rightarrow>
          (case outcome of
             Completed code out err \<Rightarrow> (Inr (code, out, err), [Spawn])
           | TimeoutExpired ok \<Rightarrow>
               (Inl GitCommandTimeoutError, [Spawn, KillGroup, BoundWait ok, KillGroup])
           | Interrupted e \<Rightarrow> (Inl e, [Spawn, KillGroup])))"

section \<open>GitRunner\<close>

record git_success =
  argv :: "string list"
  exit_code :: int
  stdout :: string
  stderr :: string

record git_success_bytes =
  argv_bytes :: "string list"
  exit_code_bytes :: int
  stdout_bytes :: bytes
  stderr_bytes :: bytes

definition runner_run ::
    "'w host \<Rightarrow> string list \<Rightarrow> string option \<Rightarrow> ('w, git_success) prog" where
  "runner_run h args inp =
     (let av = ''git'' # args in
      bindP (run_git h av inp) (\<lambda>(code, out, err).
        if code \<noteq> 0 then raiseP (GitCommandError code err)
        else ret \<lparr>argv = av, exit_code = code, stdout = out, stderr = err\<rparr>))"

definition runner_run_bytes ::
    "'w host \<Rightarrow> string list \<Rightarrow> string option \<Rightarrow> ('w, git_success_bytes) prog" where
  "runner_run_bytes h args inp =
     (let av = ''git'' # args in
      bindP (run_git_bytes h av inp) (\<lambda>(code, out, err).
        if code \<noteq> 0 then raiseP (GitCommandError code (bytes_text err))
        else ret \<lparr>argv_bytes = av, exit_code_bytes = code, stdout_bytes = out,
               stderr_bytes = err\<rparr>))"

text \<open>\<open>runner.run(args).stdout\<close>\<close>

definition git_out :: "'w host \<Rightarrow> string list \<Rightarrow> ('w, string) prog" where
  "git_out h args = bindP (runner_run h args None) (\<lambda>s. ret (stdout s))"

text \<open>The \<open>exit_code\<close> and \<open>stderr\<close> attributes of a \<open>GitCommandError\<close>; a killed child has \<open>-9\<close>.\<close>

fun exc_stderr :: "exc \<Rightarrow> string" where
  "exc_stderr (GitCommandError _ err) = err"
| "exc_stderr _ = []"

fun exc_exit_code :: "exc \<Rightarrow> int" where
  "exc_exit_code (GitCommandError code _) = code"
| "exc_exit_code _ = - 9"

section \<open>Index-lock contention\<close>

definition index_lock_markers :: "string list" where
  "index_lock_markers = [''index.lock'', ''unable to create '', ''cannot lock ref'']"

definition index_lock_confirmation :: string where
  "index_lock_confirmation = ''file exists''"

definition is_index_lock_contention :: "exc \<Rightarrow> bool" where
  "is_index_lock_contention error =
     (if error = GitCommandTimeoutError then False
      else
        let err = str_lower (exc_stderr error) in
        if \<not> str_contains err index_lock_confirmation \<and> \<not> str_contains err ''another git process''
        then False
        else list_ex (\<lambda>marker. str_contains err marker) index_lock_markers)"

definition initial_backoff :: int where
  "initial_backoff = 100000"

definition max_backoff :: int where
  "max_backoff = 2000000"

text \<open>
  The \<open>while True\<close> loop. Each round but the last two sleeps for a tenth of a second at least, so
  that a clock that follows the sleeps ends it within \<open>retry_fuel\<close> rounds.
\<close>

primrec retry_loop ::
    "'w host \<Rightarrow> nat \<Rightarrow> string list \<Rightarrow> int \<Rightarrow> ('w, unit) prog \<Rightarrow> int \<Rightarrow> ('w, git_success) prog" where
  "retry_loop h 0 args deadline before backoff = raiseP OutOfFuel"
| "retry_loop h (Suc n) args deadline before backoff =
     bindP before (\<lambda>_.
       catchP (runner_run h args None) is_GitCommandError (\<lambda>e.
         if \<not> is_index_lock_contention e then raiseP e
         else
           bindP (askP (monotonic h)) (\<lambda>now.
             let remaining = deadline - now in
             if remaining \<le> 0
             then bindP (doP (log_warning h ''Gave up waiting for the Git index lock''))
                    (\<lambda>_. raiseP e)
             else
               bindP (doP (sleep h (min backoff remaining))) (\<lambda>_.
                 retry_loop h n args deadline before (min (backoff * 2) max_backoff)))))"

definition retry_fuel :: "int \<Rightarrow> nat" where
  "retry_fuel window = nat (window div initial_backoff) + 3"

definition run_with_index_lock_retry ::
    "'w host \<Rightarrow> string list \<Rightarrow> int option \<Rightarrow> ('w, unit) prog \<Rightarrow> ('w, git_success) prog" where
  "run_with_index_lock_retry h args retry_window before =
     (case retry_window of
        None \<Rightarrow> bindP before (\<lambda>_. runner_run h args None)
      | Some window \<Rightarrow>
          if window \<le> 0 then bindP before (\<lambda>_. runner_run h args None)
          else
            bindP (askP (monotonic h)) (\<lambda>now.
              retry_loop h (retry_fuel window) args (now + window) before initial_backoff))"

definition stage_paths ::
    "'w host \<Rightarrow> string list \<Rightarrow> int option \<Rightarrow> ('w, git_success) prog" where
  "stage_paths h paths retry_window =
     run_with_index_lock_retry h ([''add'', ''--''] @ paths) retry_window (ret ())"

section \<open>Facts about the runner\<close>

lemma runner_run_Inr_iff:
  "runner_run h args inp w = (Inr s, w') \<longleftrightarrow>
     (\<exists>out err. run_git h (''git'' # args) inp w = (Inr (0, out, err), w') \<and>
        s = \<lparr>argv = ''git'' # args, exit_code = 0, stdout = out, stderr = err\<rparr>)"
  by (auto simp: runner_run_def Let_def bindP_Inr_iff split: if_splits)

lemma git_out_Inr_iff:
  "git_out h args w = (Inr out, w') \<longleftrightarrow>
     (\<exists>err. run_git h (''git'' # args) None w = (Inr (0, out, err), w'))"
  by (auto simp: git_out_def bindP_Inr_iff runner_run_Inr_iff)

lemma keeps_run:
  "keeps v (run_git h (''git'' # args) inp) \<Longrightarrow> keeps v (runner_run h args inp)"
  by (auto simp: runner_run_def Let_def intro!: keeps_intros)

lemma keeps_run_bytes:
  "keeps v (run_git_bytes h (''git'' # args) inp) \<Longrightarrow> keeps v (runner_run_bytes h args inp)"
  by (auto simp: runner_run_bytes_def Let_def intro!: keeps_intros)

lemma keeps_git_out:
  "keeps v (run_git h (''git'' # args) None) \<Longrightarrow> keeps v (git_out h args)"
  by (auto simp: git_out_def intro!: keeps_intros keeps_run)

section \<open>A repository that stays as it is\<close>

text \<open>
  Git answers from one repository that no command of the caller changes: what the searches of the
  tool, which only read, can rely on.
\<close>

type_synonym answers = "string list \<Rightarrow> string option \<Rightarrow> int \<times> string \<times> string"

definition fixed_git :: "'w host \<Rightarrow> answers \<Rightarrow> bool" where
  "fixed_git h g \<longleftrightarrow> (\<forall>args inp w. run_git h (''git'' # args) inp w = (Inr (g args inp), w))"

definition answer_code :: "answers \<Rightarrow> string list \<Rightarrow> int" where
  "answer_code g args = fst (g args None)"

definition answer_text :: "answers \<Rightarrow> string list \<Rightarrow> string" where
  "answer_text g args = fst (snd (g args None))"

lemma git_out_fixed_eq:
  assumes "fixed_git h g"
  shows "git_out h args w =
    (if answer_code g args = 0 then Inr (answer_text g args)
     else Inl (GitCommandError (answer_code g args) (snd (snd (g args None)))), w)"
  using assms by (cases "g args None")
    (simp add: git_out_def runner_run_def fixed_git_def answer_code_def answer_text_def bindP_def Let_def)

lemma git_out_fixed:
  assumes "fixed_git h g"
  shows "git_out h args w = (Inr out, w') \<longleftrightarrow>
    w' = w \<and> answer_code g args = 0 \<and> out = answer_text g args"
  using assms by (cases "g args None") (auto simp: git_out_Inr_iff fixed_git_def answer_code_def answer_text_def)

lemma git_out_fixed_error:
  assumes "fixed_git h g" "git_out h args w = (Inl e, w')"
  shows "w' = w \<and> answer_code g args \<noteq> 0 \<and> is_GitCommandError e \<and> exc_exit_code e = answer_code g args"
  using assms by (cases "g args None")
    (auto simp: git_out_def runner_run_def fixed_git_def answer_code_def bindP_Inl_iff Let_def split: if_splits)

lemma runner_run_fixed:
  assumes "fixed_git h g" "runner_run h args None w = (Inr s, w')"
  shows "w' = w \<and> answer_code g args = 0 \<and> stdout s = answer_text g args"
  using assms by (cases "g args None") (auto simp: runner_run_Inr_iff fixed_git_def answer_code_def answer_text_def)

text \<open>Such a repository, over a store of files.\<close>

definition git_host :: "answers \<Rightarrow> file_store host" where
  "git_host g = (file_host (\<lambda>_. None) (\<lambda>_. None) (\<lambda>_ m. m))
     \<lparr>run_git := (\<lambda>av inp w. (Inr (g (tl av) inp), w))\<rparr>"

lemma fixed_git_host: "fixed_git (git_host g) g"
  by (simp add: fixed_git_def git_host_def)

section \<open>A success follows a passed check\<close>

lemma retry_loop_success:
  "retry_loop h n args deadline before backoff w = (Inr s, w') \<Longrightarrow>
     \<exists>w1 w2. before w1 = (Inr (), w2) \<and> runner_run h args None w2 = (Inr s, w')"
proof (induction n arbitrary: backoff w)
  case (Suc n)
  then show ?case
    by (auto simp: bindP_Inr_iff catchP_Inr_iff Let_def split: if_splits)
qed simp

lemma retry_success:
  "run_with_index_lock_retry h args window before w = (Inr s, w') \<Longrightarrow>
     \<exists>w1 w2. before w1 = (Inr (), w2) \<and> runner_run h args None w2 = (Inr s, w')"
  unfolding run_with_index_lock_retry_def
  by (auto simp: bindP_Inr_iff split: option.splits if_splits dest!: retry_loop_success)

section \<open>The retry loop ends\<close>

text \<open>
  What the loop needs of the clock: it advances by what is slept, and no command and no
  precondition check turns it back. \<open>follows\<close> is a property of the host's clock alone.
\<close>

definition clock_follows :: "'w host \<Rightarrow> string list \<Rightarrow> ('w, unit) prog \<Rightarrow> bool" where
  "clock_follows h args before \<longleftrightarrow>
     (\<forall>d w. 0 < d \<longrightarrow> monotonic h w + d \<le> monotonic h (sleep h d w)) \<and>
     (\<forall>w. monotonic h w \<le> monotonic h (snd (before w))) \<and>
     (\<forall>w. monotonic h w \<le> monotonic h (snd (run_git h (''git'' # args) None w)))"

lemma runner_run_world: "snd (runner_run h args inp w) = snd (run_git h (''git'' # args) inp w)"
  by (auto simp: runner_run_def Let_def bindP_def split: sum.splits prod.splits)

lemma runner_run_error:
  "runner_run h args inp w = (Inl e, w') \<Longrightarrow>
     run_git h (''git'' # args) inp w = (Inl e, w') \<or> (\<exists>c err. e = GitCommandError c err)"
  by (auto simp: runner_run_def Let_def bindP_Inl_iff split: if_splits)

lemma contention_is_command_error: "is_index_lock_contention e \<Longrightarrow> \<exists>c err. e = GitCommandError c err"
  by (cases e)
    (auto simp: is_index_lock_contention_def Let_def index_lock_confirmation_def str_lower_def
      str_startswith_def split: if_splits)

lemma retry_round:
  assumes clock: "clock_follows h args before"
    and no1: "\<And>w. fst (before w) \<noteq> Inl OutOfFuel"
    and no2: "\<And>w. fst (run_git h (''git'' # args) None w) \<noteq> Inl OutOfFuel"
    and b: "initial_backoff \<le> backoff"
    and r: "retry_loop h (Suc n) args deadline before backoff w = (Inl OutOfFuel, w')"
  obtains w3 where "0 < deadline - monotonic h w"
    and "deadline - monotonic h w3 \<le> max 0 (deadline - monotonic h w - initial_backoff)"
    and "retry_loop h n args deadline before (min (backoff * 2) max_backoff) w3 = (Inl OutOfFuel, w')"
proof -
  obtain rb w1 where bw: "before w = (rb, w1)" by fastforce
  with r no1 [of w] have rb: "rb = Inr ()" by (cases rb) (auto simp: bindP_def)
  obtain rr w2 where rw: "runner_run h args None w1 = (rr, w2)" by fastforce
  have rr: "rr \<noteq> Inl OutOfFuel"
    using runner_run_error [of h args None w1 OutOfFuel w2] rw no2 [of w1] by auto
  let ?rem = "deadline - monotonic h w2"
  let ?w3 = "sleep h (min backoff ?rem) w2"
  from r bw rb rw rr have c: "0 < ?rem"
    and l: "retry_loop h n args deadline before (min (backoff * 2) max_backoff) ?w3 = (Inl OutOfFuel, w')"
    by (auto simp: bindP_def catchP_def Let_def guardP_def is_index_lock_contention_def
        split: sum.splits if_splits)
  have m1: "monotonic h w \<le> monotonic h w1"
    using clock bw unfolding clock_follows_def by (metis snd_conv)
  have m2: "monotonic h w1 \<le> monotonic h w2"
    using clock rw unfolding clock_follows_def by (metis runner_run_world snd_conv)
  have bpos: "0 < backoff" using b by (simp add: initial_backoff_def)
  then have m3: "monotonic h w2 + min backoff ?rem \<le> monotonic h ?w3"
    using clock c unfolding clock_follows_def by simp
  show ?thesis
  proof (rule that [OF _ _ l])
    show "0 < deadline - monotonic h w" using c m1 m2 by simp
    show "deadline - monotonic h ?w3 \<le> max 0 (deadline - monotonic h w - initial_backoff)"
      using m1 m2 m3 b by linarith
  qed
qed

lemma retry_loop_ends:
  assumes "clock_follows h args before"
    and "\<And>w. fst (before w) \<noteq> Inl OutOfFuel"
    and "\<And>w. fst (run_git h (''git'' # args) None w) \<noteq> Inl OutOfFuel"
  shows "initial_backoff \<le> backoff \<Longrightarrow> deadline - monotonic h w \<le> initial_backoff * int n \<Longrightarrow>
     n < m \<Longrightarrow> fst (retry_loop h m args deadline before backoff w) \<noteq> Inl OutOfFuel"
proof (induction n arbitrary: backoff w m)
  case 0
  then obtain k where m: "m = Suc k" by (cases m) auto
  show ?case
  proof
    assume "fst (retry_loop h m args deadline before backoff w) = Inl OutOfFuel"
    then obtain w' where "retry_loop h (Suc k) args deadline before backoff w = (Inl OutOfFuel, w')"
      unfolding m by (metis prod.collapse)
    from retry_round [OF assms 0(1) this] show False using 0(2) by simp
  qed
next
  case (Suc n)
  then obtain k where m: "m = Suc k" "n < k" by (cases m) auto
  show ?case
  proof
    assume "fst (retry_loop h m args deadline before backoff w) = Inl OutOfFuel"
    then obtain w' where l: "retry_loop h (Suc k) args deadline before backoff w = (Inl OutOfFuel, w')"
      unfolding m by (metis prod.collapse)
    obtain w3 where d: "deadline - monotonic h w3 \<le> max 0 (deadline - monotonic h w - initial_backoff)"
      and r: "retry_loop h k args deadline before (min (backoff * 2) max_backoff) w3 = (Inl OutOfFuel, w')"
      using retry_round [OF assms Suc.prems(1) l] by blast
    have "initial_backoff \<le> min (backoff * 2) max_backoff"
      using Suc.prems(1) by (simp add: initial_backoff_def max_backoff_def)
    moreover have "deadline - monotonic h w3 \<le> initial_backoff * int n"
      using d Suc.prems(2) by (simp add: initial_backoff_def)
    ultimately show False using Suc.IH [OF _ _ m(2)] r by (metis fst_conv)
  qed
qed

text \<open>
  C37: waiting out the index lock ends. With a clock that follows the sleeps and that neither Git
  nor the precondition check turns back, \<open>run_with_index_lock_retry\<close> returns or raises: the
  rounds of its loop are never exhausted, whatever the retry window.
\<close>

theorem index_lock_retry_ends:
  assumes "clock_follows h args before"
    and "\<And>w. fst (before w) \<noteq> Inl OutOfFuel"
    and "\<And>w. fst (run_git h (''git'' # args) None w) \<noteq> Inl OutOfFuel"
  shows "fst (run_with_index_lock_retry h args window before w) \<noteq> Inl OutOfFuel"
proof (cases "\<exists>d. window = Some d \<and> 0 < d")
  case True
  then obtain d where d: "window = Some d" "0 < d" by blast
  have "d \<le> initial_backoff * (d div initial_backoff + 1)"
    by (simp add: initial_backoff_def)
  then have "monotonic h w + d - monotonic h w \<le>
      initial_backoff * int (nat (d div initial_backoff) + 1)"
    using d(2) by (simp add: initial_backoff_def)
  from retry_loop_ends [OF assms order_refl this] show ?thesis
    using d by (simp add: run_with_index_lock_retry_def bindP_def retry_fuel_def)
next
  case False
  have "fst (bindP before (\<lambda>_. runner_run h args None) w) \<noteq> Inl OutOfFuel"
  proof
    assume "fst (bindP before (\<lambda>_. runner_run h args None) w) = Inl OutOfFuel"
    then obtain w' where "bindP before (\<lambda>_. runner_run h args None) w = (Inl OutOfFuel, w')"
      by (metis prod.collapse)
    then show False
      using assms(2,3) runner_run_error [of h args None _ OutOfFuel]
      by (auto simp: bindP_Inl_iff) (metis fst_conv)+
  qed
  with False show ?thesis
    by (auto simp: run_with_index_lock_retry_def split: option.split)
qed

text \<open>A repository whose index stays locked, and one whose hook rejects: the state is the clock.\<close>

definition failing_host :: "string \<Rightarrow> int host" where
  "failing_host message = \<lparr>run_git = (\<lambda>_ _ w. (Inr (128, [], message), w)),
     run_git_bytes = (\<lambda>_ _ w. (Inr (128, [], []), w)), store_of = (\<lambda>_. []),
     set_store = (\<lambda>_ w. w), write_fault = (\<lambda>_. NoFault), temp_name = (\<lambda>p _. p @ ''.tmp''),
     resolve_path = (\<lambda>p _. p), monotonic = (\<lambda>w. w), sleep = (\<lambda>d w. w + d),
     log_warning = (\<lambda>_ w. w), json_loads = (\<lambda>_. None), fromisoformat = (\<lambda>_. None),
     digest = (\<lambda>_ m. m), ripemd = (\<lambda>_. None)\<rparr>"

lemma index_lock_retry_ends_witness:
  "fst (run_with_index_lock_retry
     (failing_host ''fatal: Unable to create '.git/index.lock': File exists.'')
     [''add''] (Some 500000) (ret ()) 0) \<noteq> Inl OutOfFuel"
  by (rule index_lock_retry_ends) (simp_all add: clock_follows_def failing_host_def)

text \<open>
  Only index-lock contention is retried. When a command of the loop fails for another reason,
  the failure is raised after that one attempt, with the state Git left: nothing is slept and
  nothing is run again.
\<close>

theorem other_failures_not_retried:
  assumes "before w = (Inr (), w1)"
    and "runner_run h args None w1 = (Inl e, w2)" "\<not> is_index_lock_contention e"
    and "0 < n"
  shows "retry_loop h n args deadline before backoff w = (Inl e, w2)"
  using assms by (cases n) (simp_all add: bindP_def catchP_def)

lemma other_failures_not_retried_witness:
  "retry_loop (failing_host ''hook declined'') 4 [''commit''] 1000000 (ret ()) initial_backoff 7 =
     (Inl (GitCommandError 128 ''hook declined''), 7)"
proof (rule other_failures_not_retried)
  show "runner_run (failing_host ''hook declined'') [''commit''] None 7 =
      (Inl (GitCommandError 128 ''hook declined''), 7)"
    by (simp add: runner_run_def failing_host_def bindP_def)
  show "\<not> is_index_lock_contention (GitCommandError 128 ''hook declined'')"
    by (simp add: is_index_lock_contention_def index_lock_markers_def index_lock_confirmation_def
        str_lower_def lower_char_def str_startswith_def)
qed simp_all

end
