(* ===== verification/GitRefs.thy ===== *)
theory GitRefs
  imports GitRun
begin

text \<open>
  \<open>git.py\<close>, the repository and its refs: locating it, its object format, fetching and pushing,
  resolving the source ref, and the checks made before anything is written.
\<close>

section \<open>Locating the repository\<close>

record repository_layout =
  worktree_root :: path
  common_git_dir :: path
  is_bare :: bool

text \<open>\<open>Path(base) / p\<close>: an absolute \<open>p\<close> replaces the base.\<close>

definition path_under :: "path \<Rightarrow> path \<Rightarrow> path" where
  "path_under base p = (if str_startswith p ''/'' then p else path_join base p)"

definition git_stripped :: "'w host \<Rightarrow> string list \<Rightarrow> ('w, string) prog" where
  "git_stripped h args = bindP (git_out h args) (\<lambda>out. ret (strip out))"

definition locate_repository :: "'w host \<Rightarrow> path \<Rightarrow> ('w, repository_layout) prog" where
  "locate_repository h cwd =
     bindP (askP (resolve_path h cwd)) (\<lambda>base.
     bindP
       (catchP (bindP (git_stripped h [''rev-parse'', ''--show-toplevel'']) (\<lambda>top. ret (top, False)))
          is_GitCommandError (\<lambda>exc.
            catchP (bindP (git_stripped h [''rev-parse'', ''--absolute-git-dir''])
                (\<lambda>top. ret (top, True)))
              is_GitCommandError (\<lambda>_. raiseP exc)))
       (\<lambda>(top, bare).
     guardP (top \<noteq> []) (GitCommandError 0 ''empty worktree root'') (
     bindP (askP (resolve_path h top)) (\<lambda>root.
     bindP (git_stripped h [''rev-parse'', ''--git-common-dir'']) (\<lambda>common_raw.
     guardP (common_raw \<noteq> []) (GitCommandError 0 ''empty common git dir'') (
     bindP (askP (resolve_path h (path_under base common_raw))) (\<lambda>common.
     ret \<lparr>worktree_root = root, common_git_dir = common, is_bare = bare\<rparr>)))))))"

definition assert_worktree_present :: "repository_layout \<Rightarrow> unit result" where
  "assert_worktree_present layout =
     (if is_bare layout
      then Inl (InvalidRepositoryStateError ''requires a working tree; this repository is bare'')
      else Inr ())"

datatype object_format = SHA1 | SHA256

fun object_format_value :: "object_format \<Rightarrow> string" where
  "object_format_value SHA1 = ''sha1''"
| "object_format_value SHA256 = ''sha256''"

definition detect_object_format :: "'w host \<Rightarrow> ('w, object_format) prog" where
  "detect_object_format h =
     bindP (git_stripped h [''rev-parse'', ''--show-object-format'']) (\<lambda>raw.
       if raw = ''sha1'' then ret SHA1
       else if raw = ''sha256'' then ret SHA256
       else raiseP (InvalidRepositoryStateError ''unrecognized git object format''))"

section \<open>Remotes\<close>

definition fetch_remote :: "'w host \<Rightarrow> string \<Rightarrow> ('w, string) prog" where
  "fetch_remote h remote =
     bindP (runner_run h [''fetch'', ''--prune'', remote] None) (\<lambda>_. ret remote)"

definition push_current_branch :: "'w host \<Rightarrow> ('w, unit) prog" where
  "push_current_branch h = bindP (runner_run h [''push'', ''--follow-tags''] None) (\<lambda>_. ret ())"

definition remote_of_ref :: "string \<Rightarrow> string option" where
  "remote_of_ref full =
     (let p = ''refs/remotes/'' in
      if str_startswith full p then
        let remote = fst (partition_char (CHR ''/'') (drop (length p) full)) in
        if remote \<noteq> [] then Some remote else None
      else None)"

definition discover_remote_for_ref :: "'w host \<Rightarrow> string \<Rightarrow> ('w, string option) prog" where
  "discover_remote_for_ref h r =
     catchP
       (bindP (git_stripped h [''rev-parse'', ''--symbolic-full-name'', r])
          (\<lambda>full. ret (remote_of_ref full)))
       is_GitCommandError (\<lambda>_. ret None)"

definition maybe_fetch_before_run ::
    "'w host \<Rightarrow> string \<Rightarrow> bool \<Rightarrow> ('w, string option) prog" where
  "maybe_fetch_before_run h source_ref fetch_before_run =
     (if \<not> fetch_before_run then ret None
      else bindP (discover_remote_for_ref h source_ref) (\<lambda>remote.
        case remote of
          None \<Rightarrow> ret None
        | Some r \<Rightarrow> bindP (fetch_remote h r) (\<lambda>f. ret (Some f))))"

section \<open>Resolving the source ref\<close>

record resolved_ref =
  resolved_commit_id :: commit_id
  display_ref :: string

text \<open>
  \<open>git rev-parse --verify <name>^{commit}\<close>, with the error the callers turn a failure into.
\<close>

definition verify_commit :: "'w host \<Rightarrow> string \<Rightarrow> string \<Rightarrow> ('w, string) prog" where
  "verify_commit h message name =
     catchP (git_stripped h [''rev-parse'', ''--verify'', name @ ''^{commit}''])
       is_GitCommandError (\<lambda>_. raiseP (InvalidRepositoryStateError message))"

definition resolve_source_ref :: "'w host \<Rightarrow> string \<Rightarrow> ('w, resolved_ref) prog" where
  "resolve_source_ref h r =
     bindP (verify_commit h ''cannot resolve source ref'' r) (\<lambda>cid.
     guardP (cid \<noteq> []) (InvalidRepositoryStateError ''cannot resolve source ref: empty commit id'') (
     bindP (catchP (git_stripped h [''symbolic-ref'', ''-q'', r]) is_GitCommandError (\<lambda>_. ret []))
       (\<lambda>display1.
     bindP
       (if display1 \<noteq> [] then ret display1
        else
          bindP (catchP (git_stripped h [''rev-parse'', ''--symbolic-full-name'', r])
              is_GitCommandError (\<lambda>_. ret []))
            (\<lambda>candidate. ret (if str_startswith candidate ''refs/'' then candidate else [])))
       (\<lambda>display2.
     ret \<lparr>resolved_commit_id = cid, display_ref = (if display2 = [] then r else display2)\<rparr>))))"

section \<open>Preconditions of writing\<close>

definition is_worktree_clean :: "'w host \<Rightarrow> ('w, bool) prog" where
  "is_worktree_clean h =
     bindP (git_stripped h [''status'', ''--porcelain'', ''--untracked-files=all''])
       (\<lambda>out. ret (out = []))"

text \<open>
  The two loops over the markers of an operation in progress. Git prints the path of a directory
  with the slash it was asked with; \<open>Path\<close> drops it.
\<close>

definition marker_files :: "'w host \<Rightarrow> path \<Rightarrow> ('w, string list) prog" where
  "marker_files h cwd =
     foldP (\<lambda>name in_progress.
         bindP (git_stripped h [''rev-parse'', ''--git-path'', name]) (\<lambda>p.
         bindP (askP (stat_path h (path_under cwd p))) (\<lambda>k.
         ret (if k \<noteq> None then in_progress @ [name] else in_progress))))
       [''MERGE_HEAD'', ''CHERRY_PICK_HEAD''] []"

definition marker_directories ::
    "'w host \<Rightarrow> path \<Rightarrow> string list \<Rightarrow> ('w, string list \<times> string list) prog" where
  "marker_directories h cwd start =
     foldP (\<lambda>name (in_progress, stale).
         bindP (git_stripped h [''rev-parse'', ''--git-path'', name @ ''/'']) (\<lambda>p.
         let resolved = path_under cwd (rstrip_chars (\<lambda>c. c = CHR ''/'') p) in
         bindP (askP (stat_path h resolved)) (\<lambda>k.
           if k = Some Directory then
             bindP (askP (\<lambda>w. list_dir resolved (store_of h w))) (\<lambda>entries.
               ret (in_progress @ [name @ ''/''],
                    if entries = [] then stale @ [resolved] else stale))
           else ret (in_progress, stale))))
       [''rebase-merge'', ''rebase-apply''] (start, [])"

definition assert_committable_state :: "'w host \<Rightarrow> path \<Rightarrow> bool \<Rightarrow> ('w, unit) prog" where
  "assert_committable_state h cwd require_symbolic_head =
     bindP
       (catchP (runner_run h [''-c'', ''user.useConfigOnly=true'', ''var'', ''GIT_COMMITTER_IDENT''] None)
          is_GitCommandError
          (\<lambda>_. raiseP (InvalidRepositoryStateError ''Git author identity is not configured'')))
       (\<lambda>_.
     bindP (marker_files h cwd) (\<lambda>files.
     bindP (marker_directories h cwd files) (\<lambda>(in_progress, stale).
     guardP (in_progress = [])
       (InvalidRepositoryStateError ''cannot run while a Git operation is in progress'') (
     if require_symbolic_head then
       catchP (bindP (runner_run h [''symbolic-ref'', ''HEAD''] None) (\<lambda>_. ret ()))
         is_GitCommandError
         (\<lambda>_. raiseP (InvalidRepositoryStateError ''cannot create proof commit on detached HEAD''))
     else ret ()))))"

text \<open>\<open>paths_are_committed\<close>, with its early return.\<close>

primrec paths_are_committed :: "'w host \<Rightarrow> path list \<Rightarrow> ('w, bool) prog" where
  "paths_are_committed h [] = ret True"
| "paths_are_committed h (p # ps) =
     bindP (git_stripped h [''ls-tree'', ''-r'', ''HEAD'', ''--'', p]) (\<lambda>out.
       if out = [] then ret False else paths_are_committed h ps)"

end
