(* ===== verification/GitHistory.thy ===== *)
theory GitHistory
  imports GitRefs PyTime "HOL-Library.List_Lexorder" "HOL-Library.Char_ord"
begin

text \<open>
  \<open>git.py\<close>, reading the history: commits and their times, trailers and the classification of
  generated commits, parents, the paths a commit changes.
\<close>

section \<open>Commits\<close>


record commit_info =
  ci_commit_id :: commit_id
  ci_committer_time :: instant

text \<open>
  \<open>datetime.fromtimestamp(epoch, tz=UTC)\<close>: the years 1 to 9999. Outside \<open>time_t\<close> the error is
  an \<open>OverflowError\<close>.
\<close>

definition from_timestamp :: "int \<Rightarrow> instant result" where
  "from_timestamp epoch =
     (if - 62135596800 \<le> epoch \<and> epoch \<le> 253402300799 then Inr (1000000 * epoch)
      else if - (2 ^ 63) \<le> epoch \<and> epoch < 2 ^ 63 then Inl (ValueError ''year is out of range'')
      else Inl OverflowError)"

definition generated_trailer_key :: string where
  "generated_trailer_key = ''OpenTimestamps-Generated''"

definition generated_trailer_value :: string where
  "generated_trailer_value = ''true''"

definition source_trailer_key :: string where
  "source_trailer_key = ''OpenTimestamps-Source''"

definition upgraded_trailer_key :: string where
  "upgraded_trailer_key = ''OpenTimestamps-Upgraded''"

definition canonical_trailer :: string where
  "canonical_trailer = generated_trailer_key @ '': '' @ generated_trailer_value"

section \<open>Trailers\<close>

text \<open>
  \<open>_read_message_and_trailers\<close>; \<open>has_generated_trailer\<close> makes the same three calls and looks for
  the generated trailer among the parsed lines.
\<close>

definition read_message_and_trailers ::
    "'w host \<Rightarrow> string \<Rightarrow> ('w, string \<times> string list) prog" where
  "read_message_and_trailers h commit =
     bindP (verify_commit h ''cannot read the message of unknown commit'' commit) (\<lambda>_.
     bindP (git_out h [''log'', ''-1'', ''--format=%B'', commit]) (\<lambda>body.
     bindP (runner_run h [''interpret-trailers'', ''--parse''] (Some body)) (\<lambda>parsed.
     ret (body, splitlines (stdout parsed)))))"

definition is_generated_line :: "string \<Rightarrow> bool" where
  "is_generated_line line =
     (let p = generated_trailer_key @ '': '' in
      str_startswith line p \<and> drop (length p) line = generated_trailer_value)"

definition has_generated_trailer :: "'w host \<Rightarrow> string \<Rightarrow> ('w, bool) prog" where
  "has_generated_trailer h commit =
     bindP (verify_commit h ''cannot read trailers for unknown commit'' commit) (\<lambda>_.
     bindP (git_out h [''log'', ''-1'', ''--format=%B'', commit]) (\<lambda>body.
     bindP (runner_run h [''interpret-trailers'', ''--parse''] (Some body)) (\<lambda>parsed.
     ret (list_ex is_generated_line (splitlines (stdout parsed))))))"

definition trailer_values :: "string list \<Rightarrow> string \<Rightarrow> string list" where
  "trailer_values trailer_lines key =
     (let p = key @ '': '' in
      map (\<lambda>line. strip (drop (length p) line)) (filter (\<lambda>line. str_startswith line p) trailer_lines))"

definition extract_trailer_values :: "'w host \<Rightarrow> string \<Rightarrow> string \<Rightarrow> ('w, string list) prog" where
  "extract_trailer_values h commit key =
     bindP (read_message_and_trailers h commit) (\<lambda>(body, trailer_lines).
       ret (trailer_values trailer_lines key))"

definition extract_generated_commit_sources :: "'w host \<Rightarrow> string \<Rightarrow> ('w, commit_id list) prog" where
  "extract_generated_commit_sources h commit = extract_trailer_values h commit source_trailer_key"

section \<open>Changed paths and parents\<close>

definition list_changed_paths :: "'w host \<Rightarrow> string \<Rightarrow> ('w, path list) prog" where
  "list_changed_paths h commit =
     bindP (verify_commit h ''cannot list changed paths for unknown commit'' commit) (\<lambda>_.
     bindP (git_out h [''diff-tree'', ''--root'', ''-r'', ''--no-commit-id'', ''--no-renames'',
         ''--name-only'', ''-z'', commit]) (\<lambda>out.
     ret (sort (filter (\<lambda>entry. entry \<noteq> []) (split_char nul out)))))"

definition get_commit_parents :: "'w host \<Rightarrow> string \<Rightarrow> ('w, commit_id list) prog" where
  "get_commit_parents h commit =
     bindP (verify_commit h ''cannot read parents for unknown commit'' commit) (\<lambda>_.
     bindP (git_stripped h [''rev-list'', ''--parents'', ''-n'', ''1'', commit]) (\<lambda>out.
     ret (if out = [] then [] else drop 1 (split_words out))))"

section \<open>Generated proof commits\<close>

definition validate_proof_directory :: "string \<Rightarrow> unit result" where
  "validate_proof_directory d =
     (if d = [] then Inl (ValueError ''proof_directory must not be empty'')
      else if str_endswith d ''/'' then Inl (ValueError ''proof_directory must not end with '')
      else Inr ())"

definition paths_outside :: "string \<Rightarrow> path list \<Rightarrow> path list" where
  "paths_outside proof_directory paths =
     filter (\<lambda>p. \<not> str_startswith p (proof_directory @ ''/'')) paths"

definition warn_when_generated_commit_changes_outside_paths ::
    "'w host \<Rightarrow> string \<Rightarrow> string \<Rightarrow> ('w, unit) prog" where
  "warn_when_generated_commit_changes_outside_paths h commit proof_directory =
     bindP (list_changed_paths h commit) (\<lambda>paths.
       if paths_outside proof_directory paths \<noteq> []
       then doP (log_warning h ''generated commit changes paths outside the proof directory'')
       else ret ())"

definition is_generated_proof_commit :: "'w host \<Rightarrow> string \<Rightarrow> string \<Rightarrow> ('w, bool) prog" where
  "is_generated_proof_commit h commit proof_directory =
     bindP (liftE (validate_proof_directory proof_directory)) (\<lambda>_.
     bindP (has_generated_trailer h commit) (\<lambda>generated.
       if \<not> generated then ret False
       else bindP (warn_when_generated_commit_changes_outside_paths h commit proof_directory)
              (\<lambda>_. ret True)))"

text \<open>The records of \<open>git log -z --format=%H%x1f%(trailers...)\<close>.\<close>

definition unit_separator :: char where
  "unit_separator = CHR 0x1F"

definition generated_record :: "string \<Rightarrow> commit_id option" where
  "generated_record rec =
     (if rec = [] then None
      else
        let (cid, rest) = partition_char unit_separator rec in
        if cid = [] then None
        else if list_ex (\<lambda>line. line = canonical_trailer) (splitlines (text_after rest))
        then Some cid else None)"

definition generated_ids_of_log :: "string \<Rightarrow> commit_id list" where
  "generated_ids_of_log out = List.map_filter generated_record (split_char nul out)"

definition log_generated_trailer_commit_ids :: "'w host \<Rightarrow> string \<Rightarrow> ('w, commit_id list) prog" where
  "log_generated_trailer_commit_ids h range_spec =
     bindP (git_out h [''log'', ''-z'', ''--format=%H%x1f%(trailers:only=true,unfold=true)'', range_spec])
       (\<lambda>out. ret (generated_ids_of_log out))"

text \<open>
  The two endpoint checks and the range \<open>baseline..ref\<close>, as both enumerations below begin.
\<close>

definition range_spec_of ::
    "'w host \<Rightarrow> string \<Rightarrow> string \<Rightarrow> string \<Rightarrow> string option \<Rightarrow> ('w, string) prog" where
  "range_spec_of h ref_error baseline_error r baseline =
     bindP (verify_commit h ref_error r) (\<lambda>_.
       case baseline of
         None \<Rightarrow> ret r
       | Some b \<Rightarrow> bindP (verify_commit h baseline_error b) (\<lambda>_. ret (b @ ''..'' @ r)))"

definition enumerate_generated_proof_commit_sources ::
    "'w host \<Rightarrow> string \<Rightarrow> string option \<Rightarrow> string \<Rightarrow> ('w, (commit_id \<times> commit_id list) list) prog" where
  "enumerate_generated_proof_commit_sources h r baseline proof_directory =
     bindP (liftE (validate_proof_directory proof_directory)) (\<lambda>_.
     bindP (range_spec_of h ''cannot search generated proof commits for unknown ref''
         ''cannot search generated proof commits for unknown baseline'' r baseline) (\<lambda>range_spec.
     bindP (log_generated_trailer_commit_ids h range_spec) (\<lambda>generated_ids.
     mapP (\<lambda>cid.
         bindP (warn_when_generated_commit_changes_outside_paths h cid proof_directory) (\<lambda>_.
         bindP (extract_generated_commit_sources h cid) (\<lambda>sources.
         ret (cid, sources))))
       (rev generated_ids))))"

definition find_generated_proof_commits_claiming_source ::
    "'w host \<Rightarrow> commit_id \<Rightarrow> string \<Rightarrow> string option \<Rightarrow> string \<Rightarrow> ('w, commit_id list) prog" where
  "find_generated_proof_commits_claiming_source h source_commit_id r baseline proof_directory =
     bindP (enumerate_generated_proof_commit_sources h r baseline proof_directory) (\<lambda>claims.
       ret (map fst (filter (\<lambda>(cid, sources). source_commit_id \<in> set sources) claims)))"

section \<open>Enumerating commits\<close>

text \<open>One line of \<open>git log --format=%H%x00%ct\<close>; \<open>None\<close> is the skipped empty line.\<close>

definition parse_log_line :: "string \<Rightarrow> commit_info result" where
  "parse_log_line line =
     (let (cid, rest) = partition_char nul line; ts_text = text_after rest in
      if cid = [] \<or> ts_text = [] then Inl (InvalidRepositoryStateError ''unexpected git log line'')
      else case py_int ts_text of
        None \<Rightarrow> Inl (InvalidRepositoryStateError ''unexpected committer timestamp'')
      | Some epoch \<Rightarrow>
          bindE (from_timestamp epoch) (\<lambda>t.
            Inr \<lparr>ci_commit_id = cid, ci_committer_time = t\<rparr>))"

fun parse_log_lines :: "string list \<Rightarrow> commit_info list result" where
  "parse_log_lines [] = Inr []"
| "parse_log_lines (line # lines) =
     (if line = [] then parse_log_lines lines
      else bindE (parse_log_line line) (\<lambda>c.
        bindE (parse_log_lines lines) (\<lambda>cs. Inr (c # cs))))"

definition log_commits :: "'w host \<Rightarrow> string \<Rightarrow> ('w, commit_info list) prog" where
  "log_commits h range_spec =
     bindP (git_out h [''log'', ''--reverse'', ''--format=%H%x00%ct'', range_spec])
       (\<lambda>out. liftE (parse_log_lines (splitlines out)))"

definition enumerate_commits :: "'w host \<Rightarrow> string \<Rightarrow> ('w, commit_info list) prog" where
  "enumerate_commits h r =
     bindP (verify_commit h ''cannot enumerate commits for unknown ref'' r) (\<lambda>_. log_commits h r)"

text \<open>The last loop of \<open>filter_pending_meaningful_commits\<close>.\<close>

primrec meaningful_commits ::
    "'w host \<Rightarrow> string \<Rightarrow> commit_id list \<Rightarrow> commit_info list \<Rightarrow> ('w, commit_info list) prog" where
  "meaningful_commits h proof_directory generated [] = ret []"
| "meaningful_commits h proof_directory generated (c # cs) =
     (if ci_commit_id c \<in> set generated then
        bindP (warn_when_generated_commit_changes_outside_paths h (ci_commit_id c) proof_directory)
          (\<lambda>_. meaningful_commits h proof_directory generated cs)
      else bindP (meaningful_commits h proof_directory generated cs) (\<lambda>rest. ret (c # rest)))"

definition filter_pending_meaningful_commits ::
    "'w host \<Rightarrow> string \<Rightarrow> string option \<Rightarrow> string \<Rightarrow> ('w, commit_info list) prog" where
  "filter_pending_meaningful_commits h r baseline proof_directory =
     bindP (liftE (validate_proof_directory proof_directory)) (\<lambda>_.
     bindP (range_spec_of h ''cannot enumerate commits for unknown ref''
         ''cannot enumerate commits for unknown baseline'' r baseline) (\<lambda>range_spec.
     bindP (log_commits h range_spec) (\<lambda>enumerated.
     bindP (log_generated_trailer_commit_ids h range_spec) (\<lambda>generated_ids.
     meaningful_commits h proof_directory generated_ids enumerated))))"

end
