(* ===== verification/GitTags.thy ===== *)
theory GitTags
  imports GitHistory Manifest
begin

text \<open>
  \<open>git.py\<close>, timestamp tags: reading annotations, stripping an armored signature, the strict
  validation of an annotation, enumerating the tags under a prefix, and creating a tag.
\<close>

section \<open>Annotations\<close>

type_synonym annotation = "(string \<times> string) list"

record timestamp_tag =
  tag_name :: string
  tag_commit_id :: commit_id
  tag_annotation :: annotation

record validated_annotation =
  va_schema :: int
  va_source :: commit_id
  va_submitted_at :: instant
  va_proof :: string
  va_triggers :: "string list"
  va_producer :: "string option"

definition annotation_get :: "timestamp_tag \<Rightarrow> string \<Rightarrow> string option" where
  "annotation_get tag key = map_of (tag_annotation tag) key"

definition annotation_line :: "string \<Rightarrow> (string \<times> string) option" where
  "annotation_line line =
     (case partition_char (CHR '':'') line of
        (key, None) \<Rightarrow> None
      | (key, Some rest) \<Rightarrow> if strip key = [] then None else Some (strip key, strip rest))"

definition parse_tag_annotation :: "string \<Rightarrow> annotation" where
  "parse_tag_annotation contents = List.map_filter annotation_line (splitlines contents)"

text \<open>\<open>^-----BEGIN [A-Z0-9][A-Z0-9 ]*-----$\<close>\<close>

definition is_armor_char :: "char \<Rightarrow> bool" where
  "is_armor_char c \<longleftrightarrow> (let n = of_char c :: nat in 48 \<le> n \<and> n \<le> 57 \<or> 65 \<le> n \<and> n \<le> 90)"

definition is_armor_line :: "string \<Rightarrow> bool" where
  "is_armor_line line \<longleftrightarrow>
     (let p = ''-----BEGIN ''; q = ''-----''; label = bslice line (length p) (length line - length q) in
      str_startswith line p \<and> str_endswith line q \<and> label \<noteq> [] \<and> is_armor_char (hd label) \<and>
      list_all (\<lambda>c. is_armor_char c \<or> c = CHR '' '') label)"

fun armor_offset :: "string list \<Rightarrow> nat \<Rightarrow> nat option" where
  "armor_offset [] offset = None"
| "armor_offset (line # lines) offset =
     (if is_armor_line line then Some offset else armor_offset lines (offset + length line + 1))"

definition strip_signature_block :: "string \<Rightarrow> string" where
  "strip_signature_block body =
     (case armor_offset (split_char newline body) 0 of
        Some offset \<Rightarrow> take offset body
      | None \<Rightarrow> body)"

section \<open>Validation\<close>

definition required_keys :: "string list" where
  "required_keys = [''git-ots schema'', ''source'', ''submitted-at'', ''proof'', ''triggers'']"

definition KNOWN_TRIGGERS :: "string list" where
  "KNOWN_TRIGGERS = [''every_commit'', ''max_age'', ''fixed_time'']"

definition hex_commit_id_lengths :: "nat list" where
  "hex_commit_id_lengths = [40, 64]"

definition annotation_fail :: "string \<Rightarrow> 'a result" where
  "annotation_fail reason = Inl (TimestampTagAnnotationError reason)"

text \<open>The keys: no duplicates, nothing but the required keys and \<open>producer\<close>, all required ones.\<close>

definition check_keys :: "annotation \<Rightarrow> unit result" where
  "check_keys annotation =
     (let keys = map fst annotation in
      if \<not> distinct keys then annotation_fail ''duplicate key''
      else if \<not> list_all (\<lambda>k. k \<in> set (required_keys @ [''producer''])) keys
      then annotation_fail ''unexpected key(s)''
      else if \<not> list_all (\<lambda>k. k \<in> set keys) required_keys then annotation_fail ''missing key(s)''
      else Inr ())"

definition check_schema :: "string \<Rightarrow> string option \<Rightarrow> int result" where
  "check_schema schema_text producer =
     (case py_int schema_text of
        None \<Rightarrow> annotation_fail ''git-ots schema is not an integer''
      | Some schema \<Rightarrow>
          if schema \<noteq> 1 \<and> schema \<noteq> 2 then annotation_fail ''unsupported git-ots schema''
          else if schema = 2 \<and> (producer = None \<or> producer = Some [])
          then annotation_fail ''schema 2 requires a non-empty producer''
          else if schema = 1 \<and> producer \<noteq> None
          then annotation_fail ''schema 1 does not define producer''
          else Inr schema)"

definition check_source :: "string \<Rightarrow> commit_id \<Rightarrow> unit result" where
  "check_source source target =
     (if length source \<notin> set hex_commit_id_lengths \<or> \<not> set source \<subseteq> set hex_digits
      then annotation_fail ''source is not a full lowercase hex commit id''
      else if source \<noteq> target then annotation_fail ''source does not match tag target''
      else Inr ())"

definition check_submitted_at ::
    "(string \<Rightarrow> (int \<times> tzinfo) option) \<Rightarrow> string \<Rightarrow> instant result" where
  "check_submitted_at isofmt submitted_text =
     (let parse_text = (if str_endswith submitted_text ''Z''
        then butlast submitted_text @ ''+00:00'' else submitted_text) in
      case isofmt parse_text of
        None \<Rightarrow> annotation_fail ''submitted-at is not a valid timestamp''
      | Some (t, tz) \<Rightarrow>
          if tz = NaiveTime then annotation_fail ''submitted-at must be timezone-aware'' else Inr t)"

definition check_proof :: "string \<Rightarrow> commit_id \<Rightarrow> unit result" where
  "check_proof proof source =
     (if \<not> str_endswith proof ''.ots'' then annotation_fail ''proof must end with .ots''
      else if \<not> str_contains proof source
      then annotation_fail ''proof does not reference source commit''
      else Inr ())"

definition check_triggers :: "string \<Rightarrow> string list result" where
  "check_triggers triggers_text =
     (let tokens = split_words (map (\<lambda>c. if c = CHR '','' then CHR '' '' else c) triggers_text) in
      if tokens = [] then annotation_fail ''triggers must not be empty''
      else if \<not> set tokens \<subseteq> set KNOWN_TRIGGERS then annotation_fail ''unknown trigger(s)''
      else Inr (trigger_set tokens))"

text \<open>\<open>seen[key]\<close> for a key that \<open>check_keys\<close> found.\<close>

definition field :: "annotation \<Rightarrow> string \<Rightarrow> string" where
  "field annotation key = the (map_of annotation key)"

definition validate_timestamp_tag ::
    "(string \<Rightarrow> (int \<times> tzinfo) option) \<Rightarrow> timestamp_tag \<Rightarrow> validated_annotation result" where
  "validate_timestamp_tag isofmt tag =
     (let a = tag_annotation tag; producer = map_of a ''producer''; source = field a ''source'' in
      bindE (check_keys a) (\<lambda>_.
      bindE (check_schema (field a ''git-ots schema'') producer) (\<lambda>schema.
      bindE (check_source source (tag_commit_id tag)) (\<lambda>_.
      bindE (check_submitted_at isofmt (field a ''submitted-at'')) (\<lambda>t.
      bindE (check_proof (field a ''proof'') source) (\<lambda>_.
      bindE (check_triggers (field a ''triggers'')) (\<lambda>triggers.
      Inr \<lparr>va_schema = schema, va_source = source, va_submitted_at = t,
           va_proof = field a ''proof'', va_triggers = triggers, va_producer = producer\<rparr>)))))))"

section \<open>Enumeration\<close>

text \<open>One record of \<open>git for-each-ref\<close>, its trailing NULs stripped; \<open>None\<close> where it is skipped.\<close>

definition tag_of_record :: "string \<Rightarrow> string \<Rightarrow> timestamp_tag option" where
  "tag_of_record tag_prefix raw =
     (let r = rstrip_chars (\<lambda>c. c = nul) raw in
      if r = [] then None
      else case split_max nul 3 r of
        [name, object_type, target_id, contents] \<Rightarrow>
          if \<not> str_startswith name tag_prefix then None
          else if object_type \<noteq> ''tag'' then None
          else if target_id = [] then None
          else Some \<lparr>tag_name = name, tag_commit_id = target_id,
                 tag_annotation = parse_tag_annotation (strip_signature_block contents)\<rparr>
      | _ \<Rightarrow> None)"

definition tags_of_output :: "string \<Rightarrow> string \<Rightarrow> timestamp_tag list" where
  "tags_of_output tag_prefix out =
     sort_key tag_name (List.map_filter (tag_of_record tag_prefix) (split_pair nul newline out))"

definition enumerate_timestamp_tags :: "'w host \<Rightarrow> string \<Rightarrow> ('w, timestamp_tag list) prog" where
  "enumerate_timestamp_tags h tag_prefix =
     guardP (tag_prefix \<noteq> []) (ValueError ''tag_prefix must not be empty'') (
     bindP (git_out h [''for-each-ref'',
         ''--format=%(refname:short)%00%(objecttype)%00%(*objectname)%00%(contents)%00'',
         ''refs/tags/'']) (\<lambda>out.
     ret (tags_of_output tag_prefix out)))"

section \<open>Creation\<close>

definition timestamp_tag_name :: "string \<Rightarrow> instant \<Rightarrow> commit_id \<Rightarrow> string" where
  "timestamp_tag_name tag_prefix t source = tag_prefix @ compact_z t @ ''/'' @ take 12 source"

definition annotation_lines ::
    "string \<Rightarrow> commit_id \<Rightarrow> instant \<Rightarrow> string \<Rightarrow> string list \<Rightarrow> string list" where
  "annotation_lines version source t proof triggers =
     [''git-ots schema: 2'', ''producer: git-ots '' @ version, ''source: '' @ source,
      ''submitted-at: '' @ rfc3339_z t, ''proof: '' @ proof,
      ''triggers: '' @ join_with '' '' (trigger_set triggers)]"

definition tag_annotation_text ::
    "string \<Rightarrow> commit_id \<Rightarrow> instant \<Rightarrow> string \<Rightarrow> string list \<Rightarrow> string" where
  "tag_annotation_text version source t proof triggers =
     concat (map (\<lambda>l. l @ [newline]) (annotation_lines version source t proof triggers))"

text \<open>\<open>_, body = raw.split("\n\n", 1)\<close>, which raises where there is no empty line.\<close>

definition tag_body :: "string \<Rightarrow> string result" where
  "tag_body raw =
     (case split_pair newline newline raw of
        a # b # ps \<Rightarrow> Inr (join_with [newline, newline] (b # ps))
      | _ \<Rightarrow> Inl (ValueError ''not enough values to unpack''))"

definition create_timestamp_tag ::
    "'w host \<Rightarrow> commit_id \<Rightarrow> string \<Rightarrow> instant \<Rightarrow> string \<Rightarrow> string list \<Rightarrow> string \<Rightarrow> bool \<Rightarrow>
     ('w, string) prog" where
  "create_timestamp_tag h source tag_prefix t proof triggers version sign =
     (let name = timestamp_tag_name tag_prefix t source;
          annotation = tag_annotation_text version source t proof triggers
      in bindP (catchP (bindP (runner_run h [''rev-parse'', ''--verify'', ''refs/tags/'' @ name] None)
             (\<lambda>_. ret True)) is_GitCommandError (\<lambda>_. ret False)) (\<lambda>tag_exists.
         if tag_exists then
           bindP (git_stripped h [''rev-parse'', name @ ''^{commit}'']) (\<lambda>existing_target.
           bindP (catchP (bindP (git_out h [''cat-file'', ''tag'', name]) (\<lambda>raw. liftE (tag_body raw)))
               (\<lambda>e. is_GitCommandError e \<or> is_ValueError e)
               (\<lambda>_. raiseP (InvalidRepositoryStateError ''already exists but is not a valid annotated tag'')))
             (\<lambda>body.
           if existing_target = source \<and> strip_signature_block body = annotation then ret name
           else raiseP (InvalidRepositoryStateError
             ''already exists with a different target or annotation'')))
         else
           catchP (bindP (runner_run h ([''tag'', ''-a''] @ (if sign then [''-s''] else []) @
                 [''-m'', annotation, name, source]) None) (\<lambda>_. ret name))
             is_GitCommandError
             (\<lambda>e. if sign then raiseP e
                  else raiseP (InvalidRepositoryStateError ''cannot create timestamp tag''))))"

section \<open>A created tag is a valid one\<close>

text \<open>A value that stands on a line of its own and is not changed by \<open>strip\<close>.\<close>

definition one_line :: "string \<Rightarrow> bool" where
  "one_line s \<longleftrightarrow> s \<noteq> [] \<and> \<not> is_space (hd s) \<and> \<not> is_space (last s) \<and>
     list_all (\<lambda>c. \<not> is_line_break c) s"

lemma newline_break [simp]: "is_line_break newline"
  by (simp add: is_line_break_def newline_def Let_def)

lemma one_line_strip: "one_line s \<Longrightarrow> strip s = s"
  by (simp add: one_line_def strip_id)

lemma strip_space: "strip (CHR '' '' # s) = strip s"
  by (simp add: strip_def lstrip_def is_space_def Let_def)

lemma annotation_line_pair:
  assumes "CHR '':'' \<notin> set key" "one_line key" "one_line v"
  shows "annotation_line (key @ CHR '':'' # CHR '' '' # v) = Some (key, v)"
proof -
  have "takeWhile (\<lambda>c. c \<noteq> CHR '':'') (key @ '': '' @ v) = key"
    "dropWhile (\<lambda>c. c \<noteq> CHR '':'') (key @ '': '' @ v) = '': '' @ v"
    using assms(1) by (auto simp: takeWhile_append dropWhile_append)
  moreover have "key \<noteq> []" using assms(2) by (simp add: one_line_def)
  ultimately show ?thesis
    using assms(2,3) by (simp add: annotation_line_def partition_char_def strip_space one_line_strip)
qed

lemma annotation_lines_parse:
  assumes "\<forall>(k, v) \<in> set kvs. CHR '':'' \<notin> set k \<and> one_line k \<and> one_line v"
  shows "parse_tag_annotation (concat (map (\<lambda>l. l @ [newline]) (map (\<lambda>(k, v). k @ '': '' @ v) kvs))) = kvs"
proof -
  have "splitlines (concat (map (\<lambda>l. l @ [newline]) (map (\<lambda>(k, v). k @ '': '' @ v) kvs))) =
      map (\<lambda>(k, v). k @ '': '' @ v) kvs"
    using assms by (intro splitlines_lines)
      (fastforce simp: one_line_def list_all_iff is_line_break_def Let_def)
  moreover have "List.map_filter annotation_line (map (\<lambda>(k, v). k @ '': '' @ v) kvs) = kvs"
    using assms by (induction kvs) (auto simp: List.map_filter_simps annotation_line_pair)
  ultimately show ?thesis by (simp add: parse_tag_annotation_def)
qed

text \<open>Stripping keeps lines that do not open an armor, and drops the block after them.\<close>

lemma armor_offset_lines:
  "list_all (\<lambda>l. \<not> is_armor_line l) ls \<Longrightarrow>
     armor_offset (ls @ rest) k = armor_offset rest (k + length (concat (map (\<lambda>l. l @ [newline]) ls)))"
  by (induction ls arbitrary: k) (simp_all add: algebra_simps)

lemma strip_signature_lines:
  assumes "list_all (\<lambda>l. \<not> is_armor_line l \<and> newline \<notin> set l) ls"
    and "sig = [] \<or> (\<exists>armor rest. sig = armor @ newline # rest \<and> is_armor_line armor \<and> newline \<notin> set armor)"
  shows "strip_signature_block (concat (map (\<lambda>l. l @ [newline]) ls) @ sig) =
    concat (map (\<lambda>l. l @ [newline]) ls)"
proof -
  let ?t = "concat (map (\<lambda>l. l @ [newline]) ls)"
  have "split_char newline (?t @ sig) = ls @ split_char newline sig"
    using assms(1) by (intro split_char_lines) (simp add: list_all_iff)
  moreover have "armor_offset (ls @ split_char newline sig) 0 =
      armor_offset (split_char newline sig) (length ?t)"
    using armor_offset_lines [of ls "split_char newline sig" 0] assms(1) by (simp add: list_all_iff)
  moreover have "armor_offset (split_char newline sig) (length ?t) = (if sig = [] then None else Some (length ?t))"
    using assms(2) by (auto simp: split_char_part is_armor_line_def Let_def str_startswith_def)
  ultimately show ?thesis by (simp add: strip_signature_block_def)
qed

lemma not_armor: "l = [] \<or> hd l \<noteq> CHR ''-'' \<Longrightarrow> \<not> is_armor_line l"
  by (cases l) (auto simp: is_armor_line_def Let_def str_startswith_def)

lemma pair_line:
  assumes "one_line k" "one_line v" "hd k \<noteq> CHR ''-''"
  shows "\<not> is_armor_line (k @ '': '' @ v) \<and> newline \<notin> set (k @ '': '' @ v)"
proof
  show "\<not> is_armor_line (k @ '': '' @ v)"
    using assms(1,3) by (intro not_armor) (simp add: one_line_def)
  have "newline \<notin> set k" "newline \<notin> set v"
    using assms(1,2) newline_break unfolding one_line_def list_all_iff by blast+
  then show "newline \<notin> set (k @ '': '' @ v)" by (simp add: newline_def)
qed

lemma join_words_plain:
  assumes "ws \<noteq> []" "\<forall>w \<in> set ws. w \<noteq> [] \<and> (\<forall>c \<in> set w. \<not> is_space c)"
  shows "one_line (join_with '' '' ws) \<and> (\<forall>c \<in> set (join_with '' '' ws). c = CHR '' '' \<or> c \<in> \<Union> (set ` set ws))"
  using assms
proof (induction "'' ''" ws rule: join_with.induct)
  case (2 p)
  then show ?case by (auto simp: one_line_def list_all_iff is_space_def is_line_break_def Let_def)
next
  case (3 p q ps)
  then have IH: "one_line (join_with '' '' (q # ps))"
    "\<forall>c \<in> set (join_with '' '' (q # ps)). c = CHR '' '' \<or> c \<in> \<Union> (set ` set (q # ps))" by simp_all
  have "\<forall>c \<in> set p. \<not> is_line_break c" using 3(3)
    by (auto simp: is_space_def is_line_break_def Let_def)
  then have "list_all (\<lambda>c. \<not> is_line_break c) (p @ '' '' @ join_with '' '' (q # ps))"
    using IH(1) by (auto simp: one_line_def list_all_iff is_line_break_def Let_def)
  then have "one_line (p @ '' '' @ join_with '' '' (q # ps))"
    using IH(1) 3(3) unfolding one_line_def by simp
  with IH(2) show ?case by auto
qed simp

lemma known_trigger_words:
  assumes "set triggers \<subseteq> set KNOWN_TRIGGERS"
  shows "\<forall>w \<in> set triggers. w \<noteq> [] \<and> (\<forall>c \<in> set w. \<not> is_space c \<and> c \<noteq> CHR '','')"
proof -
  have "list_all (\<lambda>w. w \<noteq> [] \<and> list_all (\<lambda>c. \<not> is_space c \<and> c \<noteq> CHR '','') w) KNOWN_TRIGGERS"
    by code_simp
  with assms show ?thesis unfolding list_all_iff by (meson subsetD)
qed

lemma rfc3339_chars: "c \<in> set (rfc3339_z t) \<Longrightarrow> is_digit c \<or> c \<in> set ''-T:Z''"
  by (auto simp: rfc3339_z_def Let_def pad2_def pad4_def dest: zero_padded_digits)

lemma rfc3339_one_line: "one_line (rfc3339_z t)"
proof -
  let ?y = "pad4 (ct_year (civil_time_of t))"
  have y: "?y \<noteq> []" by (simp add: pad4_def zero_padded_nonempty)
  then have "is_digit (hd ?y)" unfolding pad4_def by (meson hd_in_set zero_padded_digits)
  moreover have "hd (rfc3339_z t) = hd ?y" using y by (simp add: rfc3339_z_def Let_def)
  ultimately have "\<not> is_space (hd (rfc3339_z t))" using digit_plain by metis
  moreover have "rfc3339_z t \<noteq> []" "last (rfc3339_z t) = CHR ''Z''"
    by (simp_all add: rfc3339_z_def Let_def)
  moreover have "\<not> is_space (CHR ''Z'')" "\<forall>c \<in> set ''-T:Z''. \<not> is_line_break c" by code_simp+
  ultimately show ?thesis
    using rfc3339_chars digit_plain unfolding one_line_def list_all_iff by metis
qed

definition annotation_pairs ::
    "string \<Rightarrow> commit_id \<Rightarrow> instant \<Rightarrow> string \<Rightarrow> string list \<Rightarrow> annotation" where
  "annotation_pairs version source t proof triggers =
     [(''git-ots schema'', ''2''), (''producer'', ''git-ots '' @ version), (''source'', source),
      (''submitted-at'', rfc3339_z t), (''proof'', proof),
      (''triggers'', join_with '' '' (trigger_set triggers))]"

lemma annotation_lines_pairs:
  "annotation_lines version source t proof triggers =
     map (\<lambda>(k, v). k @ '': '' @ v) (annotation_pairs version source t proof triggers)"
  by (simp add: annotation_lines_def annotation_pairs_def)

lemma trigger_set_words:
  assumes "triggers \<noteq> []" "set triggers \<subseteq> set KNOWN_TRIGGERS"
  shows "one_line (join_with '' '' (trigger_set triggers))"
    and "check_triggers (join_with '' '' (trigger_set triggers)) = Inr (trigger_set triggers)"
proof -
  let ?ts = "trigger_set triggers"
  have s: "set ?ts = set triggers" "trigger_set ?ts = ?ts"
    by (simp_all add: trigger_set_def sorted_sort_id distinct_remdups_id)
  with assms(1) have ne: "?ts \<noteq> []" by (metis set_empty)
  note w = known_trigger_words [of ?ts, unfolded s(1), OF assms(2)]
  with join_words_plain [of ?ts] s ne show "one_line (join_with '' '' ?ts)" by simp
  have "\<forall>c \<in> set (join_with '' '' ?ts). c \<noteq> CHR '',''"
    using join_words_plain [of ?ts] s ne w by fastforce
  then have "map (\<lambda>c. if c = CHR '','' then CHR '' '' else c) (join_with '' '' ?ts) = join_with '' '' ?ts"
    by (simp add: map_idI)
  moreover have "split_words (join_with '' '' ?ts) = ?ts" using w s by (intro split_words_join) auto
  ultimately show "check_triggers (join_with '' '' ?ts) = Inr ?ts"
    using s ne assms(2) by (simp add: check_triggers_def)
qed

lemma hex_digit_plain: "c \<in> set hex_digits \<Longrightarrow> \<not> is_space c \<and> \<not> is_line_break c"
proof -
  have "list_all (\<lambda>c. \<not> is_space c \<and> \<not> is_line_break c) hex_digits" by code_simp
  then show "c \<in> set hex_digits \<Longrightarrow> ?thesis" unfolding list_all_iff by blast
qed

lemma created_annotation_parses:
  assumes "length source \<in> set hex_commit_id_lengths" "set source \<subseteq> set hex_digits"
    and "one_line version" "one_line proof" "triggers \<noteq> []" "set triggers \<subseteq> set KNOWN_TRIGGERS"
    and "sig = [] \<or> (\<exists>armor rest. sig = armor @ newline # rest \<and> is_armor_line armor \<and> newline \<notin> set armor)"
  shows "parse_tag_annotation (strip_signature_block
      (tag_annotation_text version source t proof triggers @ sig)) =
    annotation_pairs version source t proof triggers"
proof -
  let ?kvs = "annotation_pairs version source t proof triggers"
  have "source \<noteq> []" using assms(1) by (auto simp: hex_commit_id_lengths_def)
  then have src: "one_line source"
    using assms(2) hex_digit_plain unfolding one_line_def list_all_iff by (meson hd_in_set last_in_set subsetD)
  have prod: "one_line (''git-ots '' @ version)"
    using assms(3) by (simp add: one_line_def is_space_def is_line_break_def Let_def)
  have keys: "one_line ''git-ots schema'' \<and> one_line ''producer'' \<and> one_line ''source'' \<and>
      one_line ''submitted-at'' \<and> one_line ''proof'' \<and> one_line ''triggers'' \<and> one_line ''2''"
    unfolding one_line_def by code_simp
  have ok: "\<forall>(k, v) \<in> set ?kvs. CHR '':'' \<notin> set k \<and> one_line k \<and> one_line v"
    using src prod keys assms(4) rfc3339_one_line trigger_set_words(1) [OF assms(5,6)]
    by (simp add: annotation_pairs_def)
  have heads: "\<forall>(k, v) \<in> set ?kvs. hd k \<noteq> CHR ''-''" by (simp add: annotation_pairs_def)
  have "\<forall>(k, v) \<in> set ?kvs. \<not> is_armor_line (k @ '': '' @ v) \<and> newline \<notin> set (k @ '': '' @ v)"
    using ok heads pair_line by blast
  then have lines: "list_all (\<lambda>l. \<not> is_armor_line l \<and> newline \<notin> set l) (map (\<lambda>(k, v). k @ '': '' @ v) ?kvs)"
    unfolding list_all_iff by fastforce
  show ?thesis
    unfolding tag_annotation_text_def annotation_lines_pairs strip_signature_lines [OF lines assms(7)]
    by (rule annotation_lines_parse [OF ok])
qed

text \<open>
  C18: the annotation of a tag that \<open>create_timestamp_tag\<close> makes is accepted by
  \<open>validate_timestamp_tag\<close>, with the source, proof, triggers and time it was made from, whether or
  not Git appended an armored signature to it.
\<close>

theorem created_tag_validates:
  assumes "length source \<in> set hex_commit_id_lengths" "set source \<subseteq> set hex_digits"
    and "one_line version" "one_line proof" "str_endswith proof ''.ots''" "str_contains proof source"
    and "triggers \<noteq> []" "set triggers \<subseteq> set KNOWN_TRIGGERS"
    and "isofmt (butlast (rfc3339_z t) @ ''+00:00'') = Some (t', UtcTime)"
    and "sig = [] \<or> (\<exists>armor rest. sig = armor @ newline # rest \<and> is_armor_line armor \<and> newline \<notin> set armor)"
  shows "validate_timestamp_tag isofmt
      \<lparr>tag_name = name, tag_commit_id = source, tag_annotation =
         parse_tag_annotation (strip_signature_block
           (tag_annotation_text version source t proof triggers @ sig))\<rparr> =
    Inr \<lparr>va_schema = 2, va_source = source, va_submitted_at = t', va_proof = proof,
      va_triggers = trigger_set triggers, va_producer = Some (''git-ots '' @ version)\<rparr>"
proof -
  have z: "str_endswith (rfc3339_z t) ''Z''"
    by (simp add: rfc3339_z_def Let_def endswith_Cons endswith_add)
  have schema: "check_schema ''2'' (Some (''git-ots '' @ version)) = Inr 2"
    by (simp add: check_schema_def py_int_def strip_def lstrip_def rstrip_chars_def py_nat_def
        is_digit_def digit_val_def is_space_def)
  show ?thesis
    unfolding created_annotation_parses [OF assms(1,2,3,4,7,8,10)]
    using assms(1,2,5,6,9) z schema trigger_set_words(2) [OF assms(7,8)]
    by (simp add: validate_timestamp_tag_def annotation_pairs_def field_def check_keys_def
        required_keys_def check_source_def check_submitted_at_def check_proof_def Let_def)
qed

lemma created_tag_validates_witness:
  "validate_timestamp_tag (\<lambda>_. Some (0, UtcTime))
      \<lparr>tag_name = ''ots/x'', tag_commit_id = replicate 40 (CHR ''a''), tag_annotation =
         parse_tag_annotation (strip_signature_block
           (tag_annotation_text ''1'' (replicate 40 (CHR ''a'')) 0 (replicate 40 (CHR ''a'') @ ''.ots'')
              [''max_age''] @ ''-----BEGIN SSH SIGNATURE-----'' @ newline # ''Comment: x''))\<rparr> =
    Inr \<lparr>va_schema = 2, va_source = replicate 40 (CHR ''a''), va_submitted_at = 0,
      va_proof = replicate 40 (CHR ''a'') @ ''.ots'', va_triggers = trigger_set [''max_age''],
      va_producer = Some (''git-ots '' @ ''1'')\<rparr>"
proof (rule created_tag_validates)
  show "''-----BEGIN SSH SIGNATURE-----'' @ newline # ''Comment: x'' = [] \<or> (\<exists>armor rest.
      ''-----BEGIN SSH SIGNATURE-----'' @ newline # ''Comment: x'' = armor @ newline # rest \<and>
      is_armor_line armor \<and> newline \<notin> set armor)"
  proof (intro disjI2 exI conjI)
    show "is_armor_line ''-----BEGIN SSH SIGNATURE-----''" by code_simp
  qed (rule refl, simp add: newline_def)
  show "(\<lambda>_. Some (0, UtcTime)) (butlast (rfc3339_z 0) @ ''+00:00'') = Some (0, UtcTime)" by simp
  show "str_contains (replicate 40 (CHR ''a'') @ ''.ots'') (replicate 40 (CHR ''a''))" by code_simp
  show "one_line (replicate 40 (CHR ''a'') @ ''.ots'')" by code_simp
qed (simp_all add: one_line_def is_space_def is_line_break_def hex_commit_id_lengths_def hex_digits_def
  KNOWN_TRIGGERS_def str_endswith_def)

end
