(* ===== verification/GitObjects.thy ===== *)
theory GitObjects
  imports GitTags
begin

text \<open>
  \<open>git.py\<close>, the commits the tool makes: proof commits, upgrade commits, and folding an upgrade into
  the upgrade commit at \<open>HEAD\<close>. Informational log lines are left out.
\<close>

section \<open>Messages\<close>

definition generated_line :: string where
  "generated_line = generated_trailer_key @ '': '' @ generated_trailer_value"

definition trailer_block :: "string \<Rightarrow> commit_id list \<Rightarrow> string list" where
  "trailer_block key ids = generated_line # map (\<lambda>sid. key @ '': '' @ sid) ids"

definition message_of :: "string \<Rightarrow> string list \<Rightarrow> string" where
  "message_of subject body_lines =
     subject @ [newline, newline] @ join_with [newline] body_lines @ [newline]"

definition proof_commit_message :: "commit_id list \<Rightarrow> string" where
  "proof_commit_message ids =
     message_of
       (case ids of [sid] \<Rightarrow> ''Store OpenTimestamps proof for '' @ take 12 sid
        | _ \<Rightarrow> ''Store OpenTimestamps proofs'')
       (trailer_block source_trailer_key ids)"

definition upgrade_commit_message :: "commit_id list \<Rightarrow> string" where
  "upgrade_commit_message ids =
     message_of
       (case ids of [sid] \<Rightarrow> ''Upgrade OpenTimestamps proof for '' @ take 12 sid
        | _ \<Rightarrow> ''Upgrade '' @ nat_str (length ids) @ '' OpenTimestamps proofs'')
       (trailer_block upgraded_trailer_key ids)"

section \<open>New commits\<close>

definition check_commit_arguments ::
    "string \<Rightarrow> commit_id list \<Rightarrow> path list \<Rightarrow> unit result" where
  "check_commit_arguments proof_directory ids paths =
     guardE (proof_directory \<noteq> []) (ValueError ''proof_directory must not be empty'') (
     guardE (ids \<noteq> []) (ValueError ''source_commit_ids must not be empty'') (
     guardE ([] \<notin> set ids) (ValueError ''source_commit_ids must not contain empty values'') (
     guardE (paths \<noteq> []) (ValueError ''paths must not be empty'') (
     guardE ([] \<notin> set paths) (ValueError ''paths must not contain empty values'') (Inr ())))))"

definition commit_argv :: "string list \<Rightarrow> bool \<Rightarrow> string \<Rightarrow> path list \<Rightarrow> string list" where
  "commit_argv flags sign message paths =
     [''commit'', ''-q''] @ flags @ (if sign then [''-S''] else []) @ [''-m'', message, ''--''] @ paths"

definition create_generated_proof_commit ::
    "'w host \<Rightarrow> commit_id list \<Rightarrow> string \<Rightarrow> path list \<Rightarrow> bool \<Rightarrow> int option \<Rightarrow> ('w, commit_id) prog" where
  "create_generated_proof_commit h ids proof_directory paths sign retry_window =
     bindP (liftE (check_commit_arguments proof_directory ids paths)) (\<lambda>_.
     bindP (run_with_index_lock_retry h
         (commit_argv [] sign (proof_commit_message ids) paths) retry_window (ret ())) (\<lambda>_.
     git_stripped h [''rev-parse'', ''HEAD'']))"

definition create_upgrade_commit ::
    "'w host \<Rightarrow> commit_id list \<Rightarrow> string \<Rightarrow> path list \<Rightarrow> bool \<Rightarrow> int option \<Rightarrow> ('w, commit_id) prog" where
  "create_upgrade_commit h ids proof_directory paths sign retry_window =
     bindP (liftE (check_commit_arguments proof_directory ids paths)) (\<lambda>_.
     bindP (run_with_index_lock_retry h
         (commit_argv [] sign (upgrade_commit_message ids) paths) retry_window (ret ())) (\<lambda>_.
     git_stripped h [''rev-parse'', ''HEAD'']))"

section \<open>Finding a commit to fold into\<close>

record squash_target =
  st_commit_id :: commit_id
  st_source_commit_ids :: "commit_id list"

definition signature_headers :: "string \<Rightarrow> bool" where
  "signature_headers raw =
     list_ex (\<lambda>line. str_startswith line ''gpgsig '' \<or> str_startswith line ''gpgsig-sha256 '')
       (splitlines (hd (split_pair newline newline raw)))"

definition commit_is_signed :: "'w host \<Rightarrow> string \<Rightarrow> ('w, bool) prog" where
  "commit_is_signed h commit =
     bindP (git_out h [''cat-file'', ''commit'', commit]) (\<lambda>raw. ret (signature_headers raw))"

definition amend_would_drop_a_signature :: "'w host \<Rightarrow> string \<Rightarrow> bool \<Rightarrow> ('w, bool) prog" where
  "amend_would_drop_a_signature h commit sign =
     bindP (commit_is_signed h commit) (\<lambda>signed.
       if \<not> signed then ret False
       else if sign then ret False
       else catchP
         (bindP (git_stripped h [''config'', ''--type=bool'', ''--get'', ''commit.gpgsign''])
            (\<lambda>ambient. ret (ambient \<noteq> ''true'')))
         is_GitCommandError
         (\<lambda>e. if exc_exit_code e = 1 then ret True else raiseP e))"

definition is_published :: "'w host \<Rightarrow> string \<Rightarrow> ('w, bool) prog" where
  "is_published h commit =
     bindP (git_stripped h [''rev-list'', ''--max-count=1'', commit, ''--not'', ''--remotes''])
       (\<lambda>out. ret (out = []))"

definition without_final_newlines :: "string \<Rightarrow> string" where
  "without_final_newlines s = rstrip_chars (\<lambda>c. c = newline) s"

definition find_squashable_upgrade_commit ::
    "'w host \<Rightarrow> string \<Rightarrow> string \<Rightarrow> bool \<Rightarrow> ('w, squash_target option) prog" where
  "find_squashable_upgrade_commit h proof_directory commit sign =
     bindP (liftE (validate_proof_directory proof_directory)) (\<lambda>_.
     bindP (verify_commit h ''cannot resolve commit while looking for a squash target'' commit) (\<lambda>cid.
     bindP (read_message_and_trailers h cid) (\<lambda>(message, trailer_lines).
     let upgraded = trailer_values trailer_lines upgraded_trailer_key in
     if upgraded = [] then ret None
     else if without_final_newlines message \<noteq> without_final_newlines (upgrade_commit_message upgraded)
     then ret None
     else
       bindP (list_changed_paths h cid) (\<lambda>changed.
       if paths_outside proof_directory changed \<noteq> [] then ret None
       else
         bindP (get_commit_parents h cid) (\<lambda>parents.
         if length parents \<noteq> 1 then ret None
         else
           bindP (amend_would_drop_a_signature h cid sign) (\<lambda>dropped.
           if dropped
           then bindP (doP (log_warning h ''Not squashing: the commit is signed'')) (\<lambda>_. ret None)
           else
             bindP (is_published h cid) (\<lambda>published.
             if published
             then bindP (doP (log_warning h ''Not squashing: the commit is published'')) (\<lambda>_. ret None)
             else ret (Some \<lparr>st_commit_id = cid, st_source_commit_ids = upgraded\<rparr>))))))))"

section \<open>Folding\<close>

definition check_head :: "'w host \<Rightarrow> commit_id \<Rightarrow> ('w, unit) prog" where
  "check_head h expected_head =
     bindP (git_stripped h [''rev-parse'', ''--verify'', ''HEAD^{commit}'']) (\<lambda>current_head.
       if current_head \<noteq> expected_head
       then raiseP (InvalidRepositoryStateError ''refusing to amend: HEAD moved'')
       else ret ())"

definition check_amend_arguments ::
    "string \<Rightarrow> commit_id \<Rightarrow> commit_id list \<Rightarrow> commit_id list \<Rightarrow> path list \<Rightarrow> unit result" where
  "check_amend_arguments proof_directory expected_head previous ids paths =
     guardE (proof_directory \<noteq> []) (ValueError ''proof_directory must not be empty'') (
     guardE (expected_head \<noteq> []) (ValueError ''expected_head must not be empty'') (
     guardE (ids \<noteq> []) (ValueError ''source_commit_ids must not be empty'') (
     guardE ([] \<notin> set ids) (ValueError ''source_commit_ids must not contain empty values'') (
     guardE ([] \<notin> set previous)
       (ValueError ''previous_source_commit_ids must not contain empty values'') (
     guardE (paths \<noteq> []) (ValueError ''paths must not be empty'') (
     guardE ([] \<notin> set paths) (ValueError ''paths must not contain empty values'') (Inr ())))))))"

definition amend_upgrade_commit ::
    "'w host \<Rightarrow> commit_id \<Rightarrow> commit_id list \<Rightarrow> commit_id list \<Rightarrow> string \<Rightarrow> path list \<Rightarrow> bool \<Rightarrow>
     int option \<Rightarrow> ('w, commit_id) prog" where
  "amend_upgrade_commit h expected_head previous ids proof_directory paths sign retry_window =
     bindP (liftE (check_amend_arguments proof_directory expected_head previous ids paths)) (\<lambda>_.
     bindP (run_with_index_lock_retry h
         (commit_argv [''--amend''] sign (upgrade_commit_message (dedup (previous @ ids))) paths)
         retry_window (check_head h expected_head)) (\<lambda>_.
     git_stripped h [''rev-parse'', ''HEAD'']))"


section \<open>Messages read back\<close>

lemma trailer_values_simps [simp]:
  "trailer_values [] key = []"
  "trailer_values ((key @ CHR '':'' # CHR '' '' # v) # ls) key = strip v # trailer_values ls key"
  "\<not> str_startswith l (key @ '': '') \<Longrightarrow> trailer_values (l # ls) key = trailer_values ls key"
  by (simp_all add: trailer_values_def Let_def str_startswith_def)

lemma trailer_keys_differ:
  "\<not> str_startswith generated_line (upgraded_trailer_key @ '': '')"
  "\<not> str_startswith generated_line (source_trailer_key @ '': '')"
  "\<not> str_startswith (upgraded_trailer_key @ '': '' @ sid) (source_trailer_key @ '': '')"
  "\<not> str_startswith (source_trailer_key @ '': '' @ sid) (upgraded_trailer_key @ '': '')"
  by (simp_all add: str_startswith_def generated_line_def generated_trailer_key_def
      generated_trailer_value_def upgraded_trailer_key_def source_trailer_key_def)

lemma trailer_block_values:
  assumes "\<forall>sid \<in> set ids. one_line sid"
  shows "trailer_values (trailer_block upgraded_trailer_key ids) upgraded_trailer_key = ids"
    and "trailer_values (trailer_block upgraded_trailer_key ids) source_trailer_key = []"
    and "trailer_values (trailer_block source_trailer_key ids) source_trailer_key = ids"
  using assms unfolding trailer_block_def
  by (induction ids) (simp_all add: trailer_keys_differ [simplified] one_line_strip)

lemma message_of_lines:
  assumes "list_all (\<lambda>c. \<not> is_line_break c) subject" "subject \<noteq> []"
    and "\<forall>l \<in> set body. list_all (\<lambda>c. \<not> is_line_break c) l" "body \<noteq> []"
  shows "splitlines (message_of subject body) = subject # [] # body"
proof -
  have "message_of subject body = concat (map (\<lambda>l. l @ [newline]) (subject # [] # body))"
    using assms(4) by (induction body rule: induct_list012) (auto simp: message_of_def)
  then show ?thesis
    using splitlines_lines [of "subject # [] # body"] assms(1,3) by (simp add: list_all_iff)
qed

lemma plain_append: "list_all (\<lambda>c. \<not> is_line_break c) (x @ y) \<longleftrightarrow>
    list_all (\<lambda>c. \<not> is_line_break c) x \<and> list_all (\<lambda>c. \<not> is_line_break c) y"
  by simp

lemma plain_constants:
  "list_all (\<lambda>c. \<not> is_line_break c) ''Upgrade OpenTimestamps proof for ''"
  "list_all (\<lambda>c. \<not> is_line_break c) ''Store OpenTimestamps proof for ''"
  "list_all (\<lambda>c. \<not> is_line_break c) ''Store OpenTimestamps proofs''"
  "list_all (\<lambda>c. \<not> is_line_break c) ''Upgrade ''"
  "list_all (\<lambda>c. \<not> is_line_break c) '' OpenTimestamps proofs''"
  "list_all (\<lambda>c. \<not> is_line_break c) (upgraded_trailer_key @ '': '')"
  "list_all (\<lambda>c. \<not> is_line_break c) (source_trailer_key @ '': '')"
  "list_all (\<lambda>c. \<not> is_line_break c) generated_line"
  by code_simp+

lemma plain_take: "list_all P s \<Longrightarrow> list_all P (take n s)"
  unfolding list_all_iff by (meson in_set_takeD)

lemma message_lines:
  assumes "\<forall>sid \<in> set ids. one_line sid"
  shows "\<exists>subject. splitlines (upgrade_commit_message ids) =
      subject # [] # trailer_block upgraded_trailer_key ids"
    and "\<exists>subject. splitlines (proof_commit_message ids) =
      subject # [] # trailer_block source_trailer_key ids"
proof -
  have p: "list_all (\<lambda>c. \<not> is_line_break c) sid" if "sid \<in> set ids" for sid
    using assms that by (simp add: one_line_def)
  then have b: "\<forall>l \<in> set (trailer_block key ids). list_all (\<lambda>c. \<not> is_line_break c) l"
    if "list_all (\<lambda>c. \<not> is_line_break c) (key @ '': '')" for key
    using that plain_constants(8) by (auto simp: trailer_block_def)
  have ne: "trailer_block key ids \<noteq> []" for key by (simp add: trailer_block_def)
  have d: "list_all (\<lambda>c. \<not> is_line_break c) (nat_str n)" for n
    using nat_str_digits digit_plain unfolding list_all_iff by blast
  have "list_all (\<lambda>c. \<not> is_line_break c)
      (case ids of [sid] \<Rightarrow> ''Upgrade OpenTimestamps proof for '' @ take 12 sid
        | _ \<Rightarrow> ''Upgrade '' @ nat_str (length ids) @ '' OpenTimestamps proofs'')"
    using p d plain_constants by (auto simp: plain_take split: list.split)
  from message_of_lines [OF this _ b [OF plain_constants(6)] ne]
  show "\<exists>subject. splitlines (upgrade_commit_message ids) =
      subject # [] # trailer_block upgraded_trailer_key ids"
    unfolding upgrade_commit_message_def by (auto split: list.splits)
  have "list_all (\<lambda>c. \<not> is_line_break c)
      (case ids of [sid] \<Rightarrow> ''Store OpenTimestamps proof for '' @ take 12 sid
        | _ \<Rightarrow> ''Store OpenTimestamps proofs'')"
    using p plain_constants by (auto simp: plain_take split: list.split)
  from message_of_lines [OF this _ b [OF plain_constants(7)] ne]
  show "\<exists>subject. splitlines (proof_commit_message ids) =
      subject # [] # trailer_block source_trailer_key ids"
    unfolding proof_commit_message_def by (auto split: list.splits)
qed

text \<open>
  C30: the trailers of the messages the tool writes are read back: the lines after the subject and
  the empty line name the upgraded commits of an upgrade commit and no source, and the sources of
  a proof commit, in order, and both carry the generated trailer.
\<close>

theorem messages_read_back:
  assumes "\<forall>sid \<in> set ids. one_line sid"
  shows "trailer_values (drop 2 (splitlines (upgrade_commit_message ids))) upgraded_trailer_key = ids \<and>
    trailer_values (drop 2 (splitlines (upgrade_commit_message ids))) source_trailer_key = [] \<and>
    list_ex is_generated_line (drop 2 (splitlines (upgrade_commit_message ids))) \<and>
    trailer_values (drop 2 (splitlines (proof_commit_message ids))) source_trailer_key = ids \<and>
    list_ex is_generated_line (drop 2 (splitlines (proof_commit_message ids)))"
proof -
  have g: "list_ex is_generated_line (trailer_block key ids)" for key
    by (simp add: trailer_block_def is_generated_line_def generated_line_def str_startswith_def)
  obtain s1 s2 where
    "splitlines (upgrade_commit_message ids) = s1 # [] # trailer_block upgraded_trailer_key ids"
    "splitlines (proof_commit_message ids) = s2 # [] # trailer_block source_trailer_key ids"
    using message_lines [OF assms] by blast
  then show ?thesis using trailer_block_values [OF assms] g by simp
qed

lemma messages_read_back_witness:
  "trailer_values (drop 2 (splitlines (upgrade_commit_message [''ab'', ''cd'']))) upgraded_trailer_key =
     [''ab'', ''cd'']"
  using messages_read_back [of "[''ab'', ''cd'']"]
  by (simp add: one_line_def is_space_def is_line_break_def)

section \<open>Amending\<close>

text \<open>
  C28: when \<open>amend_upgrade_commit\<close> returns, the amending command ran in the state in which \<open>HEAD\<close> had
  just been read as the expected commit, with a message that names every commit the folded one
  claimed and every new one.
\<close>

theorem amend_only_expected_head:
  assumes "amend_upgrade_commit h expected_head previous ids d paths sign window w = (Inr cid, w')"
  shows "\<exists>message w1 w2 w3 s.
    git_stripped h [''rev-parse'', ''--verify'', ''HEAD^{commit}''] w1 = (Inr expected_head, w2) \<and>
    runner_run h (commit_argv [''--amend''] sign message paths) None w2 = (Inr s, w3) \<and>
    git_stripped h [''rev-parse'', ''HEAD''] w3 = (Inr cid, w') \<and>
    ((\<forall>sid \<in> set previous \<union> set ids. one_line sid) \<longrightarrow>
       set (trailer_values (drop 2 (splitlines message)) upgraded_trailer_key) = set previous \<union> set ids)"
proof -
  let ?m = "upgrade_commit_message (dedup (previous @ ids))"
  from assms obtain s w2 where
    r: "run_with_index_lock_retry h (commit_argv [''--amend''] sign ?m paths) window
        (check_head h expected_head) w = (Inr s, w2)" and
    l: "git_stripped h [''rev-parse'', ''HEAD''] w2 = (Inr cid, w')"
    by (auto simp: amend_upgrade_commit_def bindP_Inr_iff liftE_def)
  from retry_success [OF r] obtain w3 w4 where
    "check_head h expected_head w3 = (Inr (), w4)"
    "runner_run h (commit_argv [''--amend''] sign ?m paths) None w4 = (Inr s, w2)" by blast
  moreover from this(1)
  have "git_stripped h [''rev-parse'', ''--verify'', ''HEAD^{commit}''] w3 = (Inr expected_head, w4)"
    by (auto simp: check_head_def bindP_Inr_iff split: if_splits)
  moreover have "set (trailer_values (drop 2 (splitlines ?m)) upgraded_trailer_key) = set previous \<union> set ids"
    if "\<forall>sid \<in> set previous \<union> set ids. one_line sid"
    using message_lines(1) [of "dedup (previous @ ids)"] trailer_block_values(1) [of "dedup (previous @ ids)"] that
    by auto
  ultimately show ?thesis using l by blast
qed

text \<open>
  When \<open>HEAD\<close> has left the commit the fold was decided for, \<open>amend_upgrade_commit\<close> raises after
  reading it, in the state that read left: no commit is run.
\<close>

theorem amend_refuses_moved_head:
  assumes "git_stripped h [''rev-parse'', ''--verify'', ''HEAD^{commit}''] w = (Inr now, w1)" "now \<noteq> expected_head"
    and "check_amend_arguments d expected_head previous ids paths = Inr ()"
  shows "amend_upgrade_commit h expected_head previous ids d paths sign window w =
    (Inl (InvalidRepositoryStateError ''refusing to amend: HEAD moved''), w1)"
proof -
  have c: "check_head h expected_head w = (Inl (InvalidRepositoryStateError ''refusing to amend: HEAD moved''), w1)"
    using assms(1,2) by (simp add: check_head_def bindP_def raiseP_def)
  have "retry_loop h (retry_fuel k) args deadline (check_head h expected_head) b w =
      (Inl (InvalidRepositoryStateError ''refusing to amend: HEAD moved''), w1)" for k args deadline b
    using c by (simp add: retry_fuel_def bindP_def numeral_3_eq_3)
  then show ?thesis
    using assms(3) c by (simp add: amend_upgrade_commit_def run_with_index_lock_retry_def bindP_def liftE_def
        askP_def split: option.split)
qed

definition head_at :: "commit_id \<Rightarrow> answers" where
  "head_at cid = (\<lambda>_ _. (0, cid, []))"

lemma head_at_read: "git_stripped (git_host (head_at ''ab'')) args w = (Inr ''ab'', w)"
proof -
  have "git_out (git_host (head_at ''ab'')) args w = (Inr ''ab'', w)"
    by (simp add: git_out_fixed [OF fixed_git_host] answer_code_def answer_text_def head_at_def)
  then show ?thesis by (simp add: git_stripped_def bindP_def strip_id is_space_def)
qed

lemma example_amend:
  "amend_upgrade_commit (git_host (head_at ''ab'')) ''ab'' [''c''] [''d''] ''ots'' [''ots/d''] False None w =
     (Inr ''ab'', w)"
proof -
  have "runner_run (git_host (head_at ''ab'')) args None w =
      (Inr \<lparr>argv = ''git'' # args, exit_code = 0, stdout = ''ab'', stderr = []\<rparr>, w)" for args w
    by (simp add: runner_run_Inr_iff git_host_def head_at_def)
  then show ?thesis
    by (simp add: amend_upgrade_commit_def check_amend_arguments_def run_with_index_lock_retry_def
        check_head_def head_at_read bindP_def liftE_def)
qed

lemma amend_only_expected_head_witness:
  "\<exists>message w1 w2 w3 s.
    git_stripped (git_host (head_at ''ab'')) [''rev-parse'', ''--verify'', ''HEAD^{commit}''] w1 = (Inr ''ab'', w2) \<and>
    runner_run (git_host (head_at ''ab'')) (commit_argv [''--amend''] False message [''ots/d'']) None w2 = (Inr s, w3)"
  using amend_only_expected_head [OF example_amend [of "[]"]] by blast

lemma amend_refuses_moved_head_witness:
  "amend_upgrade_commit (git_host (head_at ''ab'')) ''cd'' [''c''] [''d''] ''ots'' [''ots/d''] False (Some 5) [] =
     (Inl (InvalidRepositoryStateError ''refusing to amend: HEAD moved''), [])"
  by (rule amend_refuses_moved_head [OF head_at_read]) (simp_all add: check_amend_arguments_def)

section \<open>Folding loses nothing\<close>

lemma verify_commit_fixed:
  assumes "fixed_git h g"
  shows "verify_commit h m name w = (Inr x, w') \<longleftrightarrow>
    w' = w \<and> answer_code g [''rev-parse'', ''--verify'', name @ ''^{commit}''] = 0 \<and>
    x = strip (answer_text g [''rev-parse'', ''--verify'', name @ ''^{commit}''])"
  by (auto simp: verify_commit_def catchP_Inr_iff git_stripped_def bindP_Inr_iff git_out_fixed [OF assms])

text \<open>
  C29: the commit a new upgrade may be folded into. On a repository that does not change meanwhile,
  a target that \<open>find_squashable_upgrade_commit\<close> returns has an upgrade commit's message word for
  word, changes nothing outside the proof directory, has one parent, is on no remote, and its
  signature, if it has one, is made again.
\<close>

theorem squash_target_sound:
  assumes "fixed_git h g" "find_squashable_upgrade_commit h d commit sign w = (Inr (Some t), w')"
  shows "st_commit_id t = strip (answer_text g [''rev-parse'', ''--verify'', commit @ ''^{commit}'']) \<and>
    without_final_newlines (answer_text g [''log'', ''-1'', ''--format=%B'', st_commit_id t]) =
      without_final_newlines (upgrade_commit_message (st_source_commit_ids t)) \<and>
    (\<forall>p \<in> set (split_char nul (answer_text g [''diff-tree'', ''--root'', ''-r'', ''--no-commit-id'',
        ''--no-renames'', ''--name-only'', ''-z'', st_commit_id t])). p = [] \<or> str_startswith p (d @ ''/'')) \<and>
    length (split_words (strip (answer_text g [''rev-list'', ''--parents'', ''-n'', ''1'', st_commit_id t]))) = 2 \<and>
    (signature_headers (answer_text g [''cat-file'', ''commit'', st_commit_id t]) \<longrightarrow> sign \<or>
       strip (answer_text g [''config'', ''--type=bool'', ''--get'', ''commit.gpgsign'']) = ''true'') \<and>
    strip (answer_text g [''rev-list'', ''--max-count=1'', st_commit_id t, ''--not'', ''--remotes'']) \<noteq> []"
proof -
  note git = git_out_fixed [OF assms(1)] verify_commit_fixed [OF assms(1)]
  from assms(2) obtain message ls changed parents w1 w2 w3 w4 w5 where
    cid: "verify_commit h ''cannot resolve commit while looking for a squash target'' commit w = (Inr (st_commit_id t), w1)" and
    msg: "read_message_and_trailers h (st_commit_id t) w1 = (Inr (message, ls), w2)" and
    eq: "without_final_newlines message = without_final_newlines (upgrade_commit_message (st_source_commit_ids t))" and
    ch: "list_changed_paths h (st_commit_id t) w2 = (Inr changed, w3)" "paths_outside d changed = []" and
    pa: "get_commit_parents h (st_commit_id t) w3 = (Inr parents, w4)" "length parents = 1" and
    sg: "amend_would_drop_a_signature h (st_commit_id t) sign w4 = (Inr False, w5)" and
    pb: "is_published h (st_commit_id t) w5 = (Inr False, w')"
    unfolding find_squashable_upgrade_commit_def
    by (auto simp: bindP_Inr_iff liftE_def Let_def split: if_splits)
  show ?thesis
  proof (intro conjI)
    show "st_commit_id t = strip (answer_text g [''rev-parse'', ''--verify'', commit @ ''^{commit}''])"
      using cid by (simp add: git)
    show "without_final_newlines (answer_text g [''log'', ''-1'', ''--format=%B'', st_commit_id t]) =
        without_final_newlines (upgrade_commit_message (st_source_commit_ids t))"
      using msg eq by (auto simp: read_message_and_trailers_def bindP_Inr_iff git)
    show "\<forall>p \<in> set (split_char nul (answer_text g [''diff-tree'', ''--root'', ''-r'', ''--no-commit-id'',
        ''--no-renames'', ''--name-only'', ''-z'', st_commit_id t])). p = [] \<or> str_startswith p (d @ ''/'')"
      using ch by (auto simp: list_changed_paths_def bindP_Inr_iff git paths_outside_def filter_empty_conv)
    show "length (split_words (strip (answer_text g [''rev-list'', ''--parents'', ''-n'', ''1'', st_commit_id t]))) = 2"
      using pa by (auto simp: get_commit_parents_def bindP_Inr_iff git git_stripped_def split: if_splits)
    show "strip (answer_text g [''rev-list'', ''--max-count=1'', st_commit_id t, ''--not'', ''--remotes'']) \<noteq> []"
      using pb by (auto simp: is_published_def bindP_Inr_iff git git_stripped_def)
    show "signature_headers (answer_text g [''cat-file'', ''commit'', st_commit_id t]) \<longrightarrow> sign \<or>
        strip (answer_text g [''config'', ''--type=bool'', ''--get'', ''commit.gpgsign'']) = ''true''"
      using sg by (auto simp: amend_would_drop_a_signature_def commit_is_signed_def bindP_Inr_iff catchP_Inr_iff
          git git_stripped_def split: if_splits)
  qed
qed

definition fold_answers :: answers where
  "fold_answers args inp = (0,
     (if hd args = ''log'' then upgrade_commit_message [''ab'']
      else if hd args = ''interpret-trailers''
      then join_with [newline] (trailer_block upgraded_trailer_key [''ab''])
      else if hd args = ''diff-tree'' then ''ots/ab.ots'' @ [nul]
      else if args ! 1 = ''--parents'' then ''c1 p1''
      else if hd args = ''cat-file'' then ''tree t''
      else ''c1''), [])"

lemma fold_example:
  "find_squashable_upgrade_commit (git_host fold_answers) ''ots'' ''HEAD'' False [] =
     (Inr (Some \<lparr>st_commit_id = ''c1'', st_source_commit_ids = [''ab'']\<rparr>), [])"
  by code_simp

lemma squash_target_sound_witness:
  "strip (answer_text fold_answers [''rev-list'', ''--max-count=1'', ''c1'', ''--not'', ''--remotes'']) \<noteq> []"
  using squash_target_sound [OF fixed_git_host fold_example] unfolding squash_target.select_convs by blast

end
