(* ===== verification/GitBaseline.thy ===== *)
theory GitBaseline
  imports GitTags "HOL-Library.Product_Lexorder"
begin

text \<open>
  \<open>git.py\<close>, the search for the newest timestamped commit of a lineage: reading the trees of commits,
  validating the manifests in them, and the competition of tags and proof commits.
\<close>

section \<open>Baselines\<close>

datatype baseline_kind = TAG | PROOF_COMMIT

fun baseline_kind_rank :: "baseline_kind \<Rightarrow> nat" where
  "baseline_kind_rank TAG = 0"
| "baseline_kind_rank PROOF_COMMIT = 1"

record timestamp_baseline =
  tb_source_commit_id :: commit_id
  tb_submitted_at :: instant
  tb_triggers :: "string list"
  tb_tag_name :: string
  tb_proof_commit_id :: "commit_id option"
  tb_kind :: baseline_kind

definition baseline_sort_key :: "timestamp_baseline \<Rightarrow> instant \<times> nat \<times> string \<times> string" where
  "baseline_sort_key b =
     (tb_submitted_at b, baseline_kind_rank (tb_kind b), tb_source_commit_id b, tb_tag_name b)"

record lineage_baseline_result =
  lb_baseline :: "timestamp_baseline option"
  lb_has_abandoned_tags :: bool

section \<open>Reading trees\<close>

definition read_tree_text :: "'w host \<Rightarrow> commit_id \<Rightarrow> path \<Rightarrow> ('w, string option) prog" where
  "read_tree_text h commit p =
     catchP (bindP (git_out h [''show'', commit @ '':'' @ p]) (\<lambda>text.
         ret (if utf8_valid (text_bytes text) then Some text else None)))
       is_GitCommandError (\<lambda>_. ret None)"

definition read_tree_bytes :: "'w host \<Rightarrow> commit_id \<Rightarrow> path \<Rightarrow> ('w, bytes option) prog" where
  "read_tree_bytes h commit p =
     catchP (bindP (runner_run_bytes h [''show'', commit @ '':'' @ p] None)
         (\<lambda>s. ret (Some (stdout_bytes s))))
       is_GitCommandError (\<lambda>_. ret None)"

definition proof_paths_of :: "string \<Rightarrow> string \<Rightarrow> path list" where
  "proof_paths_of proof_directory out =
     sort (remdups (filter (\<lambda>entry. str_startswith entry (proof_directory @ ''/'')) (split_char nul out)))"

definition list_tree_proof_paths :: "'w host \<Rightarrow> commit_id \<Rightarrow> string \<Rightarrow> ('w, path list) prog" where
  "list_tree_proof_paths h commit proof_directory =
     catchP (bindP (git_out h [''ls-tree'', ''-r'', ''-z'', ''--name-only'', commit, ''--'',
           proof_directory @ ''/''])
         (\<lambda>out. ret (proof_paths_of proof_directory out)))
       is_GitCommandError (\<lambda>_. ret [])"

definition list_tree_json_manifests :: "'w host \<Rightarrow> commit_id \<Rightarrow> string \<Rightarrow> ('w, path list) prog" where
  "list_tree_json_manifests h commit proof_directory =
     bindP (list_tree_proof_paths h commit proof_directory) (\<lambda>paths.
       ret (filter (\<lambda>p. str_endswith p ''.json'') paths))"

definition is_ancestor_commit :: "'w host \<Rightarrow> commit_id \<Rightarrow> commit_id \<Rightarrow> ('w, bool) prog" where
  "is_ancestor_commit h source frozen =
     catchP (bindP (runner_run h [''merge-base'', ''--is-ancestor'', source, frozen] None) (\<lambda>_. ret True))
       is_GitCommandError (\<lambda>_. ret False)"

definition find_generated_proof_commit_ancestors :: "'w host \<Rightarrow> commit_id \<Rightarrow> ('w, commit_id list) prog" where
  "find_generated_proof_commit_ancestors h source =
     catchP (log_generated_trailer_commit_ids h source) is_GitCommandError (\<lambda>_. ret [])"

definition has_generated_proof_commits_in_history :: "'w host \<Rightarrow> commit_id \<Rightarrow> ('w, bool) prog" where
  "has_generated_proof_commits_in_history h source =
     bindP (find_generated_proof_commit_ancestors h source) (\<lambda>cs. ret (cs \<noteq> []))"

section \<open>One pass over many objects\<close>

text \<open>\<open>d[k] = v\<close>: a key keeps its place.\<close>

fun dict_put :: "'k \<Rightarrow> 'v \<Rightarrow> ('k \<times> 'v) list \<Rightarrow> ('k \<times> 'v) list" where
  "dict_put k v [] = [(k, v)]"
| "dict_put k v ((k', v') # d) = (if k' = k then (k, v) # d else (k', v') # dict_put k v d)"

text \<open>
  The output of \<open>git cat-file --batch\<close>: for each object a header line, the content, a newline.
  Git's sizes are natural numbers, so that the offset never moves back; a header with a negative
  one counts as malformed.
\<close>

definition batch_size :: "string \<Rightarrow> nat option" where
  "batch_size header =
     (case split_words header of
        [_, _, digits] \<Rightarrow> (case py_int digits of Some n \<Rightarrow> if 0 \<le> n then Some (nat n) else None | None \<Rightarrow> None)
      | _ \<Rightarrow> None)"

fun read_batch :: "string list \<Rightarrow> bytes \<Rightarrow> (string \<times> string) list \<Rightarrow> (string \<times> string) list" where
  "read_batch [] out contents = contents"
| "read_batch (spec # specs) out contents =
     (case partition_char 0x0A out of
        (_, None) \<Rightarrow> contents
      | (header_bytes, Some rest) \<Rightarrow>
          let header = bytes_text header_bytes in
          if str_endswith header '' missing'' then read_batch specs rest contents
          else case batch_size header of
            None \<Rightarrow> contents
          | Some n \<Rightarrow>
              if length rest < n then contents
              else
                let content = take n rest; rest1 = drop n rest;
                    contents1 = (if utf8_valid content
                      then dict_put spec (bytes_text content) contents else contents);
                    rest2 = (case rest1 of b # bs \<Rightarrow> if b = 0x0A then bs else rest1 | [] \<Rightarrow> rest1)
                in read_batch specs rest2 contents1)"

text \<open>The paths are encoded strictly: a name that is not UTF-8 raises.\<close>

definition batch_read_tree_texts :: "'w host \<Rightarrow> string list \<Rightarrow> ('w, (string \<times> string) list) prog" where
  "batch_read_tree_texts h specs =
     (if specs = [] then ret []
      else
        let inp = join_with [newline] specs in
        guardP (utf8_valid (text_bytes inp)) (ValueError ''surrogates not allowed'') (
        catchP (bindP (runner_run_bytes h [''cat-file'', ''--batch''] (Some inp))
            (\<lambda>s. ret (read_batch specs (stdout_bytes s) [])))
          is_GitCommandError (\<lambda>_. ret [])))"

section \<open>Evidence from a manifest\<close>

text \<open>
  The proof a manifest names, where it ends in \<open>.ots\<close>; and the checks of proof and manifest.
\<close>

definition named_proof :: "manifest \<Rightarrow> string option" where
  "named_proof m =
     (case json_get_str m ''proof'' of
        Some name \<Rightarrow> if str_endswith name ''.ots'' then Some name else None
      | None \<Rightarrow> None)"

definition manifest_baseline ::
    "commit_id \<Rightarrow> commit_id \<Rightarrow> instant \<times> string list \<Rightarrow> timestamp_baseline" where
  "manifest_baseline proof_commit_id source r =
     \<lparr>tb_source_commit_id = source, tb_submitted_at = fst r, tb_triggers = snd r,
      tb_tag_name = ''proof-commit:'' @ proof_commit_id, tb_proof_commit_id = Some proof_commit_id,
      tb_kind = PROOF_COMMIT\<rparr>"

definition validate_proof_commit_manifest_content ::
    "'w host \<Rightarrow> commit_id \<Rightarrow> manifest \<Rightarrow> string \<Rightarrow> string \<Rightarrow> commit_id \<Rightarrow> commit_id \<Rightarrow>
     ('w, timestamp_baseline option) prog" where
  "validate_proof_commit_manifest_content h proof_commit_id m proof_directory object_format frozen artifact_commit =
     (case json_get_str m ''source_commit'' of
        None \<Rightarrow> ret None
      | Some source \<Rightarrow>
          bindP (is_ancestor_commit h source frozen) (\<lambda>anc.
            if \<not> anc then ret None
            else case build_payload object_format source of
              Inl _ \<Rightarrow> ret None
            | Inr payload \<Rightarrow>
                case named_proof m of
                  None \<Rightarrow> ret None
                | Some name \<Rightarrow>
                    bindP (read_tree_bytes h artifact_commit (proof_directory @ ''/'' @ name)) (\<lambda>r.
                      case r of
                        None \<Rightarrow> ret None
                      | Some proof \<Rightarrow>
                          case validate_detached_proof (digest h) proof (Some payload) of
                            Inl _ \<Rightarrow> ret None
                          | Inr _ \<Rightarrow>
                              case validate_recovery_manifest (fromisoformat h) m source object_format of
                                Inl _ \<Rightarrow> ret None
                              | Inr v \<Rightarrow> ret (Some (manifest_baseline proof_commit_id source v)))))"

text \<open>\<open>json.loads\<close> of a text that has to be an object; \<open>None\<close> where the caller gives up.\<close>

definition manifest_of_text :: "'w host \<Rightarrow> string \<Rightarrow> manifest option" where
  "manifest_of_text h text = (case json_loads h text of Some (JObj m) \<Rightarrow> Some m | _ \<Rightarrow> None)"

definition read_committed_proof_evidence ::
    "'w host \<Rightarrow> commit_id \<Rightarrow> commit_id \<Rightarrow> string \<Rightarrow> string \<Rightarrow> ('w, proof_evidence option) prog" where
  "read_committed_proof_evidence h source artifact_commit proof_directory object_format =
     bindP (read_tree_text h artifact_commit (proof_directory @ ''/'' @ source @ ''.json'')) (\<lambda>t.
       case (case t of None \<Rightarrow> None | Some text \<Rightarrow> manifest_of_text h text) of
         None \<Rightarrow> ret None
       | Some m \<Rightarrow>
           if json_get m ''source_commit'' \<noteq> Some (JStr source) then ret None
           else case named_proof m of
             None \<Rightarrow> ret None
           | Some name \<Rightarrow>
               bindP (read_tree_bytes h artifact_commit (proof_directory @ ''/'' @ name)) (\<lambda>r.
                 case r of
                   None \<Rightarrow> ret None
                 | Some proof \<Rightarrow>
                     if proof = [] then ret None
                     else
                       case bindE (build_payload object_format source) (\<lambda>payload.
                           bindE (validate_detached_proof (digest h) proof (Some payload)) (\<lambda>_.
                           validate_recovery_manifest (fromisoformat h) m source object_format)) of
                         Inl _ \<Rightarrow> ret None
                       | Inr v \<Rightarrow> ret (Some \<lparr>ev_source_commit_id = source, ev_submitted_at = fst v,
                           ev_triggers = snd v, ev_proof_name = name\<rparr>)))"

section \<open>Proof commits\<close>

text \<open>\<open>{line: index}\<close>: the last position of a line, and the number of distinct lines for the others.\<close>

definition positions :: "string \<Rightarrow> (string \<times> nat) list" where
  "positions out =
     filter (\<lambda>(line, i). line \<noteq> [])
       (zip (map strip (splitlines out)) [0..<length (splitlines out)])"

definition position_of :: "(string \<times> nat) list \<Rightarrow> commit_id \<Rightarrow> nat" where
  "position_of ps cid = (case map_of (rev ps) cid of
     Some i \<Rightarrow> i | None \<Rightarrow> length (remdups (map fst ps)))"

definition order_commits_newest_first :: "'w host \<Rightarrow> commit_id \<Rightarrow> commit_id list \<Rightarrow> ('w, commit_id list) prog" where
  "order_commits_newest_first h source ids =
     catchP (bindP (git_out h [''rev-list'', source]) (\<lambda>out.
         ret (sort_key (position_of (positions out)) ids)))
       is_GitCommandError (\<lambda>_. ret ids)"

definition candidate_info :: "'w host \<Rightarrow> string \<times> string \<Rightarrow> (instant \<times> manifest) option" where
  "candidate_info h entry =
     (case manifest_of_text h (snd entry) of
        None \<Rightarrow> None
      | Some m \<Rightarrow>
          (case json_get_str m ''submitted_at'' of
             None \<Rightarrow> None
           | Some s \<Rightarrow>
               if \<not> str_endswith s ''Z'' then None
               else (case fromisoformat h s of
                 Some (t, UtcTime) \<Rightarrow> Some (t, m)
               | _ \<Rightarrow> None)))"

definition claims_of :: "manifest list \<Rightarrow> (commit_id \<times> manifest) list" where
  "claims_of ms = foldl (\<lambda>grp m. case json_get_str m ''source_commit'' of
     None \<Rightarrow> grp | Some claimed \<Rightarrow> dict_put claimed m grp) [] ms"

text \<open>The inner loop: the first claim of a group that validates.\<close>

primrec first_valid ::
    "(manifest \<Rightarrow> ('w, timestamp_baseline option) prog) \<Rightarrow> (commit_id \<times> manifest) list \<Rightarrow>
     commit_id list \<Rightarrow> ('w, timestamp_baseline option) prog" where
  "first_valid validate grp [] = ret None"
| "first_valid validate grp (claimed # ids) =
     bindP (validate (the (map_of grp claimed))) (\<lambda>c.
       case c of Some b \<Rightarrow> ret (Some b) | None \<Rightarrow> first_valid validate grp ids)"

text \<open>The outer loop, over the groups of equal submission times.\<close>

function search_groups ::
    "(manifest \<Rightarrow> ('w, timestamp_baseline option) prog) \<Rightarrow>
     (commit_id list \<Rightarrow> ('w, commit_id list) prog) \<Rightarrow>
     (instant \<times> manifest) list \<Rightarrow> ('w, timestamp_baseline option) prog" where
  "search_groups validate order [] = ret None"
| "search_groups validate order ((t, m) # rest) =
     (let grp = claims_of (m # map snd (takeWhile (\<lambda>c. fst c = t) rest));
          later = dropWhile (\<lambda>c. fst c = t) rest
      in if grp = [] then search_groups validate order later
         else
           bindP (if length grp = 1 then ret (map fst grp) else order (map fst grp)) (\<lambda>ordered.
           bindP (first_valid validate grp ordered) (\<lambda>c.
             case c of Some b \<Rightarrow> ret (Some b) | None \<Rightarrow> search_groups validate order later)))"
  by pat_completeness auto
termination
  by (relation "measure (\<lambda>(v, r, cs). length cs)")
    (auto simp: le_imp_less_Suc length_dropWhile_le)

definition find_proof_commit_baselines ::
    "'w host \<Rightarrow> commit_id \<Rightarrow> string \<Rightarrow> string \<Rightarrow> ('w, timestamp_baseline list) prog" where
  "find_proof_commit_baselines h source proof_directory object_format =
     bindP (find_generated_proof_commit_ancestors h source) (\<lambda>proof_commits.
       case proof_commits of
         [] \<Rightarrow> ret []
       | newest_proof_commit # _ \<Rightarrow>
           bindP (list_tree_json_manifests h source proof_directory) (\<lambda>manifest_paths.
             if manifest_paths = [] then ret []
             else
               bindP (batch_read_tree_texts h (map (\<lambda>p. source @ '':'' @ p) manifest_paths)) (\<lambda>texts.
               bindP (search_groups
                   (\<lambda>m. validate_proof_commit_manifest_content h newest_proof_commit m proof_directory
                      object_format source source)
                   (order_commits_newest_first h source)
                   (sort_key (\<lambda>c. - fst c) (List.map_filter (candidate_info h) texts))) (\<lambda>found.
               ret (case found of None \<Rightarrow> [] | Some b \<Rightarrow> [b])))))"

section \<open>Tags\<close>

definition tag_baseline :: "timestamp_tag \<Rightarrow> validated_annotation \<Rightarrow> timestamp_baseline" where
  "tag_baseline tag a =
     \<lparr>tb_source_commit_id = va_source a, tb_submitted_at = va_submitted_at a,
      tb_triggers = va_triggers a, tb_tag_name = tag_name tag, tb_proof_commit_id = None,
      tb_kind = TAG\<rparr>"

text \<open>The loop over the tags: the candidates, and whether any tag was valid.\<close>

definition tag_candidates ::
    "'w host \<Rightarrow> commit_id \<Rightarrow> timestamp_tag list \<Rightarrow> ('w, timestamp_baseline list \<times> bool) prog" where
  "tag_candidates h source tags =
     foldP (\<lambda>tag (candidates, any_valid).
         case validate_timestamp_tag (fromisoformat h) tag of
           Inl _ \<Rightarrow> ret (candidates, any_valid)
         | Inr a \<Rightarrow>
             bindP (is_ancestor_commit h (va_source a) source) (\<lambda>anc.
               ret (if anc then candidates @ [tag_baseline tag a] else candidates, True)))
       tags ([], False)"

definition newest_baseline :: "timestamp_baseline list \<Rightarrow> timestamp_baseline" where
  "newest_baseline candidates = last (sort_key baseline_sort_key candidates)"

definition find_tag_baseline ::
    "'w host \<Rightarrow> commit_id \<Rightarrow> string \<Rightarrow> ('w, timestamp_baseline option \<times> bool) prog" where
  "find_tag_baseline h source tag_prefix =
     bindP (enumerate_timestamp_tags h tag_prefix) (\<lambda>tags.
     bindP (tag_candidates h source tags) (\<lambda>(candidates, any_valid).
     ret (if candidates \<noteq> [] then (Some (newest_baseline candidates), False)
          else (None, any_valid))))"

definition find_newest_relevant_baseline ::
    "'w host \<Rightarrow> commit_id \<Rightarrow> string \<Rightarrow> string option \<Rightarrow> string option \<Rightarrow>
     ('w, lineage_baseline_result) prog" where
  "find_newest_relevant_baseline h source tag_prefix proof_directory object_format =
     bindP (find_tag_baseline h source tag_prefix) (\<lambda>(tag_base, has_abandoned_tags).
     bindP (case (proof_directory, object_format) of
         (Some d, Some f) \<Rightarrow> find_proof_commit_baselines h source d f
       | _ \<Rightarrow> ret []) (\<lambda>proof_bases.
     let candidates = (case tag_base of None \<Rightarrow> [] | Some b \<Rightarrow> [b]) @ proof_bases in
     ret (if candidates \<noteq> []
          then \<lparr>lb_baseline = Some (newest_baseline candidates), lb_has_abandoned_tags = False\<rparr>
          else \<lparr>lb_baseline = None, lb_has_abandoned_tags = has_abandoned_tags\<rparr>)))"


section \<open>Searching a repository that stays as it is\<close>

definition fixed_repository ::
    "'w host \<Rightarrow> answers \<Rightarrow> (string list \<Rightarrow> string option \<Rightarrow> int \<times> bytes \<times> bytes) \<Rightarrow> bool" where
  "fixed_repository h g gb \<longleftrightarrow> fixed_git h g \<and>
     (\<forall>args inp w. run_git_bytes h (''git'' # args) inp w = (Inr (gb args inp), w))"

definition ancestor_in :: "answers \<Rightarrow> commit_id \<Rightarrow> commit_id \<Rightarrow> bool" where
  "ancestor_in g a b \<longleftrightarrow> answer_code g [''merge-base'', ''--is-ancestor'', a, b] = 0"

definition blob_in ::
    "(string list \<Rightarrow> string option \<Rightarrow> int \<times> bytes \<times> bytes) \<Rightarrow> commit_id \<Rightarrow> path \<Rightarrow> bytes option" where
  "blob_in gb commit p =
     (case gb [''show'', commit @ '':'' @ p] None of (code, out, err) \<Rightarrow>
        if code = 0 then Some out else None)"

lemma is_ancestor_fixed:
  "fixed_git h g \<Longrightarrow> is_ancestor_commit h a b w = (Inr (ancestor_in g a b), w)"
  by (cases "g [''merge-base'', ''--is-ancestor'', a, b] None")
    (auto simp: is_ancestor_commit_def ancestor_in_def answer_code_def runner_run_def fixed_git_def
      bindP_def catchP_def Let_def)

lemma read_tree_bytes_fixed:
  "fixed_repository h g gb \<Longrightarrow> read_tree_bytes h commit p w = (Inr (blob_in gb commit p), w)"
  by (cases "gb [''show'', commit @ '':'' @ p] None")
    (auto simp: read_tree_bytes_def blob_in_def runner_run_bytes_def fixed_repository_def
      bindP_def catchP_def Let_def)

text \<open>What a manifest is worth, as a function of the repository.\<close>

definition manifest_evidence ::
    "'w host \<Rightarrow> answers \<Rightarrow> (string list \<Rightarrow> string option \<Rightarrow> int \<times> bytes \<times> bytes) \<Rightarrow> commit_id \<Rightarrow> string \<Rightarrow>
     string \<Rightarrow> commit_id \<Rightarrow> manifest \<Rightarrow> timestamp_baseline option" where
  "manifest_evidence h g gb pc d f frozen m =
     (case json_get_str m ''source_commit'' of
        None \<Rightarrow> None
      | Some source \<Rightarrow>
          if \<not> ancestor_in g source frozen then None
          else case build_payload f source of
            Inl _ \<Rightarrow> None
          | Inr payload \<Rightarrow>
              case named_proof m of
                None \<Rightarrow> None
              | Some name \<Rightarrow>
                  case blob_in gb frozen (d @ ''/'' @ name) of
                    None \<Rightarrow> None
                  | Some proof \<Rightarrow>
                      case validate_detached_proof (digest h) proof (Some payload) of
                        Inl _ \<Rightarrow> None
                      | Inr _ \<Rightarrow>
                          case validate_recovery_manifest (fromisoformat h) m source f of
                            Inl _ \<Rightarrow> None
                          | Inr v \<Rightarrow> Some (manifest_baseline pc source v))"

lemma validate_content_fixed:
  assumes "fixed_repository h g gb"
  shows "validate_proof_commit_manifest_content h pc m d f frozen frozen w =
    (Inr (manifest_evidence h g gb pc d f frozen m), w)"
proof -
  have g: "fixed_git h g" using assms by (simp add: fixed_repository_def)
  show ?thesis
    unfolding validate_proof_commit_manifest_content_def manifest_evidence_def
    by (simp add: bindP_def ret_def is_ancestor_fixed [OF g] read_tree_bytes_fixed [OF assms]
        split: option.split sum.split)
qed

lemma manifest_evidenceD:
  assumes "manifest_evidence h g gb pc d f frozen m = Some b"
  shows "json_get_str m ''source_commit'' = Some (tb_source_commit_id b)"
    and "ancestor_in g (tb_source_commit_id b) frozen"
    and "\<exists>pf payload nm. build_payload f (tb_source_commit_id b) = Inr payload \<and> named_proof m = Some nm \<and>
      blob_in gb frozen (d @ ''/'' @ nm) = Some pf \<and>
      validate_detached_proof (digest h) pf (Some payload) = Inr ()"
    and "validate_recovery_manifest (fromisoformat h) m (tb_source_commit_id b) f =
      Inr (tb_submitted_at b, tb_triggers b)"
    and "tb_kind b = PROOF_COMMIT"
proof -
  from assms obtain source payload nm pf v where
    "json_get_str m ''source_commit'' = Some source" "ancestor_in g source frozen"
    "build_payload f source = Inr payload" "named_proof m = Some nm" "blob_in gb frozen (d @ ''/'' @ nm) = Some pf"
    "validate_detached_proof (digest h) pf (Some payload) = Inr ()"
    "validate_recovery_manifest (fromisoformat h) m source f = Inr v" "b = manifest_baseline pc source v"
    unfolding manifest_evidence_def by (auto split: option.splits sum.splits if_splits)
  then show "json_get_str m ''source_commit'' = Some (tb_source_commit_id b)"
    "ancestor_in g (tb_source_commit_id b) frozen"
    "\<exists>pf payload nm. build_payload f (tb_source_commit_id b) = Inr payload \<and> named_proof m = Some nm \<and>
      blob_in gb frozen (d @ ''/'' @ nm) = Some pf \<and>
      validate_detached_proof (digest h) pf (Some payload) = Inr ()"
    "validate_recovery_manifest (fromisoformat h) m (tb_source_commit_id b) f =
      Inr (tb_submitted_at b, tb_triggers b)"
    "tb_kind b = PROOF_COMMIT"
    by (simp_all add: manifest_baseline_def)
qed

section \<open>The early stop loses nothing\<close>

abbreviation claim :: "manifest \<Rightarrow> commit_id option" where
  "claim m \<equiv> json_get_str m ''source_commit''"

lemma map_of_dict_put: "map_of (dict_put k v d) = (map_of d)(k \<mapsto> v)"
  by (induction k v d rule: dict_put.induct) auto

lemma claims_of_snoc:
  "claims_of (ms @ [m]) = (case claim m of None \<Rightarrow> claims_of ms | Some s \<Rightarrow> dict_put s m (claims_of ms))"
  by (cases "claim m") (simp_all add: claims_of_def)

lemma claims_of_sound: "map_of (claims_of ms) s = Some m \<Longrightarrow> m \<in> set ms \<and> claim m = Some s"
  by (induction ms rule: rev_induct)
    (auto simp: claims_of_snoc map_of_dict_put claims_of_def [of "[]"] split: option.splits if_splits)

lemma claims_of_complete: "m \<in> set ms \<Longrightarrow> claim m = Some s \<Longrightarrow> \<exists>m'. map_of (claims_of ms) s = Some m'"
  by (induction ms rule: rev_induct)
    (auto simp: claims_of_snoc map_of_dict_put split: option.splits)

lemma claimed_ids: "c \<in> set (map fst (claims_of ms)) \<longleftrightarrow> (\<exists>m. map_of (claims_of ms) c = Some m)"
  by (metis domD domI dom_map_of_conv_image_fst list.set_map)

text \<open>
  The candidates the search looks at: of several with one submission time that claim one commit, the
  dictionary of the group keeps the last.
\<close>

definition rivals :: "(instant \<times> manifest) list \<Rightarrow> instant \<times> manifest \<Rightarrow> (instant \<times> manifest) list" where
  "rivals cs c = filter (\<lambda>d. fst d = fst c \<and> claim (snd d) = claim (snd c)) cs"

definition visible :: "(instant \<times> manifest) list \<Rightarrow> (instant \<times> manifest) list" where
  "visible cs = filter (\<lambda>c. last (rivals cs c) = c) cs"

lemma claims_of_last:
  "map_of (claims_of ms) s =
     (if \<exists>m \<in> set ms. claim m = Some s then Some (last (filter (\<lambda>m. claim m = Some s) ms)) else None)"
  by (induction ms rule: rev_induct)
    (auto simp: claims_of_snoc map_of_dict_put claims_of_def [of "[]"] split: option.splits)

lemma visible_apart:
  assumes "\<forall>c \<in> set xs. \<forall>d \<in> set ys. fst c \<noteq> fst d"
  shows "visible (xs @ ys) = visible xs @ visible ys"
proof -
  have "rivals ys c = []" if "c \<in> set xs" for c using assms that by (fastforce simp: rivals_def filter_empty_conv)
  moreover have "rivals xs c = []" if "c \<in> set ys" for c using assms that by (fastforce simp: rivals_def filter_empty_conv)
  moreover have "rivals (xs @ ys) c = rivals xs c @ rivals ys c" for c by (simp add: rivals_def)
  ultimately show ?thesis by (simp add: visible_def cong: filter_cong)
qed

text \<open>Sorting by the time keeps the order of rivals.\<close>

lemma visible_sorted: "set (visible (sort_key (\<lambda>c. - fst c) cs)) = set (visible cs)"
proof -
  have "rivals (sort_key (\<lambda>c. - fst c) cs) c = rivals cs c" for c
  proof -
    have r: "rivals xs c = filter (\<lambda>d. claim (snd d) = claim (snd c)) (filter (\<lambda>d. - fst d = - fst c) xs)" for xs
      unfolding rivals_def filter_filter by (rule filter_cong) auto
    show ?thesis
      unfolding r by (subst sort_key_stable) (rule refl)
  qed
  then show ?thesis by (simp add: visible_def)
qed

lemma visible_group:
  assumes "\<forall>c \<in> set cs. fst c = t"
  shows "claim m = Some s \<Longrightarrow> (t, m) \<in> set (visible cs) \<longleftrightarrow> map_of (claims_of (map snd cs)) s = Some m"
proof -
  assume m: "claim m = Some s"
  have r: "rivals cs (t, m) = filter (\<lambda>d. claim (snd d) = Some s) cs"
    unfolding rivals_def using assms m by (intro filter_cong) auto
  have f: "filter (\<lambda>m. claim m = Some s) (map snd cs) = map snd (filter (\<lambda>d. claim (snd d) = Some s) cs)"
    by (simp add: filter_map comp_def)
  show ?thesis
  proof (cases "filter (\<lambda>d. claim (snd d) = Some s) cs = []")
    case True
    then have "\<not> (\<exists>d \<in> set cs. claim (snd d) = Some s)" by (simp add: filter_empty_conv)
    with m show ?thesis by (auto simp: claims_of_last visible_def)
  next
    case False
    let ?l = "last (filter (\<lambda>d. claim (snd d) = Some s) cs)"
    have l: "?l \<in> set cs" "claim (snd ?l) = Some s" using last_in_set [OF False] by auto
    then have "?l = (t, m) \<longleftrightarrow> snd ?l = m" using assms by (metis fst_conv prod.collapse snd_conv)
    moreover have "map_of (claims_of (map snd cs)) s = Some (snd ?l)"
      unfolding claims_of_last f using l False by (auto simp: last_map)
    ultimately show ?thesis using l by (auto simp: visible_def r)
  qed
qed

lemma bind_value [simp]: "bindP (Pair (Inr x)) f = f x"
  by (rule ext) (simp add: bindP_def)

lemma first_valid_pure:
  "\<exists>r. first_valid (\<lambda>m. ret (v m) :: ('w, _) prog) grp ids = ret r \<and>
     (r = None \<longleftrightarrow> (\<forall>c \<in> set ids. v (the (map_of grp c)) = None)) \<and>
     (\<forall>b. r = Some b \<longrightarrow> (\<exists>c \<in> set ids. v (the (map_of grp c)) = Some b))"
proof (induction ids)
  case (Cons c ids)
  then show ?case by (cases "v (the (map_of grp c))") auto
qed simp

lemma group_search:
  assumes v: "\<And>m. v m \<noteq> None \<Longrightarrow> claim m \<noteq> None" and t: "\<forall>c \<in> set cs. fst c = t"
    and ids: "set ids = set (map fst (claims_of (map snd cs)))"
  shows "\<exists>r. first_valid (\<lambda>m. ret (v m) :: ('w, _) prog) (claims_of (map snd cs)) ids = ret r \<and>
    (r = None \<longleftrightarrow> (\<forall>c \<in> set (visible cs). v (snd c) = None)) \<and>
    (\<forall>b. r = Some b \<longrightarrow> (\<exists>c \<in> set (visible cs). v (snd c) = Some b))"
proof -
  let ?grp = "claims_of (map snd cs)"
  have claimed: "\<exists>c \<in> set (visible cs). snd c = the (map_of ?grp s)" if "s \<in> set ids" for s
  proof -
    obtain m where m: "map_of ?grp s = Some m" using \<open>s \<in> set ids\<close> unfolding ids claimed_ids by blast
    then have "claim m = Some s" using claims_of_sound by blast
    with visible_group [OF t this] m show ?thesis by force
  qed
  have found: "\<exists>s \<in> set ids. the (map_of ?grp s) = snd c" if c: "c \<in> set (visible cs)" and vc: "v (snd c) \<noteq> None" for c
  proof -
    obtain s where s: "claim (snd c) = Some s" using v [OF vc] by blast
    have "c \<in> set cs" using c by (simp add: visible_def)
    then have "c = (t, snd c)" using t by (metis prod.collapse)
    with visible_group [OF t s] c have "map_of ?grp s = Some (snd c)" by simp
    then show ?thesis unfolding ids by (metis claimed_ids option.sel)
  qed
  obtain r where r: "first_valid (\<lambda>m. ret (v m) :: ('w, _) prog) ?grp ids = ret r"
    "r = None \<longleftrightarrow> (\<forall>s \<in> set ids. v (the (map_of ?grp s)) = None)"
    "\<forall>b. r = Some b \<longrightarrow> (\<exists>s \<in> set ids. v (the (map_of ?grp s)) = Some b)"
    using first_valid_pure by blast
  have "r = None \<longleftrightarrow> (\<forall>c \<in> set (visible cs). v (snd c) = None)" using r(2) claimed found by metis
  moreover have "\<forall>b. r = Some b \<longrightarrow> (\<exists>c \<in> set (visible cs). v (snd c) = Some b)" using r(3) claimed by metis
  ultimately show ?thesis using r(1) by blast
qed

text \<open>What the search returns: the valid candidate submitted last, or nothing when none is valid.\<close>

definition newest_valid ::
    "(manifest \<Rightarrow> timestamp_baseline option) \<Rightarrow> (instant \<times> manifest) list \<Rightarrow> timestamp_baseline option \<Rightarrow> bool" where
  "newest_valid v cs r \<longleftrightarrow>
     (case r of
        None \<Rightarrow> \<forall>c \<in> set cs. v (snd c) = None
      | Some b \<Rightarrow> \<exists>c \<in> set cs. v (snd c) = Some b \<and>
          (\<forall>c' \<in> set cs. v (snd c') \<noteq> None \<longrightarrow> fst c' \<le> fst c))"

lemma newest_valid_first_group:
  assumes "c \<in> set same" "v (snd c) = Some b" "\<forall>c \<in> set same. fst c = t"
    and "\<forall>c \<in> set later. fst c \<le> t"
  shows "newest_valid v (same @ later) (Some b)"
proof -
  from assms have "\<forall>c' \<in> set same \<union> set later. fst c' \<le> fst c" by auto
  then show ?thesis using assms(1,2) unfolding newest_valid_def by auto
qed

lemma newest_valid_later:
  assumes "\<forall>c \<in> set same. v (snd c) = None" "newest_valid v later r"
  shows "newest_valid v (same @ later) r"
proof (cases r)
  case None
  with assms show ?thesis by (auto simp: newest_valid_def)
next
  case (Some b)
  with assms(2) obtain c where c: "c \<in> set later" "v (snd c) = Some b"
    "\<forall>c' \<in> set later. v (snd c') \<noteq> None \<longrightarrow> fst c' \<le> fst c" by (auto simp: newest_valid_def)
  with assms(1) have "\<forall>c' \<in> set (same @ later). v (snd c') \<noteq> None \<longrightarrow> fst c' \<le> fst c" by auto
  with c(1,2) Some show ?thesis unfolding newest_valid_def by auto
qed

lemma search_groups_newest:
  assumes v: "\<And>m. v m \<noteq> None \<Longrightarrow> claim m \<noteq> None" and ord: "\<And>ids. set (ord ids) = set ids"
  shows "sorted_wrt (\<lambda>c c'. fst c' \<le> fst c) cs \<Longrightarrow>
    \<exists>r. search_groups (\<lambda>m. ret (v m) :: ('w, _) prog) (\<lambda>ids. ret (ord ids)) cs = ret r \<and> newest_valid v (visible cs) r"
proof (induction "\<lambda>m. ret (v m) :: ('w, _) prog" "\<lambda>ids. ret (ord ids) :: ('w, _) prog" cs rule: search_groups.induct)
  case 1
  then show ?case by (auto simp: newest_valid_def visible_def)
next
  case (2 t m rest)
  let ?same = "(t, m) # takeWhile (\<lambda>c. fst c = t) rest" and ?later = "dropWhile (\<lambda>c. fst c = t) rest"
  let ?grp = "claims_of (map snd ?same)"
  have all: "(t, m) # rest = ?same @ ?later" by simp
  have sorted: "sorted_wrt (\<lambda>c c'. fst c' \<le> fst c) ?later"
    using "2.prems" unfolding all sorted_wrt_append by blast
  have le: "\<forall>c \<in> set ?later. fst c \<le> t" using "2.prems" by (auto dest: set_dropWhileD)
  have eq: "\<forall>c \<in> set ?same. fst c = t" by (auto dest: set_takeWhileD)
  have neq: "fst c \<noteq> t" if "c \<in> set ?later" for c
  proof -
    have "?later \<noteq> []" using that by (metis list.set(1) empty_iff)
    then have "fst (hd ?later) \<noteq> t" by (rule hd_dropWhile)
    moreover have "fst c \<le> fst (hd ?later)" using sorted that \<open>?later \<noteq> []\<close> by (cases ?later) auto
    moreover have "fst (hd ?later) \<le> t" using le \<open>?later \<noteq> []\<close> by auto
    ultimately show ?thesis by linarith
  qed
  have vis: "visible ((t, m) # rest) = visible ?same @ visible ?later"
    unfolding all by (rule visible_apart) (use eq neq in metis)
  let ?ids = "if length ?grp = 1 then map fst ?grp else ord (map fst ?grp)"
  have ids: "set ?ids = set (map fst ?grp)" by (simp add: ord)
  obtain r where r: "first_valid (\<lambda>m. ret (v m) :: ('w, _) prog) ?grp ?ids = ret r"
    "r = None \<longleftrightarrow> (\<forall>c \<in> set (visible ?same). v (snd c) = None)"
    "\<forall>b. r = Some b \<longrightarrow> (\<exists>c \<in> set (visible ?same). v (snd c) = Some b)"
    using group_search [where v = v, OF v eq ids] by blast
  have grp: "claims_of (m # map snd (takeWhile (\<lambda>c. fst c = t) rest)) = ?grp" by simp
  have picked: "(if length ?grp = 1 then ret (map fst ?grp) else ret (ord (map fst ?grp))) =
      (ret ?ids :: ('w, _) prog)"
    by (rule if_distrib [symmetric])
  have step: "search_groups (\<lambda>m. ret (v m) :: ('w, _) prog) (\<lambda>ids. ret (ord ids)) ((t, m) # rest) =
      (if ?grp = [] then search_groups (\<lambda>m. ret (v m)) (\<lambda>ids. ret (ord ids)) ?later
       else case r of Some b \<Rightarrow> ret (Some b)
         | None \<Rightarrow> search_groups (\<lambda>m. ret (v m)) (\<lambda>ids. ret (ord ids)) ?later)"
    unfolding search_groups.simps(2) Let_def grp picked prog_simps(1) r(1) by (rule refl)
  show ?case
  proof (cases r)
    case None
    then have none: "\<forall>c \<in> set (visible ?same). v (snd c) = None" using r(2) by blast
    obtain r' where r': "search_groups (\<lambda>m. ret (v m) :: ('w, _) prog) (\<lambda>ids. ret (ord ids)) ?later = ret r'"
      "newest_valid v (visible ?later) r'"
      using "2.hyps" [OF refl refl] sorted grp by (cases "?grp = []") blast+
    from newest_valid_later [where v = v, OF none r'(2)] have "newest_valid v (visible ((t, m) # rest)) r'" by (simp only: vis)
    moreover have "search_groups (\<lambda>m. ret (v m) :: ('w, _) prog) (\<lambda>ids. ret (ord ids)) ((t, m) # rest) = ret r'"
      unfolding step None r'(1) by simp
    ultimately show ?thesis by blast
  next
    case (Some b)
    then obtain c where c: "c \<in> set (visible ?same)" "v (snd c) = Some b" using r(3) by blast
    have sub: "\<forall>c \<in> set (visible ?same). fst c = t" "\<forall>c \<in> set (visible ?later). fst c \<le> t"
      using eq le by (auto simp: visible_def)
    from newest_valid_first_group [where v = v, OF c sub]
    have "newest_valid v (visible ((t, m) # rest)) (Some b)" by (simp only: vis)
    moreover have "snd c \<in> set (map snd ?same)"
      using c(1) unfolding visible_def set_map by (metis (no_types, lifting) filter_is_subset imageI subsetD)
    then have "?grp \<noteq> []"
      using claims_of_complete v [of "snd c"] c(2) by fastforce
    then have "search_groups (\<lambda>m. ret (v m) :: ('w, _) prog) (\<lambda>ids. ret (ord ids)) ((t, m) # rest) = ret (Some b)"
      unfolding step Some by simp
    ultimately show ?thesis by blast
  qed
qed

section \<open>The search on a fixed repository\<close>

definition history_order :: "answers \<Rightarrow> commit_id \<Rightarrow> commit_id list \<Rightarrow> commit_id list" where
  "history_order g source ids =
     (if answer_code g [''rev-list'', source] = 0
      then sort_key (position_of (positions (answer_text g [''rev-list'', source]))) ids else ids)"

lemma order_fixed:
  assumes "fixed_git h g"
  shows "order_commits_newest_first h source = (\<lambda>ids. ret (history_order g source ids))"
  by (intro ext) (simp add: order_commits_newest_first_def history_order_def bindP_def catchP_def
      git_out_fixed_eq [OF assms])

lemma validate_fixed:
  assumes "fixed_repository h g gb"
  shows "(\<lambda>m. validate_proof_commit_manifest_content h pc m d f source source) =
    (\<lambda>m. ret (manifest_evidence h g gb pc d f source m))"
  by (intro ext) (simp add: validate_content_fixed [OF assms])

lemma evidence_claims: "manifest_evidence h g gb pc d f source m \<noteq> None \<Longrightarrow> claim m \<noteq> None"
  by (auto simp: manifest_evidence_def split: option.splits)

lemma search_pure:
  fixes h :: "'w host"
  assumes "fixed_repository h g gb"
  shows "\<exists>r. search_groups (\<lambda>m. validate_proof_commit_manifest_content h pc m d f source source)
      (order_commits_newest_first h source) (sort_key (\<lambda>c. - fst c) candidates) = ret r \<and>
    newest_valid (manifest_evidence h g gb pc d f source) (visible candidates) r"
proof -
  have g: "fixed_git h g" using assms by (simp add: fixed_repository_def)
  let ?cs = "sort_key (\<lambda>c. - fst c) candidates"
  have "sorted_wrt (\<lambda>c c'. - fst c \<le> - fst c') ?cs"
    using sorted_sort_key [of "\<lambda>c. - fst c" candidates] by (simp add: sorted_map)
  then have "sorted_wrt (\<lambda>c c'. fst c' \<le> fst c) ?cs" by simp
  moreover have "set (history_order g source ids) = set ids" for ids by (simp add: history_order_def)
  ultimately obtain r where r: "search_groups (\<lambda>m. ret (manifest_evidence h g gb pc d f source m) :: ('w, _) prog)
      (\<lambda>ids. ret (history_order g source ids)) ?cs = ret r"
    "newest_valid (manifest_evidence h g gb pc d f source) (visible ?cs) r"
    using search_groups_newest [where v = "manifest_evidence h g gb pc d f source" and ord = "history_order g source",
        OF evidence_claims [of h g gb pc d f source]] by blast
  have "newest_valid (manifest_evidence h g gb pc d f source) (visible candidates) r"
    using r(2) unfolding newest_valid_def visible_sorted .
  then show ?thesis
    unfolding validate_fixed [OF assms] order_fixed [OF g] using r(1) by blast
qed

text \<open>
  C31: the search through the manifests stops at the first valid one and loses nothing by it. On a
  repository that does not change meanwhile it returns a valid one of the candidates it looks at,
  such that no valid one was submitted later, and returns nothing only when none of them is valid. It
  looks at every candidate but those that are followed by another with the same submission time
  and the same claim.
\<close>

theorem search_finds_newest:
  fixes h :: "'w host"
  assumes "fixed_repository h g gb"
  shows "\<exists>r. search_groups (\<lambda>m. validate_proof_commit_manifest_content h pc m d f source source)
      (order_commits_newest_first h source) (sort_key (\<lambda>c. - fst c) candidates) w = (Inr r, w) \<and>
    newest_valid (manifest_evidence h g gb pc d f source) (visible candidates) r"
  using search_pure [OF assms] by (metis ret_def)

definition tag_evidence :: "'w host \<Rightarrow> answers \<Rightarrow> commit_id \<Rightarrow> timestamp_tag \<Rightarrow> timestamp_baseline option" where
  "tag_evidence h g source tag =
     (case validate_timestamp_tag (fromisoformat h) tag of
        Inl _ \<Rightarrow> None
      | Inr a \<Rightarrow> if ancestor_in g (va_source a) source then Some (tag_baseline tag a) else None)"

lemma validated_source:
  "validate_timestamp_tag isofmt tag = Inr a \<Longrightarrow> va_source a = tag_commit_id tag"
  by (auto simp: validate_timestamp_tag_def Let_def bindE_Inr_iff check_source_def annotation_fail_def split: if_split_asm)

lemma tag_candidates_fixed:
  assumes "fixed_git h g"
  shows "\<exists>valid. tag_candidates h source tags w = (Inr (List.map_filter (tag_evidence h g source) tags, valid), w)"
proof -
  have "\<exists>valid. foldP (\<lambda>tag (candidates, any_valid).
         case validate_timestamp_tag (fromisoformat h) tag of
           Inl _ \<Rightarrow> ret (candidates, any_valid)
         | Inr a \<Rightarrow>
             bindP (is_ancestor_commit h (va_source a) source) (\<lambda>anc.
               ret (if anc then candidates @ [tag_baseline tag a] else candidates, True)))
       tags (cs, any) w = (Inr (cs @ List.map_filter (tag_evidence h g source) tags, valid), w)" for cs any
  proof (induction tags arbitrary: cs any)
    case (Cons tag tags)
    show ?case
      using Cons.IH [of cs any] Cons.IH [of cs True] Cons.IH [of "cs @ [b]" True for b]
      by (cases "validate_timestamp_tag (fromisoformat h) tag")
        (auto simp: bindP_def is_ancestor_fixed [OF assms] tag_evidence_def List.map_filter_simps)
  qed (simp add: List.map_filter_simps)
  from this [of "[]" False] show ?thesis by (simp add: tag_candidates_def)
qed

lemma sorted_key_last:
  assumes "x \<in> set xs" "sorted (map k xs)"
  shows "k x \<le> k (last xs)"
  using assms by (induction xs) (auto split: if_splits)

lemma newest_baseline_max:
  assumes "cs \<noteq> []"
  shows "newest_baseline cs \<in> set cs"
    and "b \<in> set cs \<Longrightarrow> tb_submitted_at b \<le> tb_submitted_at (newest_baseline cs)"
proof -
  let ?cs = "sort_key baseline_sort_key cs"
  have ne: "?cs \<noteq> []" using assms by (metis set_empty set_sort)
  then show "newest_baseline cs \<in> set cs" unfolding newest_baseline_def by (metis last_in_set set_sort)
  assume "b \<in> set cs"
  then have "b \<in> set ?cs" by simp
  moreover have "sorted (map baseline_sort_key ?cs)" by simp
  ultimately have "baseline_sort_key b \<le> baseline_sort_key (last ?cs)"
    by (rule sorted_key_last)
  then show "tb_submitted_at b \<le> tb_submitted_at (newest_baseline cs)"
    by (auto simp: baseline_sort_key_def newest_baseline_def less_eq_prod_def)
qed

text \<open>The manifests in the proof directory of a commit, as Git answers.\<close>

definition committed_manifests ::
    "'w host \<Rightarrow> answers \<Rightarrow> (string list \<Rightarrow> string option \<Rightarrow> int \<times> bytes \<times> bytes) \<Rightarrow> commit_id \<Rightarrow> string \<Rightarrow>
     manifest list" where
  "committed_manifests h g gb source d =
     (let listed = proof_paths_of d (answer_text g
            [''ls-tree'', ''-r'', ''-z'', ''--name-only'', source, ''--'', d @ ''/'']);
          specs = map (\<lambda>p. source @ '':'' @ p) (filter (\<lambda>p. str_endswith p ''.json'') listed);
          (code, out, err) = gb [''cat-file'', ''--batch''] (Some (join_with [newline] specs))
      in List.map_filter (\<lambda>(spec, text). manifest_of_text h text) (read_batch specs out []))"

lemma in_map_filter: "y \<in> set (List.map_filter f xs) \<longleftrightarrow> (\<exists>x \<in> set xs. f x = Some y)"
  by (force simp: List.map_filter_def)

lemma candidate_info_manifest: "candidate_info h e = Some x \<Longrightarrow> manifest_of_text h (snd e) = Some (snd x)"
  by (auto simp: candidate_info_def split: option.split_asm if_split_asm tzinfo.split_asm)

lemma json_manifests_fixed:
  assumes "fixed_git h g" "list_tree_json_manifests h source d w = (Inr paths, w')" "paths \<noteq> []"
  shows "paths = filter (\<lambda>p. str_endswith p ''.json'') (proof_paths_of d (answer_text g
    [''ls-tree'', ''-r'', ''-z'', ''--name-only'', source, ''--'', d @ ''/'']))"
  using assms(2,3)
  by (auto simp: list_tree_json_manifests_def list_tree_proof_paths_def bindP_def catchP_def
      git_out_fixed_eq [OF assms(1)] split: if_splits)

lemma batch_fixed:
  assumes "fixed_repository h g gb" "batch_read_tree_texts h specs w = (Inr texts, w')" "t \<in> set texts"
  shows "t \<in> set (read_batch specs (fst (snd (gb [''cat-file'', ''--batch''] (Some (join_with [newline] specs))))) [])"
  using assms(2,3)
  by (cases "gb [''cat-file'', ''--batch''] (Some (join_with [newline] specs))")
    (auto simp: batch_read_tree_texts_def Let_def guardP_iff bindP_def catchP_def runner_run_bytes_def
      fixed_repository_def assms(1) [unfolded fixed_repository_def] split: if_splits)

lemma proof_baselines_evidence:
  assumes h: "fixed_repository h g gb" and "find_proof_commit_baselines h source d f w = (Inr bs, w')" "b \<in> set bs"
  shows "\<exists>m \<in> set (committed_manifests h g gb source d). \<exists>pc. manifest_evidence h g gb pc d f source m = Some b"
proof -
  have g: "fixed_git h g" using h by (simp add: fixed_repository_def)
  let ?search = "\<lambda>pc cs. search_groups
    (\<lambda>m. validate_proof_commit_manifest_content h pc m d f source source)
    (order_commits_newest_first h source) (sort_key (\<lambda>c. - fst c) cs)"
  let ?specs = "map (\<lambda>p. source @ '':'' @ p)"
  let ?rest = "\<lambda>pc. bindP (list_tree_json_manifests h source d) (\<lambda>paths.
    if paths = [] then ret []
    else bindP (batch_read_tree_texts h (?specs paths)) (\<lambda>texts.
      bindP (?search pc (List.map_filter (candidate_info h) texts)) (\<lambda>found.
      ret (case found of None \<Rightarrow> [] | Some b \<Rightarrow> [b]))))"
  from assms(2) obtain cs w1 where
    "(case cs of [] \<Rightarrow> ret [] | pc # _ \<Rightarrow> ?rest pc) w1 = (Inr bs, w')"
    unfolding find_proof_commit_baselines_def by (auto simp only: bindP_Inr_iff)
  with assms(3) obtain pc w2 where "?rest pc w2 = (Inr bs, w')" by (cases cs) auto
  with assms(3) obtain paths texts c w3 w4 w5 w6 where p: "list_tree_json_manifests h source d w2 = (Inr paths, w3)"
    "paths \<noteq> []" and t: "batch_read_tree_texts h (?specs paths) w3 = (Inr texts, w4)"
    and s: "?search pc (List.map_filter (candidate_info h) texts) w5 = (Inr c, w6)"
    and b: "b \<in> set (case c of None \<Rightarrow> [] | Some b \<Rightarrow> [b])"
    by (auto simp: bindP_Inr_iff split: if_splits)
  from b have "c = Some b" by (cases c) auto
  with s search_pure [OF h, of pc d f source "List.map_filter (candidate_info h) texts"]
  obtain x where x: "x \<in> set (List.map_filter (candidate_info h) texts)"
    "manifest_evidence h g gb pc d f source (snd x) = Some b"
    by (auto simp: newest_valid_def visible_def)
  then obtain e where e: "e \<in> set texts" "candidate_info h e = Some x" by (auto simp: in_map_filter)
  from batch_fixed [OF h t e(1)] candidate_info_manifest [OF e(2)]
  have "snd x \<in> set (committed_manifests h g gb source d)"
    unfolding committed_manifests_def Let_def case_prod_beta in_map_filter json_manifests_fixed [OF g p, symmetric]
    by blast
  with x(2) show ?thesis by blast
qed

text \<open>
  C19: a baseline is evidence, and no timestamped ancestor is passed over for an older one. On a
  repository that does not change meanwhile, the commit of the baseline that
  \<open>find_newest_relevant_baseline\<close> returns is an ancestor of the source. A baseline from a tag has a
  tag on that commit whose annotation is valid and says the commit, the time and the triggers of the
  baseline; one from a proof commit has a manifest in the source's tree that is valid for the commit and
  says the time and the triggers, and the proof this manifest names is there and binds the commit. Every valid tag of an ancestor
  was submitted no later than the baseline; and tags are called abandoned only where no valid tag
  is an ancestor's.
\<close>

theorem baseline_is_evidence:
  assumes "fixed_repository h g gb"
    and "find_newest_relevant_baseline h source prefix (Some d) (Some f) w = (Inr r, w')"
  defines "tags \<equiv> tags_of_output prefix (answer_text g [''for-each-ref'',
    ''--format=%(refname:short)%00%(objecttype)%00%(*objectname)%00%(contents)%00'', ''refs/tags/''])"
  shows "(\<forall>b. lb_baseline r = Some b \<longrightarrow> ancestor_in g (tb_source_commit_id b) source \<and>
      (case tb_kind b of
         TAG \<Rightarrow> \<exists>tag \<in> set tags. \<exists>a. validate_timestamp_tag (fromisoformat h) tag = Inr a \<and>
           tag_name tag = tb_tag_name b \<and> tag_commit_id tag = tb_source_commit_id b \<and>
           va_source a = tb_source_commit_id b \<and> va_submitted_at a = tb_submitted_at b \<and> va_triggers a = tb_triggers b
       | PROOF_COMMIT \<Rightarrow> \<exists>m \<in> set (committed_manifests h g gb source d). \<exists>pf payload nm.
           validate_recovery_manifest (fromisoformat h) m (tb_source_commit_id b) f =
             Inr (tb_submitted_at b, tb_triggers b) \<and>
           build_payload f (tb_source_commit_id b) = Inr payload \<and> named_proof m = Some nm \<and>
           blob_in gb source (d @ ''/'' @ nm) = Some pf \<and>
           validate_detached_proof (digest h) pf (Some payload) = Inr ())) \<and>
    (\<forall>tag \<in> set tags. \<forall>a. validate_timestamp_tag (fromisoformat h) tag = Inr a \<longrightarrow>
      ancestor_in g (va_source a) source \<longrightarrow>
      \<not> lb_has_abandoned_tags r \<and> (\<exists>b. lb_baseline r = Some b \<and> va_submitted_at a \<le> tb_submitted_at b))"
proof -
  have g: "fixed_git h g" using assms(1) by (simp add: fixed_repository_def)
  let ?tb = "List.map_filter (tag_evidence h g source) tags"
  from assms(2) obtain tag_base abandoned w1 bs w2 where
    tb: "find_tag_baseline h source prefix w = (Inr (tag_base, abandoned), w1)" and
    pb: "find_proof_commit_baselines h source d f w1 = (Inr bs, w2)" and
    r: "r = (let cs = (case tag_base of None \<Rightarrow> [] | Some b \<Rightarrow> [b]) @ bs in
        if cs \<noteq> [] then \<lparr>lb_baseline = Some (newest_baseline cs), lb_has_abandoned_tags = False\<rparr>
        else \<lparr>lb_baseline = None, lb_has_abandoned_tags = abandoned\<rparr>)"
    unfolding find_newest_relevant_baseline_def by (auto simp: bindP_Inr_iff Let_def)
  let ?cs = "(case tag_base of None \<Rightarrow> [] | Some b \<Rightarrow> [b]) @ bs"
  obtain valid where "tag_candidates h source tags w = (Inr (?tb, valid), w)"
    using tag_candidates_fixed [OF g] by blast
  with tb have tag_base: "tag_base = (if ?tb = [] then None else Some (newest_baseline ?tb))"
    by (auto simp: find_tag_baseline_def enumerate_timestamp_tags_def bindP_Inr_iff git_out_fixed [OF g]
        guardP_iff tags_def split: if_splits)
  let ?evidence = "\<lambda>b. case tb_kind b of
      TAG \<Rightarrow> \<exists>tag \<in> set tags. \<exists>a. validate_timestamp_tag (fromisoformat h) tag = Inr a \<and>
        tag_name tag = tb_tag_name b \<and> tag_commit_id tag = tb_source_commit_id b \<and>
        va_source a = tb_source_commit_id b \<and> va_submitted_at a = tb_submitted_at b \<and> va_triggers a = tb_triggers b
    | PROOF_COMMIT \<Rightarrow> \<exists>m \<in> set (committed_manifests h g gb source d). \<exists>pf payload nm.
        validate_recovery_manifest (fromisoformat h) m (tb_source_commit_id b) f =
          Inr (tb_submitted_at b, tb_triggers b) \<and>
        build_payload f (tb_source_commit_id b) = Inr payload \<and> named_proof m = Some nm \<and>
        blob_in gb source (d @ ''/'' @ nm) = Some pf \<and>
        validate_detached_proof (digest h) pf (Some payload) = Inr ()"
  have tagged: "ancestor_in g (tb_source_commit_id b) source \<and> ?evidence b"
    if "tag \<in> set tags" "tag_evidence h g source tag = Some b" for tag b
  proof -
    from that(2) obtain a where a: "validate_timestamp_tag (fromisoformat h) tag = Inr a"
      "ancestor_in g (va_source a) source" "b = tag_baseline tag a"
      by (auto simp: tag_evidence_def split: sum.splits if_splits)
    then show ?thesis
      using that(1) validated_source [OF a(1)] by (force simp: tag_baseline_def)
  qed
  have manifest: "ancestor_in g (tb_source_commit_id b) source \<and> ?evidence b"
    if "m \<in> set (committed_manifests h g gb source d)" "manifest_evidence h g gb pc d f source m = Some b" for m pc b
    using manifest_evidenceD(2-5) [OF that(2)] that(1) by auto
  have cs: "b \<in> set ?cs \<Longrightarrow> (\<exists>tag \<in> set tags. tag_evidence h g source tag = Some b) \<or>
      (\<exists>m \<in> set (committed_manifests h g gb source d). \<exists>pc. manifest_evidence h g gb pc d f source m = Some b)" for b
    using proof_baselines_evidence [OF assms(1) pb] newest_baseline_max(1) [of ?tb] tag_base
    by (auto simp: List.map_filter_def split: option.splits if_splits)
  have found: "lb_baseline r = Some b \<Longrightarrow> b \<in> set ?cs" for b
    using r newest_baseline_max(1) [of ?cs] by (auto simp: Let_def split: if_splits)
  have "\<forall>b. lb_baseline r = Some b \<longrightarrow> ancestor_in g (tb_source_commit_id b) source \<and> ?evidence b"
    using found cs tagged manifest by blast
  moreover have "\<not> lb_has_abandoned_tags r \<and> (\<exists>b. lb_baseline r = Some b \<and> va_submitted_at a \<le> tb_submitted_at b)"
    if "tag \<in> set tags" "validate_timestamp_tag (fromisoformat h) tag = Inr a" "ancestor_in g (va_source a) source"
    for tag a
  proof -
    have "tag_baseline tag a \<in> set ?tb"
      using that by (force simp: List.map_filter_def tag_evidence_def)
    then have ne: "?tb \<noteq> []" and "tb_submitted_at (tag_baseline tag a) \<le> tb_submitted_at (newest_baseline ?tb)"
      using newest_baseline_max(2) [of ?tb] by force+
    moreover have "newest_baseline ?tb \<in> set ?cs" using tag_base ne by simp
    then have "?cs \<noteq> []" "tb_submitted_at (newest_baseline ?tb) \<le> tb_submitted_at (newest_baseline ?cs)"
      using newest_baseline_max(2) [of ?cs] by force+
    ultimately show ?thesis using r by (simp add: Let_def tag_baseline_def)
  qed
  ultimately show ?thesis by blast
qed

section \<open>An example\<close>

definition tagged_commit :: commit_id where
  "tagged_commit = replicate 40 (CHR ''a'')"

definition tagged_answers :: answers where
  "tagged_answers args inp = (0,
     (if hd args = ''for-each-ref''
      then ''ots/t'' @ [nul] @ ''tag'' @ [nul] @ tagged_commit @ [nul] @
        join_with [newline] [''git-ots schema: 1'', ''source: '' @ tagged_commit, ''submitted-at: 1970'',
          ''proof: '' @ tagged_commit @ ''.ots'', ''triggers: max_age''] @ [newline, nul, newline]
      else []), [])"

definition tagged_host :: "file_store host" where
  "tagged_host = (git_host tagged_answers)\<lparr>fromisoformat := \<lambda>_. Some (7, UtcTime)\<rparr>"

lemma tagged_fixed: "fixed_repository tagged_host tagged_answers (\<lambda>_ _. (128, [], []))"
  by (simp add: fixed_repository_def fixed_git_def tagged_host_def git_host_def file_host_def)

lemma tagged_found:
  "find_newest_relevant_baseline tagged_host ''c'' ''ots/'' (Some ''ots'') (Some ''sha1'') [] =
     (Inr \<lparr>lb_baseline = Some \<lparr>tb_source_commit_id = tagged_commit, tb_submitted_at = 7,
        tb_triggers = [''max_age''], tb_tag_name = ''ots/t'', tb_proof_commit_id = None, tb_kind = TAG\<rparr>,
      lb_has_abandoned_tags = False\<rparr>, [])"
  by code_simp

lemma baseline_is_evidence_witness:
  "ancestor_in tagged_answers tagged_commit ''c'' \<and>
   (\<exists>tag a. validate_timestamp_tag (fromisoformat tagged_host) tag = Inr a \<and> va_source a = tagged_commit \<and>
      va_submitted_at a = 7)"
  using baseline_is_evidence [OF tagged_fixed tagged_found] by auto

text \<open>
  Three manifests: the newest names a commit whose proof is not there, the other two are valid.
\<close>

definition proof_commit_host :: "file_store host" where
  "proof_commit_host = tagged_host\<lparr>digest := \<lambda>_ _. replicate 32 0,
     run_git_bytes := \<lambda>_ _ w. (Inr (0, stored_proof, []), w)\<rparr>"

definition other_manifest :: manifest where
  "other_manifest =
     projr (build_manifest ''sha1'' tagged_commit (tagged_commit @ ''.ots'') ''HEAD'' 0 [''max_age''])"

definition example_candidates :: "(instant \<times> manifest) list" where
  "example_candidates = [(3, other_manifest), (5, example_manifest), (7, [(''source_commit'', JStr ''y'')])]"

lemma proof_commit_fixed: "fixed_repository proof_commit_host tagged_answers (\<lambda>_ _. (0, stored_proof, []))"
  by (simp add: fixed_repository_def fixed_git_def proof_commit_host_def tagged_host_def git_host_def file_host_def)

definition example_evidence :: "manifest \<Rightarrow> timestamp_baseline option" where
  "example_evidence = manifest_evidence proof_commit_host tagged_answers (\<lambda>_ _. (0, stored_proof, []))
     ''p'' ''ots'' ''sha1'' ''c''"

lemma example_evidence_of:
  "map_option tb_source_commit_id (example_evidence other_manifest) = Some tagged_commit"
  "map_option tb_source_commit_id (example_evidence example_manifest) = Some example_commit"
  "example_evidence [(''source_commit'', JStr ''y'')] = None"
  by code_simp+

lemma example_visible: "visible example_candidates = example_candidates"
  by code_simp

lemma search_finds_newest_witness:
  "\<exists>b. search_groups (\<lambda>m. validate_proof_commit_manifest_content proof_commit_host ''p'' m ''ots'' ''sha1'' ''c'' ''c'')
      (order_commits_newest_first proof_commit_host ''c'') (sort_key (\<lambda>c. - fst c) example_candidates) [] =
      (Inr (Some b), []) \<and> tb_source_commit_id b = example_commit"
proof -
  obtain r where r: "search_groups (\<lambda>m. validate_proof_commit_manifest_content proof_commit_host ''p'' m ''ots'' ''sha1''
      ''c'' ''c'') (order_commits_newest_first proof_commit_host ''c'') (sort_key (\<lambda>c. - fst c) example_candidates) [] =
      (Inr r, [])" and n: "newest_valid example_evidence example_candidates r"
    using search_finds_newest [OF proof_commit_fixed, of "''p''" "''ots''" "''sha1''" "''c''" example_candidates "[]"]
    unfolding example_visible example_evidence_def by blast
  from n example_evidence_of obtain b where "r = Some b" "tb_source_commit_id b = example_commit"
    by (cases r) (auto simp: newest_valid_def example_candidates_def)
  with r show ?thesis by blast
qed

text \<open>
  Two manifests that claim one commit with one submission time are not both looked at: the
  later one in path order takes the place of the other, and when it is not valid the search passes
  over the valid one, which it finds alone, and finds nothing.
\<close>

theorem stray_manifest_hides_proof:
  assumes "claim m = Some s" "claim m' = Some s" "v m = Some b" "v m' = None"
  shows "search_groups (\<lambda>m. ret (v m)) order [(t, m)] = ret (Some b) \<and>
    search_groups (\<lambda>m. ret (v m)) order [(t, m), (t, m')] = ret None"
proof
  show "search_groups (\<lambda>m. ret (v m)) order [(t, m)] = ret (Some b)"
    by (rule ext) (simp add: assms claims_of_def)
  show "search_groups (\<lambda>m. ret (v m)) order [(t, m), (t, m')] = ret None"
    by (rule ext) (simp add: assms claims_of_def)
qed

lemma stray_manifest_hides_proof_witness:
  "search_groups (\<lambda>m. ret (if m = [(''source_commit'', JStr ''x'')]
        then Some (manifest_baseline ''p'' ''x'' (7, [])) else None)) ret
     [(7, [(''source_commit'', JStr ''x'')]), (7, [(''source_commit'', JStr ''x''), (''schema'', JNull)])] = ret None"
proof -
  have c: "claim [(''source_commit'', JStr ''x'')] = Some ''x''"
    "claim [(''source_commit'', JStr ''x''), (''schema'', JNull)] = Some ''x''"
    by (simp_all add: json_get_str_def json_get_def)
  show ?thesis
    by (rule stray_manifest_hides_proof [THEN conjunct2, OF c]) simp_all
qed

end
