(* ===== verification/ProofParser.thy ===== *)
theory ProofParser
  imports ProofTree
begin

text \<open>
  The parser of \<open>proof_tree.py\<close> against its serializer and against the tag scan of
  \<open>timestamp.py\<close>: enough fuel, well-formed results, the round trip in both directions, and
  the equality of the two recursive descents.
\<close>

section \<open>Spans of a buffer and the bytes written for them\<close>

text \<open>
  \<open>tight data off off' w\<close>: the span \<open>data[off:off']\<close> is not empty, and \<open>w\<close> is its canonical
  form: no longer than the span, and equal to it if as long.
\<close>

definition tight :: "bytes \<Rightarrow> nat \<Rightarrow> nat \<Rightarrow> bytes \<Rightarrow> bool" where
  "tight data off off' w \<longleftrightarrow>
     off < off' \<and> off' \<le> length data \<and> length w \<le> off' - off \<and>
     (length w = off' - off \<longrightarrow> bslice data off off' = w)"

lemma tight_append:
  assumes "tight data i j v" "tight data j k w"
  shows "tight data i k (v @ w)"
proof -
  have "bslice data i k = bslice data i j @ bslice data j k"
    using assms by (simp add: tight_def bslice_conc)
  with assms show ?thesis by (auto simp: tight_def)
qed

lemma tight_byte: "i < length data \<Longrightarrow> tight data i (Suc i) [data ! i]"
  by (simp add: tight_def bslice_Cons)

lemma tight_Cons:
  "i < length data \<Longrightarrow> data ! i = b \<Longrightarrow> tight data (Suc i) k w \<Longrightarrow> tight data i k (b # w)"
  using tight_append [OF tight_byte] by fastforce

lemma tight_span: "i < j \<Longrightarrow> j \<le> length data \<Longrightarrow> tight data i j (bslice data i j)"
  by (simp add: tight_def)

lemma tight_append_span:
  "tight data i j v \<Longrightarrow> j \<le> k \<Longrightarrow> k \<le> length data \<Longrightarrow> tight data i k (v @ bslice data j k)"
  by (cases "j = k") (auto intro!: tight_append [OF _ tight_span])

lemma tight_varuint:
  "read_varuint data off = Inr (v, off') \<Longrightarrow> tight data off off' (encode_varuint_loop v)"
  using varuint_codec.rd_tight varuint_codec.rd_bounds by (simp add: tight_def)

section \<open>Attestations and operations\<close>

lemma decode128_append: "decode128 bs = Some (v, n) \<Longrightarrow> decode128 (bs @ xs) = Some (v, n)"
  by (induction bs arbitrary: v n) (auto split: if_splits)

lemma decode128_take: "decode128 bs = Some (v, n) \<Longrightarrow> n \<le> m \<Longrightarrow> decode128 (take m bs) = Some (v, n)"
proof (induction bs arbitrary: v n m)
  case (Cons b bs)
  then show ?case by (cases m) (auto split: if_splits)
qed simp

definition wf_op :: "bytes \<Rightarrow> bool" where
  "wf_op op =
     (case op of
        [] \<Rightarrow> False
      | t # rest \<Rightarrow>
          if t \<in> set unary_op_tags then rest = []
          else t \<in> set binary_op_tags \<and>
            (case decode128 rest of None \<Rightarrow> False | Some (v, n) \<Rightarrow> length rest = n + v))"

lemma op_tag_not_marker: "wf_op op \<Longrightarrow> \<exists>t rest. op = t # rest \<and> t \<noteq> 0x00 \<and> t \<noteq> 0xFF"
  by (auto simp: wf_op_def unary_op_tags_def binary_op_tags_def split: list.splits if_splits)

lemma read_operation_tight:
  assumes "read_operation data off = Inr (op, off')"
  shows "wf_op op \<and> off < off' \<and> off' \<le> length data \<and> op = bslice data off off'"
proof -
  have off: "off < length data"
    using assms by (auto simp: read_operation_def split: if_splits)
  then have drop: "drop off data = data ! off # drop (Suc off) data"
    by (simp add: Cons_nth_drop_Suc)
  show ?thesis
  proof (cases "data ! off \<in> set unary_op_tags")
    case True
    with assms off show ?thesis
      by (auto simp: read_operation_def Let_def wf_op_def bslice_Cons)
  next
    case False
    with assms off obtain v o2 where bin: "data ! off \<in> set binary_op_tags"
      and rd: "read_varuint data (Suc off) = Inr (v, o2)"
      and le: "o2 + v \<le> length data" and off': "off' = o2 + v"
      and op: "op = bslice data off off'"
      by (auto simp: read_operation_def Let_def bindE_Inr_iff split: if_splits)
    from rd obtain n where d: "decode128 (drop (Suc off) data) = Some (v, n)"
      and o2: "o2 = Suc off + n"
      by (auto simp: read_varuint_Inr_iff)
    have "op = data ! off # take (n + v) (drop (Suc off) data)"
      using off op by (simp add: off' o2 bslice_Cons) (simp add: bslice_def)
    moreover have "decode128 (take (n + v) (drop (Suc off) data)) = Some (v, n)"
      using d by (rule decode128_take) simp
    ultimately show ?thesis
      using False bin le op by (simp add: wf_op_def off' o2)
  qed
qed

lemma read_operation_at:
  assumes "wf_op op" "drop off data = op @ post"
  shows "read_operation data off = Inr (op, off + length op)"
proof -
  from assms(1) obtain t rest where op: "op = t # rest"
    using op_tag_not_marker by blast
  from assms(2) op have off: "off < length data"
    by (metis append_Cons drop_all list.distinct(1) not_le)
  then have nth: "data ! off = t" and drop: "drop (Suc off) data = rest @ post"
    using assms(2) op by (simp_all add: Cons_nth_drop_Suc [symmetric])
  have whole: "bslice data off (off + length op) = op"
    using assms(2) by (simp add: bslice_def)
  show ?thesis
  proof (cases "t \<in> set unary_op_tags")
    case True
    with assms(1) op off nth whole show ?thesis
      by (simp add: wf_op_def read_operation_def Let_def)
  next
    case False
    with assms(1) op obtain v n where "t \<in> set binary_op_tags"
      and d: "decode128 rest = Some (v, n)" and len: "length rest = n + v"
      by (auto simp: wf_op_def split: option.splits)
    moreover from drop d have "read_varuint data (Suc off) = Inr (v, Suc off + n)"
      by (simp add: read_varuint_decode128 decode128_append)
    moreover have "Suc off + length rest \<le> length data"
      using arg_cong [OF drop, of length] off by simp
    ultimately show ?thesis
      using False off nth whole op by (simp add: read_operation_def Let_def add.assoc)
  qed
qed

interpretation operation_codec: wire_codec "\<lambda>op. op" read_operation wf_op
proof unfold_locales
  fix op pre post :: bytes
  assume "wf_op op"
  then show "read_operation (pre @ op @ post) (length pre) = Inr (op, length pre + length op)"
    by (rule read_operation_at) simp
next
  fix data off op off'
  assume rd: "read_operation data off = Inr (op, off')"
  note tight = read_operation_tight [OF rd]
  then show "off < off' \<and> off' \<le> length data" by simp
  show "wf_op op \<and> length op \<le> off' - off \<and> (length op = off' - off \<longrightarrow> bslice data off off' = op)"
    using tight by auto
qed

definition wf_att :: "attestation \<Rightarrow> bool" where
  "wf_att a \<longleftrightarrow> length (att_tag a) = 8"

lemma read_attestation_tight:
  assumes "read_attestation data off = Inr (a, off')"
  shows "wf_att a \<and> tight data off off' (tl (serialize_attestation a))"
proof -
  from assms obtain v o2 where len: "off + 8 \<le> length data"
    and rd: "read_varuint data (off + 8) = Inr (v, o2)" and le: "o2 + v \<le> length data"
    and off': "off' = o2 + v"
    and a: "a = \<lparr>att_tag = bslice data off (off + 8), att_payload = bslice data o2 off'\<rparr>"
    by (auto simp: read_attestation_def Let_def bindE_Inr_iff split: if_splits)
  have "length (att_payload a) = v" using le by (simp add: a off')
  then have w: "tl (serialize_attestation a) =
      (bslice data off (off + 8) @ encode_varuint_loop v) @ bslice data o2 off'"
    by (simp add: serialize_attestation_def a)
  have "tight data off o2 (bslice data off (off + 8) @ encode_varuint_loop v)"
    using len by (intro tight_append [OF tight_span tight_varuint [OF rd]]) simp_all
  then have "tight data off off' (tl (serialize_attestation a))"
    unfolding w using le by (intro tight_append_span) (simp_all add: off')
  moreover have "wf_att a" using len by (simp add: a wf_att_def)
  ultimately show ?thesis by simp
qed

lemma read_attestation_at:
  assumes "wf_att a" "drop off data = tl (serialize_attestation a) @ post"
  shows "read_attestation data off = Inr (a, off + length (tl (serialize_attestation a)))"
proof -
  define e where "e = encode_varuint_loop (length (att_payload a))"
  have d: "drop off data = att_tag a @ e @ att_payload a @ post"
    using assms(2) by (simp add: serialize_attestation_def e_def)
  have tag: "length (att_tag a) = 8" using assms(1) by (simp add: wf_att_def)
  have d8: "drop (off + 8) data = e @ att_payload a @ post"
    using arg_cong [OF d, of "drop 8"] by (simp add: tag add.commute)
  have len: "length data = off + 8 + length e + length (att_payload a) + length post"
    using arg_cong [OF d, of length] tag by (cases "off \<le> length data") auto
  have "read_varuint data (off + 8) = Inr (length (att_payload a), off + 8 + length e)"
    using varuint_codec.rd_ser_at [OF TrueI, of "off + 8" data] d8 len by (simp add: e_def)
  moreover have "drop (off + 8 + length e) data = att_payload a @ post"
    using arg_cong [OF d8, of "drop (length e)"] by (simp add: add.commute)
  moreover have "bslice data off (off + 8) = att_tag a"
    using d tag by (simp add: bslice_def)
  ultimately show ?thesis
    using len tag
    by (simp add: read_attestation_def Let_def bslice_def serialize_attestation_def
        flip: e_def)
qed

interpretation attestation_codec:
  wire_codec "\<lambda>a. tl (serialize_attestation a)" read_attestation wf_att
proof unfold_locales
  fix a and pre post :: bytes
  assume "wf_att a"
  then show "read_attestation (pre @ tl (serialize_attestation a) @ post) (length pre) =
      Inr (a, length pre + length (tl (serialize_attestation a)))"
    by (rule read_attestation_at) simp
next
  fix data off a off'
  assume rd: "read_attestation data off = Inr (a, off')"
  note tight = read_attestation_tight [OF rd]
  then show "off < off' \<and> off' \<le> length data" by (simp add: tight_def)
  show "wf_att a \<and> length (tl (serialize_attestation a)) \<le> off' - off \<and>
      (length (tl (serialize_attestation a)) = off' - off \<longrightarrow>
       bslice data off off' = tl (serialize_attestation a))"
    using tight by (simp add: tight_def)
qed

section \<open>Well-formed trees\<close>

text \<open>What the parser builds: no node without items, 8-byte tags, whole operations.\<close>

fun wf_node :: "node \<Rightarrow> bool"
  and wf_item :: "item \<Rightarrow> bool" where
  "wf_node (Node its) \<longleftrightarrow> its \<noteq> [] \<and> list_all wf_item its"
| "wf_item (Att a) \<longleftrightarrow> wf_att a"
| "wf_item (Branch op ch) \<longleftrightarrow> wf_op op \<and> wf_node ch"

text \<open>The number of operations on the longest path.\<close>

fun height_node :: "node \<Rightarrow> nat"
  and height_item :: "item \<Rightarrow> nat" where
  "height_node (Node its) = foldr max (map height_item its) 0"
| "height_item (Att a) = 0"
| "height_item (Branch op ch) = Suc (height_node ch)"

text \<open>The bytes of a well-formed tree: the serializer, which does not fail on one.\<close>

definition wire_node :: "node \<Rightarrow> bytes" where
  "wire_node nd = (case serialize_node nd of Inl _ \<Rightarrow> [] | Inr w \<Rightarrow> w)"

definition wire_item :: "item \<Rightarrow> bytes" where
  "wire_item it = (case serialize_item it of Inl _ \<Rightarrow> [] | Inr w \<Rightarrow> w)"

definition wire_items :: "item list \<Rightarrow> bytes" where
  "wire_items its = (case serialize_items its of Inl _ \<Rightarrow> [] | Inr w \<Rightarrow> w)"

lemma serialize_total:
  "wf_item it \<Longrightarrow> \<exists>w. serialize_item it = Inr w"
  "wf_node nd \<Longrightarrow> \<exists>w. serialize_node nd = Inr w"
  "list_all wf_item its \<Longrightarrow> \<exists>w. serialize_items its = Inr w"
  by (induction it and nd and its rule: serialize_item_serialize_node_serialize_items.induct)
    (fastforce simp: bindE_Inr_iff)+

lemma serialize_wire:
  "wf_node nd \<Longrightarrow> serialize_node nd = Inr (wire_node nd)"
  "wf_item it \<Longrightarrow> serialize_item it = Inr (wire_item it)"
  "list_all wf_item its \<Longrightarrow> serialize_items its = Inr (wire_items its)"
  using serialize_total by (fastforce simp: wire_node_def wire_item_def wire_items_def)+

lemma wire_simps:
  "wf_node (Node its) \<Longrightarrow> wire_node (Node its) = wire_items its"
  "wire_item (Att a) = serialize_attestation a"
  "wf_item (Branch op ch) \<Longrightarrow> wire_item (Branch op ch) = op @ wire_node ch"
  "wf_item it \<Longrightarrow> wire_items [it] = wire_item it"
  "wf_item it \<Longrightarrow> list_all wf_item its \<Longrightarrow> its \<noteq> [] \<Longrightarrow>
     wire_items (it # its) = 0xFF # wire_item it @ wire_items its"
proof -
  show "wf_node (Node its) \<Longrightarrow> wire_node (Node its) = wire_items its"
    using serialize_wire(1) [of "Node its"] serialize_wire(3) [of its] by simp
  show "wire_item (Att a) = serialize_attestation a"
    by (simp add: wire_item_def)
  show "wf_item (Branch op ch) \<Longrightarrow> wire_item (Branch op ch) = op @ wire_node ch"
    using serialize_wire(1) [of ch] serialize_wire(2) [of "Branch op ch"] by simp
  show "wf_item it \<Longrightarrow> wire_items [it] = wire_item it"
    using serialize_wire(2) [of it] serialize_wire(3) [of "[it]"] by simp
  show "wf_item it \<Longrightarrow> list_all wf_item its \<Longrightarrow> its \<noteq> [] \<Longrightarrow>
     wire_items (it # its) = 0xFF # wire_item it @ wire_items its"
    using serialize_wire(2) [of it] serialize_wire(3) [of its]
      serialize_wire(3) [of "it # its"] by simp
qed

lemma wire_item_first: "wf_item it \<Longrightarrow> \<exists>t r. wire_item it = t # r \<and> t \<noteq> 0xFF"
proof (cases it)
  case (Att a)
  then show ?thesis by (simp add: wire_simps serialize_attestation_def)
next
  case (Branch op ch)
  moreover assume "wf_item it"
  ultimately show ?thesis using op_tag_not_marker [of op] by (auto simp: wire_simps)
qed

section \<open>What the parser returns\<close>

lemma height_items_le: "height_node (Node its) \<le> m \<longleftrightarrow> (\<forall>it \<in> set its. height_item it \<le> m)"
  by (induction its) auto

lemma parse_sound:
  "parse_node n data off depth = Inr (nd, off') \<Longrightarrow>
     wf_node nd \<and> depth + height_node nd \<le> max_depth \<and> tight data off off' (wire_node nd)"
  "parse_items n data off depth = Inr (its, off') \<Longrightarrow> depth \<le> max_depth \<Longrightarrow>
     its \<noteq> [] \<and> list_all wf_item its \<and> depth + height_node (Node its) \<le> max_depth \<and>
     tight data off off' (wire_items its)"
  "parse_item n data off depth = Inr (it, off') \<Longrightarrow> depth \<le> max_depth \<Longrightarrow>
     wf_item it \<and> depth + height_item it \<le> max_depth \<and> tight data off off' (wire_item it)"
proof (induction n data off depth and n data off depth and n data off depth
    arbitrary: nd off' and its off' and it off'
    rule: parse_node_parse_items_parse_item.induct)
  case (2 n data off depth)
  then have depth: "depth \<le> max_depth" by (simp split: if_splits)
  with 2(2) obtain its where p: "parse_items n data off depth = Inr (its, off')"
    and nd: "nd = Node its"
    by (auto simp: bindE_Inr_iff)
  from 2(1) [OF _ p depth] depth
  have "wf_node nd" and "depth + height_node nd \<le> max_depth"
    and "tight data off off' (wire_items its)"
    by (auto simp: nd)
  then show ?case by (simp add: nd wire_simps)
next
  case (4 n data off depth)
  show ?case
  proof (cases "off < length data \<and> data ! off = 0xFF")
    case True
    with 4(4) obtain it off1 its' where p1: "parse_item n data (off + 1) depth = Inr (it, off1)"
      and p2: "parse_items n data off1 depth = Inr (its', off')" and its: "its = it # its'"
      by (auto simp: bindE_Inr_iff)
    note IH1 = 4(1) [OF True p1 4(5)]
    note IH2 = 4(2) [OF True p1 refl p2 4(5)]
    have "tight data off off' (0xFF # wire_item it @ wire_items its')"
      using True IH1 IH2 by (intro tight_Cons tight_append [of data "Suc off" off1]) auto
    then show ?thesis using IH1 IH2 by (auto simp: its wire_simps)
  next
    case False
    with 4(4) obtain it where p: "parse_item n data off depth = Inr (it, off')"
      and its: "its = [it]"
      by (auto simp: bindE_Inr_iff split: if_splits)
    have "\<not> length data \<le> off" using 4(4) False by (auto split: if_splits)
    from 4(3) [OF False this p 4(5)] show ?thesis by (simp add: its wire_simps)
  qed
next
  case (6 n data off depth)
  then have off: "\<not> length data \<le> off" by (auto split: if_splits)
  show ?case
  proof (cases "data ! off = 0x00")
    case True
    with 6 off obtain a where rd: "read_attestation data (off + 1) = Inr (a, off')"
      and it: "it = Att a"
      by (auto simp: bindE_Inr_iff)
    have "tight data off off' (0x00 # tl (serialize_attestation a))"
      using read_attestation_tight [OF rd] off True by (intro tight_Cons) auto
    with read_attestation_tight [OF rd] 6(3) show ?thesis
      by (simp add: it wire_simps) (simp add: serialize_attestation_def)
  next
    case False
    with 6(2) off obtain op off1 ch where rd: "read_operation data off = Inr (op, off1)"
      and p: "parse_node n data off1 (depth + 1) = Inr (ch, off')" and it: "it = Branch op ch"
      by (auto simp: bindE_Inr_iff)
    note IH = 6(1) [OF off False rd refl p]
    have "tight data off off1 op"
      using read_operation_tight [OF rd] by (auto simp: tight_def)
    then have "tight data off off' (op @ wire_node ch)"
      using IH by (blast intro: tight_append)
    with IH conjunct1 [OF read_operation_tight [OF rd]] show ?thesis
      by (simp add: it wire_simps)
  qed
qed simp_all

text \<open>
  The fuel is enough: each call of \<open>parse_node\<close> takes three units and consumes at least the
  operation before it.
\<close>

lemma read_operation_fuel [simp]: "read_operation data off \<noteq> Inl OutOfFuel"
  by (auto simp: read_operation_def Let_def bindE_Inl_iff split: if_splits
      dest!: read_varuint_error)

lemma read_attestation_fuel [simp]: "read_attestation data off \<noteq> Inl OutOfFuel"
  by (auto simp: read_attestation_def Let_def bindE_Inl_iff split: if_splits
      dest!: read_varuint_error)

lemma parse_fuel_enough:
  "3 * (length data - off) + 3 \<le> n \<Longrightarrow> parse_node n data off depth \<noteq> Inl OutOfFuel"
  "depth \<le> max_depth \<Longrightarrow> 3 * (length data - off) + 2 \<le> n \<Longrightarrow>
     parse_items n data off depth \<noteq> Inl OutOfFuel"
  "depth \<le> max_depth \<Longrightarrow> 3 * (length data - off) + 1 \<le> n \<Longrightarrow>
     parse_item n data off depth \<noteq> Inl OutOfFuel"
proof (induction n data off depth and n data off depth and n data off depth
    rule: parse_node_parse_items_parse_item.induct)
  case (2 n data off depth)
  then show ?case by (auto simp: bindE_Inl_iff split: prod.splits)
next
  case (4 n data off depth)
  show ?case
  proof
    assume fail: "parse_items (Suc n) data off depth = Inl OutOfFuel"
    show False
    proof (cases "off < length data \<and> data ! off = 0xFF")
      case True
      then have "parse_item n data (off + 1) depth \<noteq> Inl OutOfFuel"
        using 4(1) [OF True 4(4)] 4(5) by simp
      with fail True obtain it off1 where p1: "parse_item n data (off + 1) depth = Inr (it, off1)"
        and p2: "parse_items n data off1 depth = Inl OutOfFuel"
        by (auto simp: bindE_Inl_iff)
      have "off + 1 < off1" "off1 \<le> length data"
        using parse_sound(3) [OF p1 4(4)] by (auto simp: tight_def)
      then have "3 * (length data - off1) + 2 \<le> n" using 4(5) by linarith
      with 4(2) [OF True p1 refl 4(4)] p2 show False by simp
    next
      case False
      with fail have "\<not> length data \<le> off" "parse_item n data off depth = Inl OutOfFuel"
        by (auto simp: bindE_Inl_iff split: if_splits)
      with 4(3) [OF False _ 4(4)] 4(5) show False by simp
    qed
  qed
next
  case (6 n data off depth)
  show ?case
  proof
    assume fail: "parse_item (Suc n) data off depth = Inl OutOfFuel"
    then have off: "\<not> length data \<le> off" and b: "data ! off \<noteq> 0x00"
      by (auto simp: bindE_Inl_iff split: if_splits)
    with fail obtain op off1 where rd: "read_operation data off = Inr (op, off1)"
      and p: "parse_node n data off1 (depth + 1) = Inl OutOfFuel"
      by (auto simp: bindE_Inl_iff)
    have "off < off1" "off1 \<le> length data"
      using read_operation_tight [OF rd] by simp_all
    then have "3 * (length data - off1) + 3 \<le> n" using 6(3) by linarith
    with 6(1) [OF off b rd refl] p show False by simp
  qed
qed simp_all

lemma parse_timestamp_fuel: "parse_timestamp data off \<noteq> Inl OutOfFuel"
  unfolding parse_timestamp_def by (rule parse_fuel_enough(1)) (simp add: parse_fuel_def)

text \<open>The other direction: the serialized form of a tree parses to the tree.\<close>

lemma drop_nonempty: "drop off data = w @ post \<Longrightarrow> w \<noteq> [] \<Longrightarrow> off < length data"
  by (metis append_is_Nil_conv drop_all not_le)

lemma drop_append_drop: "drop off data = v @ w \<Longrightarrow> drop (off + length v) data = w"
  by (metis add.commute append_eq_conv_conj drop_drop)

lemma parse_complete:
  "wf_node nd \<Longrightarrow> depth + height_node nd \<le> max_depth \<Longrightarrow>
     drop off data = wire_node nd @ post \<Longrightarrow> 3 * (length data - off) + 3 \<le> n \<Longrightarrow>
     parse_node n data off depth = Inr (nd, off + length (wire_node nd))"
  "its \<noteq> [] \<Longrightarrow> list_all wf_item its \<Longrightarrow> depth + height_node (Node its) \<le> max_depth \<Longrightarrow>
     drop off data = wire_items its @ post \<Longrightarrow> 3 * (length data - off) + 2 \<le> n \<Longrightarrow>
     parse_items n data off depth = Inr (its, off + length (wire_items its))"
  "wf_item it \<Longrightarrow> depth + height_item it \<le> max_depth \<Longrightarrow>
     drop off data = wire_item it @ post \<Longrightarrow> 3 * (length data - off) + 1 \<le> n \<Longrightarrow>
     parse_item n data off depth = Inr (it, off + length (wire_item it))"
proof (induction n data off depth and n data off depth and n data off depth
    arbitrary: nd post and its post and it post
    rule: parse_node_parse_items_parse_item.induct)
  case (2 n data off depth)
  obtain its where nd: "nd = Node its" by (cases nd)
  have "parse_items n data off depth = Inr (its, off + length (wire_items its))"
    using 2 by (intro 2(1)) (auto simp: nd wire_simps)
  with 2 show ?case by (simp add: nd wire_simps)
next
  case (4 n data off depth)
  obtain it its' where its: "its = it # its'" using 4(4) by (cases its) auto
  then have wf: "wf_item it" "list_all wf_item its'" using 4(5) by simp_all
  have h: "depth + height_item it \<le> max_depth" "depth + height_node (Node its') \<le> max_depth"
    using 4(6) by (auto simp: its)
  show ?case
  proof (cases "its' = []")
    case True
    then have d: "drop off data = wire_item it @ post" using 4(7) wf by (simp add: its wire_simps)
    from wire_item_first [OF wf(1)] obtain t r where tr: "wire_item it = t # r" "t \<noteq> 0xFF"
      by blast
    have off: "off < length data" using drop_nonempty [OF d] tr by simp
    moreover have "data ! off = t"
      using d off tr by (simp add: Cons_nth_drop_Suc [symmetric])
    ultimately have no: "\<not> (off < length data \<and> data ! off = 0xFF)" using tr by simp
    have "parse_item n data off depth = Inr (it, off + length (wire_item it))"
      using 4(8) off by (intro 4(3) [OF no _ wf(1) h(1) d]) simp_all
    with no off wf True show ?thesis by (simp add: its wire_simps)
  next
    case False
    then have d: "drop off data = 0xFF # wire_item it @ wire_items its' @ post"
      using 4(7) wf by (simp add: its wire_simps)
    have off: "off < length data"
      using drop_nonempty [of off data "0xFF # wire_item it"] d by simp
    then have yes: "off < length data \<and> data ! off = 0xFF"
      and d1: "drop (off + 1) data = wire_item it @ wire_items its' @ post"
      using d by (simp_all add: Cons_nth_drop_Suc [symmetric])
    let ?o1 = "off + 1 + length (wire_item it)"
    have p1: "parse_item n data (off + 1) depth = Inr (it, ?o1)"
      using 4(8) by (intro 4(1) [OF yes wf(1) h(1) d1]) simp
    have "parse_items n data ?o1 depth = Inr (its', ?o1 + length (wire_items its'))"
      using 4(8) off
      by (intro 4(2) [OF yes p1 refl False wf(2) h(2) drop_append_drop [OF d1]]) simp
    with p1 yes wf False show ?thesis by (simp add: its wire_simps)
  qed
next
  case (6 n data off depth)
  from wire_item_first [OF 6(2)] obtain t r where tr: "wire_item it = t # r" by blast
  have off: "off < length data" using drop_nonempty [OF 6(4)] tr by simp
  show ?case
  proof (cases it)
    case (Att a)
    with 6(4) have d: "drop off data = 0x00 # tl (serialize_attestation a) @ post"
      by (simp add: wire_simps serialize_attestation_def)
    then have "data ! off = 0x00" and d1: "drop (off + 1) data = tl (serialize_attestation a) @ post"
      using off by (simp_all add: Cons_nth_drop_Suc [symmetric])
    moreover have "wf_att a" using 6(2) Att by simp
    ultimately show ?thesis
      using off read_attestation_at [OF \<open>wf_att a\<close> d1]
      by (simp add: Att wire_simps serialize_attestation_def)
  next
    case (Branch op ch)
    then have wf: "wf_op op" "wf_node ch" using 6(2) by simp_all
    from 6(4) 6(2) Branch have d: "drop off data = op @ wire_node ch @ post"
      by (simp add: wire_simps)
    have rd: "read_operation data off = Inr (op, off + length op)"
      by (rule read_operation_at [OF wf(1) d])
    from op_tag_not_marker [OF wf(1)] obtain t rest where t: "op = t # rest" "t \<noteq> 0x00" by blast
    then have b: "data ! off \<noteq> 0x00"
      using d off by (simp add: Cons_nth_drop_Suc [symmetric])
    have "off < off + length op" "off + length op \<le> length data"
      using read_operation_tight [OF rd] by simp_all
    then have "3 * (length data - (off + length op)) + 3 \<le> n" using 6(5) by linarith
    then have "parse_node n data (off + length op) (depth + 1) =
        Inr (ch, off + length op + length (wire_node ch))"
      using off b 6(3) Branch
      by (intro 6(1) [OF _ b rd refl wf(2) _ drop_append_drop [OF d]]) simp_all
    with off b rd 6(2) Branch show ?thesis by (simp add: wire_simps)
  qed
qed simp_all

text \<open>A node at a depth, read with the fuel of its buffer, is a wire format of its own.\<close>

definition read_node_at :: "nat \<Rightarrow> bytes \<Rightarrow> nat \<Rightarrow> (node \<times> nat) result" where
  "read_node_at depth data offset = parse_node (parse_fuel data) data offset depth"

interpretation node_codec:
  wire_codec wire_node "read_node_at d" "\<lambda>nd. wf_node nd \<and> d + height_node nd \<le> max_depth"
  for d
proof unfold_locales
  fix nd and pre post :: bytes
  assume "wf_node nd \<and> d + height_node nd \<le> max_depth"
  then show "read_node_at d (pre @ wire_node nd @ post) (length pre) =
      Inr (nd, length pre + length (wire_node nd))"
    unfolding read_node_at_def by (intro parse_complete(1)) (simp_all add: parse_fuel_def)
next
  fix data off nd off'
  assume rd: "read_node_at d data off = Inr (nd, off')"
  note sound = parse_sound(1) [OF rd [unfolded read_node_at_def]]
  then show "off < off' \<and> off' \<le> length data" by (simp add: tight_def)
  show "(wf_node nd \<and> d + height_node nd \<le> max_depth) \<and> length (wire_node nd) \<le> off' - off \<and>
      (length (wire_node nd) = off' - off \<longrightarrow> bslice data off off' = wire_node nd)"
    using sound by (simp add: tight_def)
qed

section \<open>The tag scan is the parser with the tree forgotten\<close>

definition tags_node :: "node \<Rightarrow> bytes set" where
  "tags_node nd = fst ` set (all_attestations nd)"

definition tags_item :: "item \<Rightarrow> bytes set" where
  "tags_item it = fst ` set (item_attestations it)"

lemma tags_simps [simp]:
  "tags_node (Node its) = (\<Union>it \<in> set its. tags_item it)"
  "tags_item (Att a) = {att_tag a}"
  "tags_item (Branch op ch) = tags_node ch"
  by (auto simp: tags_node_def tags_item_def)

text \<open>
  The scan checks the length after a fork marker where the parser indexes past the end: the
  one exception in which they differ.
\<close>

definition scan_error :: "exc \<Rightarrow> exc" where
  "scan_error e = (if e = IndexError then ProofParseError ''truncated fork marker'' else e)"

definition forget :: "('a \<Rightarrow> bytes set) \<Rightarrow> ('a \<times> nat) result \<Rightarrow> (bytes set \<times> nat) result" where
  "forget f r = (case r of Inl e \<Rightarrow> Inl (scan_error e) | Inr (x, off) \<Rightarrow> Inr (f x, off))"

lemma forget_simps [simp]:
  "forget f (Inl e) = Inl (scan_error e)" "forget f (Inr (x, off)) = Inr (f x, off)"
  "scan_error (ProofParseError m) = ProofParseError m"
  "scan_error IndexError = ProofParseError ''truncated fork marker''"
  by (simp_all add: forget_def scan_error_def)

lemma skip_operation_read: "skip_operation data off = bindE (read_operation data off) (\<lambda>(op, o1). Inr o1)"
proof (cases "read_varuint data (off + 1)")
  case (Inr p)
  then show ?thesis by (cases p) (simp add: skip_operation_def read_operation_def Let_def)
qed (simp add: skip_operation_def read_operation_def Let_def)

lemma read_operation_error: "read_operation data off = Inl e \<Longrightarrow> scan_error e = e"
  by (auto simp: read_operation_def Let_def bindE_Inl_iff split: if_splits
      dest!: read_varuint_error)

lemma scan_attestation:
  "(if length data < off + 8 then Inl (ProofParseError ''truncated attestation tag'')
    else bindE (skip_attestation data off) (\<lambda>o1. Inr ({bslice data off (off + 8)}, o1))) =
   forget tags_item (bindE (read_attestation data off) (\<lambda>(a, o1). Inr (Att a, o1)))"
proof (cases "read_varuint data (off + 8)")
  case (Inl e)
  then show ?thesis
    using read_varuint_error [OF Inl]
    by (simp add: skip_attestation_def read_attestation_def Let_def)
next
  case (Inr p)
  then show ?thesis
    by (cases p) (simp add: skip_attestation_def read_attestation_def Let_def)
qed

lemma scan_parse:
  "parse_node n data off depth \<noteq> Inl OutOfFuel \<Longrightarrow>
     scan_tree n data off depth = forget tags_node (parse_node n data off depth)"
  "parse_items n data off depth \<noteq> Inl OutOfFuel \<Longrightarrow>
     scan_loop n data off depth = forget (\<lambda>its. tags_node (Node its)) (parse_items n data off depth)"
  "parse_item n data off depth \<noteq> Inl OutOfFuel \<Longrightarrow> off < length data \<Longrightarrow>
     scan_entry n data off depth = forget tags_item (parse_item n data off depth)"
proof (induction n data off depth and n data off depth and n data off depth
    rule: parse_node_parse_items_parse_item.induct)
  case (2 n data off depth)
  then show ?case
    by (cases "parse_items n data off depth") (auto split: if_splits)
next
  case (4 n data off depth)
  show ?case
  proof (cases "off < length data \<and> data ! off = 0xFF")
    case True
    show ?thesis
    proof (cases "length data \<le> off + 1")
      case end_of_data: True
      then have "parse_item n data (off + 1) depth \<in> {Inl OutOfFuel, Inl IndexError}"
        by (cases n) simp_all
      then have "parse_item n data (off + 1) depth = Inl IndexError"
        using 4(4) True by auto
      with True end_of_data show ?thesis by simp
    next
      case False
      have "parse_item n data (off + 1) depth \<noteq> Inl OutOfFuel" using 4(4) True by auto
      note IH1 = 4(1) [OF True this]
      show ?thesis
      proof (cases "parse_item n data (off + 1) depth")
        case (Inl e)
        with IH1 True False show ?thesis by simp
      next
        case (Inr r)
        then obtain it off1 where p1: "parse_item n data (off + 1) depth = Inr (it, off1)"
          by (cases r) simp
        have "parse_items n data off1 depth \<noteq> Inl OutOfFuel" using 4(4) True p1 by auto
        note IH2 = 4(2) [OF True p1 refl this]
        show ?thesis
          using IH1 IH2 p1 True False by (cases "parse_items n data off1 depth") auto
      qed
    qed
  next
    case no: False
    show ?thesis
    proof (cases "length data \<le> off")
      case True
      with no show ?thesis by simp
    next
      case False
      have "parse_item n data off depth \<noteq> Inl OutOfFuel" using 4(4) no False by auto
      with 4(3) [OF no False this] no False show ?thesis
        by (cases "parse_item n data off depth") auto
    qed
  qed
next
  case (6 n data off depth)
  then have off: "\<not> length data \<le> off" by simp
  show ?case
  proof (cases "data ! off = 0x00")
    case True
    with off show ?thesis using scan_attestation [of data "off + 1"] by simp
  next
    case False
    show ?thesis
    proof (cases "read_operation data off")
      case (Inl e)
      with off False show ?thesis by (simp add: skip_operation_read read_operation_error)
    next
      case (Inr r)
      then obtain op off1 where rd: "read_operation data off = Inr (op, off1)"
        by (cases r) simp
      have "parse_node n data off1 (depth + 1) \<noteq> Inl OutOfFuel"
        using 6(2) off False rd by auto
      note IH = 6(1) [OF off False rd refl this]
      show ?thesis
        using IH rd off False
        by (cases "parse_node n data off1 (depth + 1)") (auto simp: skip_operation_read)
    qed
  qed
qed simp_all

lemma parse_timestamp_tree_eq:
  "parse_timestamp_tree data off = forget tags_node (parse_timestamp data off)"
  using scan_parse(1) parse_timestamp_fuel
  by (simp add: parse_timestamp_tree_def parse_timestamp_def)

text \<open>Every path of a well-formed tree ends in an attestation.\<close>

lemma wf_has_attestation:
  "wf_node nd \<Longrightarrow> tags_node nd \<noteq> {}"
  "wf_item it \<Longrightarrow> tags_item it \<noteq> {}"
proof (induction nd and it rule: wf_node_wf_item.induct)
  case (1 its)
  then obtain it its' where "its = it # its'" by (cases its) auto
  with 1 show ?case by auto
qed simp_all

section \<open>Whole proofs and calendar responses\<close>

lemma digest_lengths_hash_op: "digest_lengths t = map_option snd (hash_op_algorithms t)"
  by (simp add: digest_lengths_def hash_op_algorithms_def)

lemma read_varuint_one: "31 < length data \<Longrightarrow> data ! 31 = 1 \<Longrightarrow> read_varuint data 31 = Inr (1, 32)"
  by (simp add: read_varuint_decode128 Cons_nth_drop_Suc [symmetric])

lemma parse_timestamp_bounds:
  "parse_timestamp data off = Inr (nd, off') \<Longrightarrow> off < off' \<and> off' \<le> length data"
  using parse_sound(1) by (auto simp: parse_timestamp_def tight_def)

lemma parse_proof_Inr_iff:
  "parse_proof data = Inr p \<longleftrightarrow>
     starts_with data header_magic \<and>
     (\<exists>off d. read_varuint data 31 = Inr (1, off) \<and> off < length data \<and>
        digest_lengths (data ! off) = Some d \<and> off + 1 + d \<le> length data \<and>
        dp_header p = take (off + 1 + d) data \<and>
        dp_digest p = bslice data (off + 1) (off + 1 + d) \<and>
        parse_timestamp data (off + 1 + d) = Inr (dp_root p, length data))"
  by (cases p) (auto simp: parse_proof_def Let_def bindE_Inr_iff split: option.splits)

lemma classify_Inr_iff:
  "classify_detached_proof data = Inr s \<longleftrightarrow>
     data ! 31 = 1 \<and> (\<exists>p. parse_proof data = Inr p \<and>
       s = (if bitcoin_tag \<in> tags_node (dp_root p) then ''valid'' else ''pending-attestation''))"
  (is "?L \<longleftrightarrow> ?R")
proof
  assume L: ?L
  then obtain hd where h: "hash_op_algorithms (data ! 32) = Some hd"
    by (auto simp: classify_detached_proof_def Let_def split: option.splits)
  obtain h' d where hd: "hd = (h', d)" by (cases hd)
  from L obtain tags where c: "starts_with data header_magic" "31 < length data"
      "data ! 31 = 1" "32 < length data" "33 + d < length data"
      "parse_timestamp_tree data (33 + d) = Inr (tags, length data)"
      "(if bitcoin_tag \<in> tags then Inr ''valid'' else Inr ''pending-attestation'') =
         (Inr s :: string result)"
    by (auto simp: classify_detached_proof_def Let_def bindE_Inr_iff h hd)
  from c(7) have s: "s = (if bitcoin_tag \<in> tags then ''valid'' else ''pending-attestation'')"
    by (simp split: if_splits)
  from c obtain nd where nd: "parse_timestamp data (33 + d) = Inr (nd, length data)"
    and tags: "tags = tags_node nd"
    by (auto simp: parse_timestamp_tree_eq forget_def split: sum.splits)
  have "parse_proof data =
      Inr \<lparr>dp_header = take (33 + d) data, dp_digest = bslice data 33 (33 + d), dp_root = nd\<rparr>"
    using c nd unfolding parse_proof_Inr_iff
    by (intro conjI exI [of _ 32] exI [of _ d])
      (simp_all add: read_varuint_one digest_lengths_hash_op h hd)
  with c s tags show ?R by auto
next
  assume ?R
  then obtain p off d where p: "parse_proof data = Inr p" and v: "data ! 31 = 1"
    and s: "s = (if bitcoin_tag \<in> tags_node (dp_root p) then ''valid'' else ''pending-attestation'')"
    and c: "starts_with data header_magic" "read_varuint data 31 = Inr (1, off)"
      "off < length data" "digest_lengths (data ! off) = Some d" "off + 1 + d \<le> length data"
      "parse_timestamp data (off + 1 + d) = Inr (dp_root p, length data)"
    by (auto simp: parse_proof_Inr_iff)
  from c(2) have "31 < length data" using varuint_codec.rd_bounds by fastforce
  with c(2) v have off: "off = 32" by (simp add: read_varuint_one)
  note b = parse_timestamp_bounds [OF c(6)]
  have "wf_node (dp_root p)"
    using parse_sound(1) c(6) by (auto simp: parse_timestamp_def)
  with wf_has_attestation(1) have "tags_node (dp_root p) \<noteq> {}" by blast
  with c off b v s \<open>31 < length data\<close> show ?L
    by (auto simp: classify_detached_proof_def Let_def parse_timestamp_tree_eq
        digest_lengths_hash_op)
qed

lemma parse_proof_root_wf: "parse_proof data = Inr p \<Longrightarrow> wf_node (dp_root p) \<and> height_node (dp_root p) \<le> max_depth"
  using parse_sound(1) by (fastforce simp: parse_proof_Inr_iff parse_timestamp_def)

lemma parse_timestamp_node_at: "parse_timestamp = read_node_at 0"
  by (intro ext) (simp add: parse_timestamp_def read_node_at_def)

lemma serialize_proof_wf:
  "wf_node (dp_root p) \<Longrightarrow> serialize_proof p = Inr (dp_header p @ wire_node (dp_root p))"
  by (simp add: serialize_proof_def serialize_wire)

lemma read_varuint_prefix:
  assumes "read_varuint data i = Inr (v, j)" "j \<le> e" "e \<le> length data"
  shows "read_varuint (take e data @ w) i = Inr (v, j)"
proof -
  from assms(1) obtain n where d: "decode128 (drop i data) = Some (v, n)" and j: "j = i + n"
    by (auto simp: read_varuint_Inr_iff)
  have "decode128 (take (e - i) (drop i data)) = Some (v, n)"
    using decode128_take [OF d] assms(2) j by simp
  then have "decode128 (drop i (take e data @ w)) = Some (v, n)"
    using decode128_append [of _ v n "w"] assms(2,3) j by (simp add: drop_take)
  with j show ?thesis by (simp add: read_varuint_decode128)
qed

section \<open>Reading back what was written, at any height\<close>

text \<open>
  A parse of written bytes that succeeds returns the written tree. The bound on the depth can make
  the parse fail, and only that: so the height is no premise here.
\<close>

lemma drop_eq_Cons:
  "drop off data = b # bs \<Longrightarrow> off < length data \<and> data ! off = b \<and> drop (off + 1) data = bs"
  by (cases "off < length data") (auto simp: Cons_nth_drop_Suc [symmetric])

definition reads_back_item :: "item \<Rightarrow> bool" where
  "reads_back_item it \<longleftrightarrow> (\<forall>n data off depth y off' post.
     parse_item n data off depth = Inr (y, off') \<longrightarrow> drop off data = wire_item it @ post \<longrightarrow>
     y = it \<and> off' = off + length (wire_item it))"

lemma reads_back_itemD:
  "reads_back_item it \<Longrightarrow> parse_item n data off depth = Inr (y, off') \<Longrightarrow> drop off data = wire_item it @ post \<Longrightarrow>
     y = it \<and> off' = off + length (wire_item it)"
  unfolding reads_back_item_def by blast

lemma reads_back_items:
  assumes "\<forall>it \<in> set its. wf_item it \<and> reads_back_item it" "its \<noteq> []"
  shows "parse_items n data off depth = Inr (ys, off') \<Longrightarrow> drop off data = wire_items its @ post \<Longrightarrow>
    ys = its \<and> off' = off + length (wire_items its)"
  using assms
proof (induction its arbitrary: n off ys off')
  case (Cons it its)
  obtain m where n: "n = Suc m" using Cons.prems(1) by (metis old.nat.exhaust parse_items.simps(1) sum.distinct(1))
  obtain t r where first: "wire_item it = t # r" "t \<noteq> 0xFF"
    using wire_item_first [of it] Cons.prems(3) by auto
  show ?case
  proof (cases "its = []")
    case True
    then have d: "drop off data = wire_item it @ post" using Cons.prems by (simp add: wire_simps)
    then have "data ! off \<noteq> 0xFF \<and> off < length data" using first drop_eq_Cons [of off data t] by simp
    with Cons.prems(1) obtain y where y: "parse_item m data off depth = Inr (y, off')" "ys = [y]"
      unfolding n by (auto simp: bindE_Inr_iff)
    from Cons.prems(3) have "reads_back_item it" by simp
    from reads_back_itemD [OF this y(1) d] y(2) True Cons.prems(3) show ?thesis by (simp add: wire_simps)
  next
    case False
    with Cons.prems have d: "drop off data = 0xFF # wire_item it @ wire_items its @ post"
      by (simp add: wire_simps list_all_iff)
    then have ff: "off < length data \<and> data ! off = 0xFF"
      and d1: "drop (off + 1) data = wire_item it @ wire_items its @ post"
      using drop_eq_Cons [OF d] by simp_all
    from Cons.prems(1) ff obtain y k zs where
      y: "parse_item m data (off + 1) depth = Inr (y, k)" and
      zs: "parse_items m data k depth = Inr (zs, off')" "ys = y # zs"
      unfolding n by (auto simp: bindE_Inr_iff)
    from Cons.prems(3) have "reads_back_item it" by simp
    from reads_back_itemD [OF this y d1] have k: "y = it" "k = off + 1 + length (wire_item it)" by simp_all
    have "drop k data = wire_items its @ post" using drop_append_drop [OF d1] k(2) by simp
    from Cons.IH [OF zs(1) this _ False] Cons.prems(3)
    have "zs = its \<and> off' = k + length (wire_items its)" by simp
    with k zs(2) False Cons.prems(3) show ?thesis by (simp add: wire_simps list_all_iff)
  qed
qed simp

lemma reads_back:
  "wf_node nd \<Longrightarrow> parse_node n data off depth = Inr (y, off') \<Longrightarrow> drop off data = wire_node nd @ post \<Longrightarrow>
     y = nd \<and> off' = off + length (wire_node nd)"
  "wf_item it \<Longrightarrow> reads_back_item it"
proof (induction nd and it arbitrary: n data off depth y off' post)
  case (Node its)
  obtain m where n: "n = Suc m" using Node.prems(2) by (metis old.nat.exhaust parse_node.simps(1) sum.distinct(1))
  with Node.prems obtain ys where ys: "parse_items m data off depth = Inr (ys, off')" "y = Node ys"
    by (auto simp: bindE_Inr_iff split: if_splits)
  have "its \<noteq> []" "\<forall>it \<in> set its. wf_item it \<and> reads_back_item it"
    using Node.prems(1) Node.IH by (auto simp: list_all_iff)
  from reads_back_items [OF this(2,1) ys(1)] Node.prems(1,3) ys(2) show ?case
    by (simp add: wire_simps)
next
  case (Att a)
  show ?case unfolding reads_back_item_def
  proof (intro allI impI)
    fix n data off depth y off' post
    assume p: "parse_item n data off depth = Inr (y, off')" and d: "drop off data = wire_item (Att a) @ post"
    obtain m where n: "n = Suc m" using p by (metis old.nat.exhaust parse_item.simps(1) sum.distinct(1))
    have s: "serialize_attestation a = 0x00 # tl (serialize_attestation a)"
      by (simp add: serialize_attestation_def)
    have d0: "drop off data = 0x00 # tl (serialize_attestation a) @ post"
      using d s by (simp add: wire_simps)
    then have z: "off < length data \<and> data ! off = 0x00"
      and d1: "drop (off + 1) data = tl (serialize_attestation a) @ post"
      using drop_eq_Cons [OF d0] by simp_all
    have len: "length (serialize_attestation a) = Suc (length (tl (serialize_attestation a)))"
      using arg_cong [OF s, of length] by simp
    have "read_attestation data (off + 1) = Inr (a, off + 1 + length (tl (serialize_attestation a)))"
      using read_attestation_at [OF _ d1] Att by simp
    with p n z have "y = Att a \<and> off' = off + 1 + length (tl (serialize_attestation a))"
      by (auto simp del: length_tl)
    with len show "y = Att a \<and> off' = off + length (wire_item (Att a))" by (simp add: wire_simps)
  qed
next
  case (Branch op ch)
  show ?case unfolding reads_back_item_def
  proof (intro allI impI)
    fix n data off depth y off' post
    assume p: "parse_item n data off depth = Inr (y, off')" and d: "drop off data = wire_item (Branch op ch) @ post"
    obtain m where n: "n = Suc m" using p by (metis old.nat.exhaust parse_item.simps(1) sum.distinct(1))
    have wf: "wf_op op" "wf_node ch" using Branch.prems by simp_all
    then obtain t r where op: "op = t # r" "t \<noteq> 0x00" using op_tag_not_marker by blast
    have d0: "drop off data = op @ wire_node ch @ post" using d Branch.prems by (simp add: wire_simps)
    then have z: "off < length data \<and> data ! off \<noteq> 0x00" using op drop_eq_Cons [of off data t] by simp
    from read_operation_at [OF wf(1) d0] p n z obtain c where
      c: "parse_node m data (off + length op) (depth + 1) = Inr (c, off')" "y = Branch op c"
      by (auto simp: bindE_Inr_iff)
    have "drop (off + length op) data = wire_node ch @ post"
      by (rule drop_append_drop [OF d0])
    from Branch.IH [OF wf(2) c(1) this] c(2) Branch.prems
    show "y = Branch op ch \<and> off' = off + length (wire_item (Branch op ch))" by (simp add: wire_simps)
  qed
qed

text \<open>A proof that was read, with another tree under its header.\<close>

lemma parse_written_proof:
  assumes "parse_proof data = Inr p" "wf_node root" "parse_proof (dp_header p @ wire_node root) = Inr q"
  shows "q = p\<lparr>dp_root := root\<rparr>"
proof -
  let ?m = "dp_header p @ wire_node root"
  from assms(1) obtain off d where p: "read_varuint data 31 = Inr (1, off)" "off < length data"
    "digest_lengths (data ! off) = Some d" "off + 1 + d \<le> length data"
    "dp_header p = take (off + 1 + d) data" "dp_digest p = bslice data (off + 1) (off + 1 + d)"
    by (auto simp: parse_proof_Inr_iff)
  let ?k = "off + 1 + d"
  have len: "length (dp_header p) = ?k" using p by simp
  from assms(3) obtain off' d' where q: "read_varuint ?m 31 = Inr (1, off')" 
    "digest_lengths (?m ! off') = Some d'"
    "dp_header q = take (off' + 1 + d') ?m" "dp_digest q = bslice ?m (off' + 1) (off' + 1 + d')"
    "parse_timestamp ?m (off' + 1 + d') = Inr (dp_root q, length ?m)"
    by (auto simp: parse_proof_Inr_iff)
  have "read_varuint ?m 31 = Inr (1, off)"
    using read_varuint_prefix [OF p(1), of ?k] p(4) unfolding p(5) by simp
  with q(1) have off: "off' = off" by simp
  have "?m ! off = data ! off" using p(4) by (simp add: p(5) nth_append)
  with q(2) p(3) off have d: "d' = d" by simp
  have "dp_header q = dp_header p" using q(3) off d len by simp
  moreover have "dp_digest q = dp_digest p"
    using q(4) p(6) off d p(4) by (simp add: p(5) bslice_def drop_take)
  moreover have "dp_root q = root"
    using reads_back(1) [OF assms(2), of _ ?m ?k 0 "dp_root q" "length ?m" "[]"] q(5) off d len
    by (simp add: parse_timestamp_def)
  ultimately show ?thesis by simp
qed

end
