(* ===== verification/ProofMerge.thy ===== *)
theory ProofMerge
  imports ProofParser
begin

text \<open>
  What \<open>merge_node\<close> does to a proof: the attestations of the result, each with the operation
  path it sits under, are the union of those of the two trees; a merge that reports no
  addition changed nothing; merging the same response again adds nothing, when no node of
  the response repeats an operation.
\<close>

section \<open>Attestations with the operations that lead to them\<close>

fun located_node :: "node \<Rightarrow> (bytes list \<times> attestation) set"
  and located_item :: "item \<Rightarrow> (bytes list \<times> attestation) set" where
  "located_node (Node its) = (\<Union>it \<in> set its. located_item it)"
| "located_item (Att a) = {([], a)}"
| "located_item (Branch op ch) = (\<lambda>(p, a). (op # p, a)) ` located_node ch"

definition located_items :: "item list \<Rightarrow> (bytes list \<times> attestation) set" where
  "located_items its = (\<Union>it \<in> set its. located_item it)"

lemma located_node_items: "located_node nd = located_items (items nd)"
  by (cases nd) (simp add: located_items_def)

lemma located_items_simps [simp]:
  "located_items [] = {}"
  "located_items (it # its) = located_item it \<union> located_items its"
  "located_items (xs @ ys) = located_items xs \<union> located_items ys"
  by (auto simp: located_items_def)

lemma located_Branch_Node [simp]:
  "located_item (Branch op (Node its)) = (\<lambda>(p, a). (op # p, a)) ` located_items its"
  by (simp add: located_items_def)

declare located_item.simps(2) [simp del]

lemma all_attestations_located:
  "set (all_attestations nd) = (\<lambda>(p, a). (att_tag a, att_payload a)) ` located_node nd"
  "set (item_attestations it) = (\<lambda>(p, a). (att_tag a, att_payload a)) ` located_item it"
  by (induction nd and it rule: all_attestations_item_attestations.induct)
    (auto simp: located_item.simps(2) image_image case_prod_unfold image_UN)

section \<open>The target of a branch merge\<close>

text \<open>The items under the last branch that carries an operation.\<close>

fun last_child :: "bytes \<Rightarrow> item list \<Rightarrow> item list option" where
  "last_child op [] = None"
| "last_child op (it # its) =
     (case last_child op its of
        Some c \<Rightarrow> Some c
      | None \<Rightarrow> (case it of Att _ \<Rightarrow> None
                 | Branch op' ch \<Rightarrow> if op' = op then Some (items ch) else None))"

lemma last_child_branch:
  "last_child op its = map_option (\<lambda>i. child_items (its ! i)) (last_branch op its)"
  by (induction its) (auto simp: child_items_def split: option.splits item.splits)

lemma last_branch_SomeD:
  "last_branch op its = Some i \<Longrightarrow> i < length its \<and> (\<exists>ch. its ! i = Branch op ch)"
  by (induction its arbitrary: i) (auto split: option.splits item.splits if_splits)

lemma last_child_append:
  "last_child op (xs @ ys) = (case last_child op ys of Some c \<Rightarrow> Some c | None \<Rightarrow> last_child op xs)"
  by (induction xs) (auto split: option.splits)

lemma set_insert_attestation [simp]: "set (insert_attestation a its) = insert (Att a) (set its)"
proof -
  let ?i = "length (filter is_att its)"
  have "set (take ?i its) \<union> set (drop ?i its) = set its"
    by (metis append_take_drop_id set_append)
  then show ?thesis by (auto simp: insert_attestation_def Let_def)
qed

lemma last_child_insert_attestation [simp]:
  "last_child op (insert_attestation a its) = last_child op its"
proof -
  let ?i = "length (filter is_att its)"
  have "last_child op its = last_child op (take ?i its @ drop ?i its)" by simp
  then show ?thesis
    by (simp only: last_child_append insert_attestation_def Let_def)
      (simp add: last_child_append split: option.splits)
qed

lemma last_child_set_child:
  "last_branch op its = Some i \<Longrightarrow>
   last_child op' (its[i := set_child (its ! i) c]) =
     (if op' = op then Some c else last_child op' its)"
proof (induction its arbitrary: i)
  case (Cons it its)
  show ?case
  proof (cases "last_branch op its")
    case None
    with Cons.prems have "i = 0" and "\<exists>ch. it = Branch op ch"
      by (auto split: item.splits if_splits)
    moreover from None have "last_child op its = None" by (simp add: last_child_branch)
    ultimately show ?thesis by (auto simp: set_child_def split: option.splits)
  next
    case (Some j)
    with Cons.prems have "i = Suc j" by simp
    with Cons.IH [OF Some] show ?thesis by (auto split: option.splits)
  qed
qed simp

lemma set_child_same: "set_child it (child_items it) = it"
  by (cases it) (auto simp: set_child_def child_items_def)

text \<open>Replacing the items under a branch by more of them.\<close>

lemma located_set_child:
  assumes "last_branch op its = Some i"
    and "located_items c = located_items (child_items (its ! i)) \<union> X"
  shows "located_items (its[i := set_child (its ! i) c]) =
    located_items its \<union> (\<lambda>(p, a). (op # p, a)) ` X"
proof -
  from last_branch_SomeD [OF assms(1)] obtain ch where i: "i < length its"
    and ch: "its ! i = Branch op ch" by blast
  have "located_items its =
      located_items (take i its) \<union> located_item (its ! i) \<union> located_items (drop (Suc i) its)"
    by (subst id_take_nth_drop [OF i]) auto
  moreover have "located_items (its[i := set_child (its ! i) c]) =
      located_items (take i its) \<union> located_item (set_child (its ! i) c) \<union>
      located_items (drop (Suc i) its)"
    by (subst upd_conv_take_nth_drop [OF i]) auto
  moreover have "located_item (set_child (its ! i) c) =
      located_item (its ! i) \<union> (\<lambda>(p, a). (op # p, a)) ` X"
    using assms(2) by (cases ch) (auto simp: ch set_child_def child_items_def)
  ultimately show ?thesis by auto
qed

lemma merge_items_located:
  "located_items (fst (merge_items target source)) = located_items target \<union> located_items source"
proof (induction target source rule: merge_items.induct)
  case (2 target a source)
  show ?case
  proof (cases "Att a \<in> set target")
    case True
    then have "located_item (Att a) \<subseteq> located_items target"
      unfolding located_items_def by blast
    with 2(1) [OF True] True show ?thesis by auto
  next
    case False
    have "located_items (insert_attestation a target) = located_item (Att a) \<union> located_items target"
      by (simp add: located_items_def)
    with 2(2) [OF False] False show ?thesis by (auto split: prod.split simp: Let_def)
  qed
next
  case (3 target op child source)
  show ?case
  proof (cases "last_branch op target")
    case None
    with 3(1) [OF None] show ?thesis by (auto split: prod.split simp: Let_def)
  next
    case (Some i)
    obtain child' added where m: "merge_items (child_items (target ! i)) child = (child', added)"
      by (cases "merge_items (child_items (target ! i)) child")
    have "located_items (target[i := set_child (target ! i) child']) =
        located_items target \<union> located_item (Branch op (Node child))"
      using 3(2) [OF Some] m by (simp add: located_set_child [OF Some])
    with 3(3) [OF Some m [symmetric] refl] Some m show ?thesis
      by (auto split: prod.split simp: Let_def)
  qed
qed simp

lemma merge_node_located:
  "located_node (fst (merge_node target source)) = located_node target \<union> located_node source"
proof -
  have "fst (merge_node target source) = Node (fst (merge_items (items target) (items source)))"
    by (simp add: merge_node_def case_prod_unfold Let_def)
  then show ?thesis
    by (simp only: located_node_items node.sel merge_items_located)
qed

section \<open>A merge that adds nothing\<close>

text \<open>The target already has what the source would bring, where the merge would put it.\<close>

fun covered :: "item list \<Rightarrow> item list \<Rightarrow> bool" where
  "covered target [] = True"
| "covered target (Att a # source) = (Att a \<in> set target \<and> covered target source)"
| "covered target (Branch op (Node child) # source) =
     ((case last_child op target of None \<Rightarrow> False | Some c \<Rightarrow> covered c child) \<and>
      covered target source)"

lemma merge_items_covered: "covered target source \<Longrightarrow> merge_items target source = (target, 0)"
proof (induction target source rule: merge_items.induct)
  case (3 target op child source)
  then obtain i where i: "last_branch op target = Some i"
    and c: "covered (child_items (target ! i)) child" and s: "covered target source"
    by (auto simp: last_child_branch split: option.splits)
  note m = 3(2) [OF i c]
  have "target[i := set_child (target ! i) (child_items (target ! i))] = target"
    by (simp add: set_child_same)
  with 3(3) [OF i m [symmetric] refl] s i m show ?case by simp
qed simp_all

lemma merge_items_unchanged: "snd (merge_items target source) = 0 \<Longrightarrow> covered target source"
proof (induction target source rule: merge_items.induct)
  case (3 target op child source)
  then obtain i where i: "last_branch op target = Some i"
    by (auto split: option.splits prod.splits)
  obtain child' where m: "merge_items (child_items (target ! i)) child = (child', 0)"
    using 3(4) i by (auto split: prod.splits)
  from 3(2) [OF i] m have c: "covered (child_items (target ! i)) child" by simp
  then have "child' = child_items (target ! i)" using m merge_items_covered by fastforce
  then have "target[i := set_child (target ! i) child'] = target"
    by (simp add: set_child_same)
  moreover have "snd (merge_items (target[i := set_child (target ! i) child']) source) = 0"
    using 3(4) i m by (auto split: prod.splits)
  ultimately show ?case
    using 3(3) [OF i m [symmetric] refl] c i by (simp add: last_child_branch)
next
  case (2 target a source)
  then show ?case by (cases "Att a \<in> set target") (simp_all add: case_prod_unfold Let_def)
qed simp

lemma merge_items_added_0_iff: "snd (merge_items target source) = 0 \<longleftrightarrow> covered target source"
  using merge_items_covered merge_items_unchanged by fastforce

text \<open>A merge into a target keeps what the target covers.\<close>

lemma covered_mono:
  assumes "\<And>a. Att a \<in> set t \<Longrightarrow> Att a \<in> set t'"
    and "\<And>op c. last_child op t = Some c \<Longrightarrow>
           \<exists>c'. last_child op t' = Some c' \<and> (\<forall>s. covered c s \<longrightarrow> covered c' s)"
  shows "covered t s \<Longrightarrow> covered t' s"
proof (induction s)
  case (Cons it s)
  show ?case
  proof (cases it)
    case (Att a)
    with Cons assms(1) show ?thesis by simp
  next
    case (Branch op ch)
    with Cons assms(2) show ?thesis by (cases ch) (fastforce split: option.splits)
  qed
qed simp

lemma covered_insert_attestation: "covered t s \<Longrightarrow> covered (insert_attestation a t) s"
  by (erule covered_mono [rotated 2]) auto

lemma covered_append: "last_child op t = None \<Longrightarrow> covered t s \<Longrightarrow> covered (t @ [Branch op ch]) s"
  by (erule covered_mono [rotated 2]) (auto simp: last_child_append split: if_splits)

lemma covered_set_child:
  assumes i: "last_branch op t = Some i"
    and c: "\<And>s. covered (child_items (t ! i)) s \<Longrightarrow> covered c s"
    and "covered t s"
  shows "covered (t[i := set_child (t ! i) c]) s"
  using \<open>covered t s\<close>
proof (rule covered_mono [rotated 2])
  fix a assume "Att a \<in> set t"
  moreover from last_branch_SomeD [OF i] obtain ch where "i < length t" "t ! i = Branch op ch"
    by blast
  ultimately show "Att a \<in> set (t[i := set_child (t ! i) c])"
    by (auto simp: in_set_conv_nth nth_list_update) (metis item.distinct(1))
next
  fix op' d assume "last_child op' t = Some d"
  then show "\<exists>c'. last_child op' (t[i := set_child (t ! i) c]) = Some c' \<and>
      (\<forall>s. covered d s \<longrightarrow> covered c' s)"
  proof (cases "op' = op")
    case True
    then have "d = child_items (t ! i)" using \<open>last_child op' t = Some d\<close> i
      by (simp add: last_child_branch)
    with True c show ?thesis by (simp add: last_child_set_child [OF i])
  next
    case False
    with \<open>last_child op' t = Some d\<close> show ?thesis by (simp add: last_child_set_child [OF i])
  qed
qed

lemma merge_items_keeps_covered: "covered target s \<Longrightarrow> covered (fst (merge_items target source)) s"
proof (induction target source arbitrary: s rule: merge_items.induct)
  case (2 target a source)
  then show ?case
    by (cases "Att a \<in> set target") (auto simp: covered_insert_attestation split: prod.splits)
next
  case (3 target op child source)
  show ?case
  proof (cases "last_branch op target")
    case None
    then have "last_child op target = None" by (simp add: last_child_branch)
    with 3(1) [OF None] 3(4) None show ?thesis
      by (auto simp: covered_append split: prod.splits)
  next
    case (Some i)
    obtain child' added where m: "merge_items (child_items (target ! i)) child = (child', added)"
      by (cases "merge_items (child_items (target ! i)) child")
    have "covered (target[i := set_child (target ! i) child']) s"
      using 3(2) [OF Some] m 3(4) by (intro covered_set_child [OF Some]) auto
    with 3(3) [OF Some m [symmetric] refl] Some m show ?thesis by (auto split: prod.splits)
  qed
qed simp

section \<open>Merging twice\<close>

text \<open>No node of the tree has two branches with the same operation.\<close>

fun distinct_ops :: "item list \<Rightarrow> bool" where
  "distinct_ops [] = True"
| "distinct_ops (Att a # its) = distinct_ops its"
| "distinct_ops (Branch op (Node ch) # its) =
     (last_child op its = None \<and> distinct_ops ch \<and> distinct_ops its)"

lemma covered_weaken:
  "covered its s \<Longrightarrow> (case it of Att _ \<Rightarrow> True | Branch op _ \<Rightarrow> last_child op its = None) \<Longrightarrow>
   covered (it # its) s"
  by (erule covered_mono [rotated 2]) (auto split: item.splits option.splits)

lemma distinct_ops_covered_self: "distinct_ops its \<Longrightarrow> covered its its"
proof (induction its rule: distinct_ops.induct)
  case (2 a its)
  then show ?case using covered_weaken [of its its "Att a"] by simp
next
  case (3 op ch its)
  then show ?case using covered_weaken [of its its "Branch op (Node ch)"] by simp
qed simp

lemma merge_items_covers: "distinct_ops source \<Longrightarrow> covered (fst (merge_items target source)) source"
proof (induction target source rule: merge_items.induct)
  case (2 target a source)
  show ?case
  proof (cases "Att a \<in> set target")
    case True
    then have "covered (fst (merge_items target source)) [Att a]"
      by (intro merge_items_keeps_covered) simp
    with 2 True show ?thesis by simp
  next
    case False
    have "covered (fst (merge_items (insert_attestation a target) source)) [Att a]"
      by (intro merge_items_keeps_covered) simp
    with 2 False show ?thesis by (auto split: prod.splits)
  qed
next
  case (3 target op child source)
  then have d: "distinct_ops child" "distinct_ops source" by simp_all
  show ?case
  proof (cases "last_branch op target")
    case None
    let ?t = "target @ [Branch op (Node child)]"
    have "covered (fst (merge_items ?t source)) [Branch op (Node child)]"
      using distinct_ops_covered_self [OF d(1)]
      by (intro merge_items_keeps_covered) (simp add: last_child_append)
    with 3(1) [OF None d(2)] None show ?thesis by (auto split: prod.splits)
  next
    case (Some i)
    obtain child' added where m: "merge_items (child_items (target ! i)) child = (child', added)"
      by (cases "merge_items (child_items (target ! i)) child")
    let ?t = "target[i := set_child (target ! i) child']"
    have "covered (fst (merge_items ?t source)) [Branch op (Node child)]"
      using 3(2) [OF Some d(1)] m
      by (intro merge_items_keeps_covered) (simp add: last_child_set_child [OF Some])
    with 3(3) [OF Some m [symmetric] refl d(2)] Some m show ?thesis
      by (auto split: prod.splits)
  qed
qed simp

section \<open>The contract of an additive merge\<close>

text \<open>
  What the code that folds calendar responses into a proof relies on: a merge keeps the facts
  of the target and adds none but those of the source, and reports zero only for a target it
  left as it was.
\<close>

locale additive_merge =
  fixes merge :: "'t \<Rightarrow> 's \<Rightarrow> 't \<times> nat"
    and facts :: "'t \<Rightarrow> 'f set"
    and gives :: "'s \<Rightarrow> 'f set"
  assumes merge_keeps: "facts t \<subseteq> facts (fst (merge t s))"
    and merge_only: "facts (fst (merge t s)) \<subseteq> facts t \<union> gives s"
    and merge_zero: "snd (merge t s) = 0 \<Longrightarrow> fst (merge t s) = t"
begin

text \<open>A run of merges, with the number of additions it reports.\<close>

fun merge_all :: "'t \<Rightarrow> 's list \<Rightarrow> 't \<times> nat" where
  "merge_all t [] = (t, 0)"
| "merge_all t (s # ss) =
     (fst (merge_all (fst (merge t s)) ss), snd (merge t s) + snd (merge_all (fst (merge t s)) ss))"

lemma merge_all_keeps: "facts t \<subseteq> facts (fst (merge_all t ss))"
proof (induction ss arbitrary: t)
  case (Cons s ss)
  show ?case using merge_keeps [of t s] Cons [of "fst (merge t s)"] by simp
qed simp

lemma merge_all_only: "facts (fst (merge_all t ss)) \<subseteq> facts t \<union> (\<Union>s \<in> set ss. gives s)"
proof (induction ss arbitrary: t)
  case (Cons s ss)
  show ?case using merge_only [of t s] Cons [of "fst (merge t s)"] by auto
qed simp

lemma merge_all_zero: "snd (merge_all t ss) = 0 \<Longrightarrow> fst (merge_all t ss) = t"
proof (induction ss arbitrary: t)
  case (Cons s ss)
  then show ?case using merge_zero [of t s] by simp
qed simp

end

lemma merge_node_zero: "snd (merge_node t s) = 0 \<Longrightarrow> fst (merge_node t s) = t"
  using merge_items_covered [OF merge_items_unchanged, of "items t" "items s"]
  by (cases t) (auto simp: merge_node_def split: prod.splits)

interpretation node_merge: additive_merge merge_node located_node located_node
  by unfold_locales (auto simp: merge_node_located merge_node_zero)

section \<open>Well-formedness and height of the result\<close>

lemma list_all_insert_attestation:
  "list_all P (insert_attestation a its) \<longleftrightarrow> P (Att a) \<and> list_all P its"
  by (auto simp: list_all_iff)

lemma wf_child_items:
  "list_all wf_item its \<Longrightarrow> i < length its \<Longrightarrow> list_all wf_item (child_items (its ! i))"
  by (cases "its ! i"; cases "branch_child (its ! i)")
    (auto simp: child_items_def list_all_length split: item.splits)

lemma merge_items_nonempty: "target \<noteq> [] \<or> source \<noteq> [] \<Longrightarrow> fst (merge_items target source) \<noteq> []"
proof (induction target source rule: merge_items.induct)
  case (2 target a source)
  have "insert_attestation a target \<noteq> []" by (simp add: insert_attestation_def Let_def)
  moreover have "target \<noteq> []" if "Att a \<in> set target" using that by auto
  ultimately show ?case using 2 by (cases "Att a \<in> set target") (auto split: prod.splits)
next
  case (3 target op child source)
  show ?case
  proof (cases "last_branch op target")
    case None
    with 3(1) [OF None] show ?thesis by (auto split: prod.splits)
  next
    case (Some i)
    then have "target \<noteq> []" by auto
    obtain child' added where m: "merge_items (child_items (target ! i)) child = (child', added)"
      by (cases "merge_items (child_items (target ! i)) child")
    from 3(3) [OF Some m [symmetric] refl] \<open>target \<noteq> []\<close> Some m show ?thesis
      by (auto split: prod.splits)
  qed
qed simp

lemma child_items_wf:
  assumes "list_all wf_item its" "last_branch op its = Some i"
  shows "list_all wf_item (child_items (its ! i)) \<and> child_items (its ! i) \<noteq> []"
proof -
  from last_branch_SomeD [OF assms(2)] obtain ch where "i < length its" "its ! i = Branch op ch"
    by blast
  moreover from this assms(1) have "wf_item (Branch op ch)" by (metis list_all_length)
  ultimately show ?thesis by (cases ch) (simp add: child_items_def)
qed

lemma list_all_set_child:
  assumes "list_all wf_item its" "last_branch op its = Some i" "list_all wf_item c" "c \<noteq> []"
  shows "list_all wf_item (its[i := set_child (its ! i) c])"
proof -
  from last_branch_SomeD [OF assms(2)] obtain ch where i: "i < length its" "its ! i = Branch op ch"
    by blast
  moreover from this assms(1) have "wf_item (Branch op ch)" by (metis list_all_length)
  ultimately have "wf_item (set_child (its ! i) c)" using assms(3,4) by (simp add: set_child_def)
  with assms(1) i show ?thesis by (auto simp: list_all_length nth_list_update)
qed

lemma merge_items_wf:
  "list_all wf_item target \<Longrightarrow> list_all wf_item source \<Longrightarrow>
   list_all wf_item (fst (merge_items target source))"
proof (induction target source rule: merge_items.induct)
  case (2 target a source)
  then show ?case by (auto split: prod.splits simp: list_all_insert_attestation)
next
  case (3 target op child source)
  show ?case
  proof (cases "last_branch op target")
    case None
    with 3(1) [OF None] 3(4,5) show ?thesis by (auto split: prod.splits)
  next
    case (Some i)
    obtain child' added where m: "merge_items (child_items (target ! i)) child = (child', added)"
      by (cases "merge_items (child_items (target ! i)) child")
    note c = child_items_wf [OF 3(4) Some]
    have "list_all wf_item child'" using 3(2) [OF Some] c 3(5) m by simp
    moreover have "child' \<noteq> []"
      using merge_items_nonempty [of "child_items (target ! i)" child] c m by simp
    ultimately show ?thesis
      using 3(3) [OF Some m [symmetric] refl list_all_set_child [OF 3(4) Some]] 3(5) Some m
      by (auto split: prod.splits)
  qed
qed simp

text \<open>A merged tree is no higher than the higher of the two.\<close>

lemma height_items_mem: "height_node (Node its) \<le> m \<longleftrightarrow> (\<forall>it \<in> set its. height_item it \<le> m)"
  by (rule height_items_le)

lemma height_items_upd:
  assumes "height_node (Node its) \<le> m" "height_item x \<le> m"
  shows "height_node (Node (its[i := x])) \<le> m"
  using assms set_update_subset_insert [of its i x] unfolding height_items_mem by blast

declare height_node.simps [simp del]

lemma merge_items_height:
  "height_node (Node target) \<le> m \<Longrightarrow> height_node (Node source) \<le> m \<Longrightarrow>
   height_node (Node (fst (merge_items target source))) \<le> m"
proof (induction target source arbitrary: m rule: merge_items.induct)
  case (2 target a source)
  have s: "height_node (Node source) \<le> m" using 2(4) by (simp add: height_items_mem)
  have "height_node (Node (insert_attestation a target)) \<le> m"
    using 2(3) by (simp add: height_items_mem)
  with 2(1,2) 2(3) s show ?case
    by (cases "Att a \<in> set target") (simp_all add: case_prod_unfold Let_def)
next
  case (3 target op child source)
  have s: "height_node (Node source) \<le> m" using 3(5) by (simp add: height_items_mem)
  have "height_item (Branch op (Node child)) \<le> m" using 3(5) by (simp add: height_items_mem)
  then have b: "Suc (height_node (Node child)) \<le> m" by simp
  show ?case
  proof (cases "last_branch op target")
    case None
    have "height_node (Node (target @ [Branch op (Node child)])) \<le> m"
      using 3(4) b by (auto simp: height_items_mem [of "_ @ _"] height_items_mem [of target])
    with 3(1) [OF None _ s] None show ?thesis by (auto split: prod.splits)
  next
    case (Some i)
    obtain child' added where m: "merge_items (child_items (target ! i)) child = (child', added)"
      by (cases "merge_items (child_items (target ! i)) child")
    from last_branch_SomeD [OF Some] obtain ch where i: "i < length target" "target ! i = Branch op ch"
      by blast
    then have "Branch op ch \<in> set target" by (metis nth_mem)
    then have "height_item (Branch op ch) \<le> m" using 3(4) by (auto simp: height_items_mem)
    then have "height_node (Node (child_items (target ! i))) \<le> m - 1"
      by (cases ch) (simp add: i child_items_def)
    then have "height_node (Node child') \<le> m - 1"
      using 3(2) [OF Some, of "m - 1"] b m by simp
    then have "height_item (set_child (target ! i) child') \<le> m"
      using b by (simp add: i set_child_def)
    then have "height_node (Node (target[i := set_child (target ! i) child'])) \<le> m"
      using 3(4) by (intro height_items_upd)
    with 3(3) [OF Some m [symmetric] refl _ s] Some m show ?thesis by (auto split: prod.splits)
  qed
qed simp

declare height_node.simps [simp]

end
