(* ===== verification/Anchors.thy ===== *)
theory Anchors
  imports ProofMerge "HOL-Library.List_Lexorder"
begin

text \<open>
  \<open>anchors.py\<close>: executing the operations of a proof to find the Bitcoin block it reaches, the
  calendar transaction on the way, and the calendars whose promise is still open. \<open>H\<close> are the
  digests \<open>hashlib\<close> always has, \<open>R\<close> its RIPEMD-160, which a build may lack (\<open>None\<close>). A
  calendar URI is kept as its UTF-8 bytes: decoding is injective and keeps the order.
\<close>

section \<open>Records\<close>

type_synonym uri = bytes

record bitcoin_anchor =
  block_height :: nat
  block_merkle_root :: string
  transaction_id :: "string option"
  op_return_data :: "string option"
  calendars :: "uri list"

record proof_anchors =
  anchors :: "bitcoin_anchor list"
  pending_calendars :: "uri list"

text \<open>\<open>tuple(sorted({...}))\<close>\<close>

definition sorted_set :: "'a :: linorder list \<Rightarrow> 'a list" where
  "sorted_set xs = sort (remdups xs)"

definition anchoring_calendars :: "proof_anchors \<Rightarrow> uri list" where
  "anchoring_calendars p = sorted_set (concat (map calendars (anchors p)))"

definition promised_calendars :: "proof_anchors \<Rightarrow> uri list" where
  "promised_calendars p = sorted_set (anchoring_calendars p @ pending_calendars p)"

section \<open>Hexadecimal and digests\<close>

definition hex_char :: "nat \<Rightarrow> char" where
  "hex_char n = hex_digits ! n"

definition hex_of :: "bytes \<Rightarrow> string" where
  "hex_of data = concat (map (\<lambda>b. [hex_char (unat b div 16), hex_char (unat b mod 16)]) data)"

definition double_sha256 :: "(hash_name \<Rightarrow> bytes \<Rightarrow> bytes) \<Rightarrow> bytes \<Rightarrow> bytes" where
  "double_sha256 H data = H Sha256 (H Sha256 data)"

definition to_display_hex :: "bytes \<Rightarrow> string" where
  "to_display_hex data = hex_of (rev data)"

section \<open>Bitcoin transactions\<close>

text \<open>\<open>int.from_bytes(..., "little")\<close>\<close>

fun from_little_endian :: "bytes \<Rightarrow> nat" where
  "from_little_endian [] = 0"
| "from_little_endian (b # bs) = unat b + 256 * from_little_endian bs"

definition read_compact_size :: "bytes \<Rightarrow> nat \<Rightarrow> (nat \<times> nat) result" where
  "read_compact_size data offset =
     (if length data \<le> offset then Inl (ValueError ''truncated compact size'')
      else
        let first = data ! offset; offset1 = offset + 1 in
        if first < 0xFD then Inr (unat first, offset1)
        else
          let width = (if first = 0xFD then 2 else if first = 0xFE then 4 else 8) in
          if length data < offset1 + width
          then Inl (ValueError ''truncated compact size payload'')
          else Inr (from_little_endian (bslice data offset1 (offset1 + width)), offset1 + width))"

definition max_transaction_bytes :: nat where
  "max_transaction_bytes = 1000000"

text \<open>
  The two counted loops of \<open>_deserialize_transaction\<close>. \<open>Inr None\<close> is its \<open>return None\<close>,
  \<open>Inl\<close> an exception of \<open>_read_compact_size\<close>.
\<close>

fun skip_inputs :: "nat \<Rightarrow> bytes \<Rightarrow> nat \<Rightarrow> nat option result" where
  "skip_inputs 0 data offset = Inr (Some offset)"
| "skip_inputs (Suc n) data offset =
     bindE (read_compact_size data (offset + 36)) (\<lambda>(script_length, offset1).
       let offset2 = offset1 + (script_length + 4) in
       if length data < offset2 then Inr None else skip_inputs n data offset2)"

fun read_outputs :: "nat \<Rightarrow> bytes \<Rightarrow> nat \<Rightarrow> (bytes list \<times> nat) option result" where
  "read_outputs 0 data offset = Inr (Some ([], offset))"
| "read_outputs (Suc n) data offset =
     bindE (read_compact_size data (offset + 8)) (\<lambda>(script_length, offset1).
       if length data < offset1 + script_length then Inr None
       else bindE (read_outputs n data (offset1 + script_length)) (\<lambda>r.
         Inr (map_option (\<lambda>(scripts, offset2).
           (bslice data offset1 (offset1 + script_length) # scripts, offset2)) r)))"

definition deserialize_transaction_body :: "bytes \<Rightarrow> (bytes list \<times> nat) option result" where
  "deserialize_transaction_body data =
     bindE (read_compact_size data 4) (\<lambda>(input_count, offset).
       if input_count = 0 then Inr None
       else bindE (skip_inputs input_count data offset) (\<lambda>r.
         case r of
           None \<Rightarrow> Inr None
         | Some offset1 \<Rightarrow>
             bindE (read_compact_size data offset1) (\<lambda>(output_count, offset2).
               bindE (read_outputs output_count data offset2) (\<lambda>r.
                 Inr (map_option (\<lambda>(scripts, offset3). (scripts, offset3 + 4)) r)))))"

definition deserialize_transaction :: "bytes \<Rightarrow> bytes list option" where
  "deserialize_transaction data =
     (if \<not> (10 \<le> length data \<and> length data \<le> max_transaction_bytes) then None
      else
        case deserialize_transaction_body data of
          Inl _ \<Rightarrow> None
        | Inr None \<Rightarrow> None
        | Inr (Some (scripts, offset)) \<Rightarrow> if offset \<noteq> length data then None else Some scripts)"

fun extract_op_return :: "bytes list \<Rightarrow> bytes option" where
  "extract_op_return [] = None"
| "extract_op_return (script # scripts) =
     (if script = [] \<or> script ! 0 \<noteq> 0x6A then extract_op_return scripts
      else if length script < 2 then extract_op_return scripts
      else
        let push_op = script ! 1 in
        if 1 \<le> push_op \<and> push_op \<le> 75 then
          let data = bslice script 2 (2 + unat push_op) in
          if data \<noteq> [] then Some data else extract_op_return scripts
        else if push_op = 0x4C \<and> 3 \<le> length script then
          let data = bslice script 3 (3 + unat (script ! 2)) in
          if data \<noteq> [] then Some data else extract_op_return scripts
        else extract_op_return scripts)"

section \<open>Executing operations\<close>

definition apply_operation ::
    "(hash_name \<Rightarrow> bytes \<Rightarrow> bytes) \<Rightarrow> (bytes \<Rightarrow> bytes option) \<Rightarrow> bytes \<Rightarrow> nat \<Rightarrow> bytes \<Rightarrow>
     (bytes option \<times> nat) result" where
  "apply_operation H R data offset message =
     (if length data \<le> offset then Inl (AnchorExtractionError ''truncated operation'')
      else
        let tag = data ! offset; offset1 = offset + 1 in
        if tag = 0xF0 \<or> tag = 0xF1 then
          bindE (read_varuint data offset1) (\<lambda>(len, offset2).
            let end = offset2 + len in
            if length data < end then Inl (AnchorExtractionError ''truncated operation argument'')
            else
              let argument = bslice data offset2 end in
              if tag = 0xF0 then Inr (Some (message @ argument), end)
              else Inr (Some (argument @ message), end))
        else if tag = 0x08 then Inr (Some (H Sha256 message), offset1)
        else if tag = 0x02 then Inr (Some (H Sha1 message), offset1)
        else if tag = 0x03 then Inr (R message, offset1)
        else if tag = 0xF2 then Inr (Some (rev message), offset1)
        else if tag = 0xF3 then Inr (Some (encode_ascii (hex_of message)), offset1)
        else if tag = 0x67 then Inr (None, offset1)
        else Inl (AnchorExtractionError ''unknown operation tag''))"

definition anchor_read_attestation :: "bytes \<Rightarrow> nat \<Rightarrow> (bytes \<times> bytes \<times> nat) result" where
  "anchor_read_attestation data offset =
     (if length data < offset + 8 then Inl (AnchorExtractionError ''truncated attestation tag'')
      else
        let tag = bslice data offset (offset + 8) in
        bindE (read_varuint data (offset + 8)) (\<lambda>(len, offset1).
          let end = offset1 + len in
          if length data < end
          then Inl (AnchorExtractionError ''truncated attestation payload'')
          else Inr (tag, bslice data offset1 end, end)))"

definition decode_calendar_uri :: "bytes \<Rightarrow> uri option" where
  "decode_calendar_uri payload =
     (case read_varuint payload 0 of
        Inl _ \<Rightarrow> None
      | Inr (len, offset) \<Rightarrow>
          let uri = bslice payload offset (offset + len) in
          if length uri \<noteq> len then None
          else if utf8_valid uri then Some uri else None)"

section \<open>Walking the proof bytes\<close>

record path_state =
  ps_message :: bytes
  ps_calendars :: "uri list"
  ps_transaction_id :: "string option"
  ps_op_return_data :: "string option"

definition unusable_state :: path_state where
  "unusable_state = \<lparr>ps_message = [], ps_calendars = [], ps_transaction_id = None,
     ps_op_return_data = None\<rparr>"

definition child_state :: "path_state \<Rightarrow> bytes \<Rightarrow> path_state" where
  "child_state st m = st\<lparr>ps_message := m\<rparr>"

text \<open>The two lists the walk appends to: \<open>anchors\<close> and \<open>pending\<close>.\<close>

type_synonym found = "bitcoin_anchor list \<times> uri list"

definition identify_transaction ::
    "(hash_name \<Rightarrow> bytes \<Rightarrow> bytes) \<Rightarrow> path_state \<Rightarrow> path_state" where
  "identify_transaction H st =
     (if ps_transaction_id st = None then
        case deserialize_transaction (ps_message st) of
          None \<Rightarrow> st
        | Some scripts \<Rightarrow>
            st\<lparr>ps_transaction_id := Some (to_display_hex (double_sha256 H (ps_message st))),
               ps_op_return_data := map_option hex_of (extract_op_return scripts)\<rparr>
      else st)"

text \<open>What \<open>_walk_branch\<close> does with an attestation it has read.\<close>

definition record_attestation ::
    "path_state \<Rightarrow> bytes \<Rightarrow> bytes \<Rightarrow> found \<Rightarrow> (path_state \<times> found) result" where
  "record_attestation st tag payload f =
     (if tag = bitcoin_tag then
        bindE (read_varuint payload 0) (\<lambda>(height, _).
          Inr (st, (fst f @ [\<lparr>block_height = height,
                     block_merkle_root = to_display_hex (ps_message st),
                     transaction_id = ps_transaction_id st,
                     op_return_data = ps_op_return_data st,
                     calendars = ps_calendars st\<rparr>], snd f)))
      else if tag = pending_tag then
        (case decode_calendar_uri payload of
           None \<Rightarrow> Inr (st, f)
         | Some uri \<Rightarrow>
             if uri \<in> set (ps_calendars st) then Inr (st, f)
             else Inr (st\<lparr>ps_calendars := ps_calendars st @ [uri]\<rparr>, (fst f, snd f @ [uri])))
      else Inr (st, f))"

text \<open>
  \<open>_walk_branch\<close>, with \<open>_skip_subtree\<close> where an operation cannot be executed; \<open>rec\<close> is the
  walk of the subtree under an operation. Then the \<open>while\<close> loop of \<open>_walk\<close> with the last
  branch after it, and \<open>_walk\<close> itself, whose fuel bounds both the rounds of its loop and the
  nesting; \<open>walk_tree\<close> below shows that the parser's fuel is enough.
\<close>

type_synonym walker = "bytes \<Rightarrow> nat \<Rightarrow> path_state \<Rightarrow> found \<Rightarrow> nat \<Rightarrow> (nat \<times> found) result"

definition walk_branch ::
    "(hash_name \<Rightarrow> bytes \<Rightarrow> bytes) \<Rightarrow> (bytes \<Rightarrow> bytes option) \<Rightarrow> walker \<Rightarrow>
     bytes \<Rightarrow> nat \<Rightarrow> path_state \<Rightarrow> found \<Rightarrow> nat \<Rightarrow> (nat \<times> path_state \<times> found) result" where
  "walk_branch H R rec data offset st f depth =
     (if length data \<le> offset then Inl IndexError
      else if data ! offset = 0x00 then
        bindE (anchor_read_attestation data (offset + 1)) (\<lambda>(tag, payload, offset1).
          bindE (record_attestation st tag payload f) (\<lambda>(st1, f1).
            Inr (offset1, st1, f1)))
      else
        bindE (apply_operation H R data offset (ps_message st)) (\<lambda>(message, offset1).
          case message of
            None \<Rightarrow>
              bindE (rec data offset1 unusable_state ([], []) (depth + 1))
                (\<lambda>(offset2, _). Inr (offset2, st, f))
          | Some m \<Rightarrow>
              bindE (rec data offset1 (child_state st m) f (depth + 1))
                (\<lambda>(offset2, f1). Inr (offset2, st, f1))))"

primrec walk_loop ::
    "(hash_name \<Rightarrow> bytes \<Rightarrow> bytes) \<Rightarrow> (bytes \<Rightarrow> bytes option) \<Rightarrow> walker \<Rightarrow> nat \<Rightarrow>
     bytes \<Rightarrow> nat \<Rightarrow> path_state \<Rightarrow> found \<Rightarrow> nat \<Rightarrow> (nat \<times> found) result" where
  "walk_loop H R rec 0 data offset st f depth = Inl OutOfFuel"
| "walk_loop H R rec (Suc n) data offset st f depth =
     (if offset < length data \<and> data ! offset = 0xFF then
        bindE (walk_branch H R rec data (offset + 1) st f depth) (\<lambda>(offset1, st1, f1).
          walk_loop H R rec n data offset1 st1 f1 depth)
      else if length data \<le> offset then Inl (AnchorExtractionError ''truncated timestamp'')
      else bindE (walk_branch H R rec data offset st f depth) (\<lambda>(offset1, _, f1).
        Inr (offset1, f1)))"

primrec walk ::
    "(hash_name \<Rightarrow> bytes \<Rightarrow> bytes) \<Rightarrow> (bytes \<Rightarrow> bytes option) \<Rightarrow> nat \<Rightarrow> walker" where
  "walk H R 0 data offset st f depth = Inl OutOfFuel"
| "walk H R (Suc n) data offset st f depth =
     (if max_depth < depth
      then Inl (AnchorExtractionError ''timestamp recursion limit exceeded'')
      else walk_loop H R (walk H R n) n data offset (identify_transaction H st) f depth)"

definition describe_anchors ::
    "(hash_name \<Rightarrow> bytes \<Rightarrow> bytes) \<Rightarrow> (bytes \<Rightarrow> bytes option) \<Rightarrow> bytes \<Rightarrow> proof_anchors result" where
  "describe_anchors H R data =
     guardE (starts_with data header_magic)
       (AnchorExtractionError ''not an OpenTimestamps detached proof'') (
     let offset = length header_magic in
     guardE (offset < length data \<and> data ! offset = 1)
       (AnchorExtractionError ''unsupported OpenTimestamps proof version'') (
     guardE (offset + 1 < length data)
       (AnchorExtractionError ''truncated OpenTimestamps proof'') (
     case digest_lengths (data ! (offset + 1)) of
       None \<Rightarrow> Inl (AnchorExtractionError ''unsupported hash operation in proof'')
     | Some digest_length \<Rightarrow>
         let digest = bslice data (offset + 2) (offset + 2 + digest_length) in
         guardE (length digest = digest_length)
           (AnchorExtractionError ''truncated OpenTimestamps proof digest'') (
         bindE (walk H R (parse_fuel data) data (offset + 2 + digest_length)
             \<lparr>ps_message = digest, ps_calendars = [], ps_transaction_id = None,
               ps_op_return_data = None\<rparr> ([], []) 0) (\<lambda>(_, (ancs, pending)).
           let anchored = concat (map calendars ancs);
               outstanding = sorted_set (filter (\<lambda>c. c \<notin> set anchored) pending)
           in Inr \<lparr>anchors = sort_key block_height ancs, pending_calendars = outstanding\<rparr>)))))"

section \<open>Open promises\<close>

text \<open>
  \<open>CollectibleCalendar.node\<close> refers to a node of the proof's tree, which a merge changes in
  place. The model names it by the branches taken from the root, each by its position among
  the branches of its node: a merge inserts attestations before the branches and appends new
  branches after them, so a reference keeps naming the same node.
\<close>

type_synonym node_ref = "nat list"

record collectible =
  col_url :: uri
  col_commitment :: bytes
  col_node :: node_ref

fun subtree_has_bitcoin_attestation :: "node \<Rightarrow> bool"
  and item_has_bitcoin_attestation :: "item \<Rightarrow> bool" where
  "subtree_has_bitcoin_attestation (Node its) = list_ex item_has_bitcoin_attestation its"
| "item_has_bitcoin_attestation (Att a) = (att_tag a = bitcoin_tag)"
| "item_has_bitcoin_attestation (Branch op ch) = subtree_has_bitcoin_attestation ch"

text \<open>
  The inner function \<open>walk\<close>: \<open>collect_node\<close>, with its \<open>for\<close> loop \<open>collect_items\<close>, where
  \<open>here\<close> is the answer of \<open>_subtree_has_bitcoin_attestation(node)\<close> and \<open>k\<close> the number of
  branches before the item.
\<close>

function collect_items ::
    "(hash_name \<Rightarrow> bytes \<Rightarrow> bytes) \<Rightarrow> (bytes \<Rightarrow> bytes option) \<Rightarrow> bool \<Rightarrow> bytes option \<Rightarrow>
     nat \<Rightarrow> node_ref \<Rightarrow> nat \<Rightarrow> item list \<Rightarrow> collectible list result" where
  "collect_items H R here message depth ref k [] = Inr []"
| "collect_items H R here message depth ref k (Att a # its) =
     bindE (collect_items H R here message depth ref k its) (\<lambda>rest.
       case message of
         None \<Rightarrow> Inr rest
       | Some m \<Rightarrow>
           if att_tag a \<noteq> pending_tag \<or> here then Inr rest
           else (case decode_calendar_uri (att_payload a) of
             None \<Rightarrow> Inr rest
           | Some url \<Rightarrow> Inr (\<lparr>col_url = url, col_commitment = m, col_node = ref\<rparr> # rest)))"
| "collect_items H R here message depth ref k (Branch op (Node ch) # its) =
     bindE
       (case message of
          None \<Rightarrow> Inr []
        | Some m \<Rightarrow>
            bindE (apply_operation H R op 0 m) (\<lambda>(child_message, consumed).
              if consumed \<noteq> length op
              then Inl (AnchorExtractionError ''operation bytes not fully consumed'')
              else if max_depth < depth + 1
              then Inl (AnchorExtractionError ''timestamp recursion limit exceeded'')
              else collect_items H R (subtree_has_bitcoin_attestation (Node ch)) child_message
                     (depth + 1) (ref @ [k]) 0 ch))
       (\<lambda>found. bindE (collect_items H R here message depth ref (k + 1) its) (\<lambda>rest.
         Inr (found @ rest)))"
  by pat_completeness auto
termination
  by (relation "measure (\<lambda>(H, R, here, message, depth, ref, k, its). size_list size its)") auto

definition collectible_calendars ::
    "(hash_name \<Rightarrow> bytes \<Rightarrow> bytes) \<Rightarrow> (bytes \<Rightarrow> bytes option) \<Rightarrow> detached_proof \<Rightarrow>
     collectible list result" where
  "collectible_calendars H R p =
     collect_items H R (subtree_has_bitcoin_attestation (dp_root p)) (Some (dp_digest p)) 0 [] 0
       (items (dp_root p))"

section \<open>The walk over the parsed tree\<close>

text \<open>
  What the walk computes, said on the tree: the same operations and the same bookkeeping,
  without offsets, fork markers or fuel.
\<close>

function tree_items ::
    "(hash_name \<Rightarrow> bytes \<Rightarrow> bytes) \<Rightarrow> (bytes \<Rightarrow> bytes option) \<Rightarrow> path_state \<Rightarrow> found \<Rightarrow>
     item list \<Rightarrow> found result" where
  "tree_items H R st f [] = Inr f"
| "tree_items H R st f (Att a # its) =
     bindE (record_attestation st (att_tag a) (att_payload a) f) (\<lambda>(st1, f1).
       tree_items H R st1 f1 its)"
| "tree_items H R st f (Branch op (Node ch) # its) =
     bindE (apply_operation H R op 0 (ps_message st)) (\<lambda>(message, _).
       case message of
         None \<Rightarrow>
           bindE (tree_items H R (identify_transaction H unusable_state) ([], []) ch)
             (\<lambda>_. tree_items H R st f its)
       | Some m \<Rightarrow>
           bindE (tree_items H R (identify_transaction H (child_state st m)) f ch)
             (\<lambda>f1. tree_items H R st f1 its))"
  by pat_completeness auto
termination
  by (relation "measure (\<lambda>(H, R, st, f, its). size_list size its)") auto

definition tree_node where
  "tree_node H R st f nd = tree_items H R (identify_transaction H st) f (items nd)"

definition tree_item where
  "tree_item H R st f it =
     (case it of
        Att a \<Rightarrow> record_attestation st (att_tag a) (att_payload a) f
      | Branch op ch \<Rightarrow>
          bindE (apply_operation H R op 0 (ps_message st)) (\<lambda>(message, _).
            case message of
              None \<Rightarrow> bindE (tree_node H R unusable_state ([], []) ch) (\<lambda>_. Inr (st, f))
            | Some m \<Rightarrow> bindE (tree_node H R (child_state st m) f ch) (\<lambda>f1. Inr (st, f1))))"

lemma bindE_assoc: "bindE (bindE m f) g = bindE m (\<lambda>x. bindE (f x) g)"
  by (cases m) simp_all

lemma tree_items_Cons:
  "tree_items H R st f (it # its) =
     bindE (tree_item H R st f it) (\<lambda>(st1, f1). tree_items H R st1 f1 its)"
proof (cases it)
  case (Att a)
  then show ?thesis by (simp add: tree_item_def)
next
  case (Branch op ch)
  obtain cs where "ch = Node cs" by (cases ch)
  with Branch show ?thesis
    by (cases "apply_operation H R op 0 (ps_message st)")
      (auto simp: tree_item_def tree_node_def bindE_assoc split: option.splits)
qed

text \<open>One operation: the walk executes what the parser stores.\<close>

definition exec_op ::
    "(hash_name \<Rightarrow> bytes \<Rightarrow> bytes) \<Rightarrow> (bytes \<Rightarrow> bytes option) \<Rightarrow> bytes \<Rightarrow> bytes \<Rightarrow> bytes option" where
  "exec_op H R op message =
     (let t = hd op; argument = drop (snd (the (decode128 (tl op)))) (tl op) in
      if t = 0xF0 then Some (message @ argument)
      else if t = 0xF1 then Some (argument @ message)
      else if t = 0x08 then Some (H Sha256 message)
      else if t = 0x02 then Some (H Sha1 message)
      else if t = 0x03 then R message
      else if t = 0xF2 then Some (rev message)
      else if t = 0xF3 then Some (encode_ascii (hex_of message))
      else None)"

lemma apply_operation_at:
  assumes "wf_op op" "drop off data = op @ post"
  shows "apply_operation H R data off message = Inr (exec_op H R op message, off + length op)"
proof -
  from assms(1) obtain t rest where op: "op = t # rest"
    using op_tag_not_marker by blast
  have off: "off < length data" using drop_nonempty [OF assms(2)] op by simp
  then have nth: "data ! off = t" and drop: "drop (Suc off) data = rest @ post"
    using assms(2) op by (simp_all add: Cons_nth_drop_Suc [symmetric])
  show ?thesis
  proof (cases "t \<in> set unary_op_tags")
    case True
    with assms(1) op off nth show ?thesis
      by (auto simp: wf_op_def apply_operation_def exec_op_def unary_op_tags_def)
  next
    case False
    with assms(1) op obtain v n where bin: "t \<in> set binary_op_tags"
      and d: "decode128 rest = Some (v, n)" and len: "length rest = n + v"
      by (auto simp: wf_op_def split: option.splits)
    from drop d have rd: "read_varuint data (Suc off) = Inr (v, Suc off + n)"
      by (simp add: read_varuint_decode128 decode128_append)
    have "Suc off + length rest \<le> length data"
      using arg_cong [OF drop, of length] off by simp
    moreover have "bslice data (Suc off + n) (Suc off + n + v) = drop n rest"
      using arg_cong [OF drop, of "drop n"] len by (simp add: bslice_def add.commute)
    ultimately show ?thesis
      using bin off nth op d len rd
      by (auto simp: apply_operation_def exec_op_def binary_op_tags_def Let_def add.assoc)
  qed
qed

lemma apply_operation_whole:
  "wf_op op \<Longrightarrow> apply_operation H R op 0 message = Inr (exec_op H R op message, length op)"
  using apply_operation_at [of op 0 op "[]"] by simp

lemma apply_operation_read:
  assumes "read_operation data off = Inr (op, off')"
  shows "wf_op op" "apply_operation H R data off message = Inr (exec_op H R op message, off')"
proof -
  note rd = read_operation_tight [OF assms]
  show wf: "wf_op op" using rd by (rule conjunct1)
  have "off' = off + length op" and "drop off data = op @ drop off' data"
  proof -
    show "off' = off + length op" using rd by auto
    have "op = take (off' - off) (drop off data)" using rd by (simp add: bslice_def)
    then have "drop off data = op @ drop (off' - off) (drop off data)"
      by (metis append_take_drop_id)
    then show "drop off data = op @ drop off' data" using rd by simp
  qed
  then show "apply_operation H R data off message = Inr (exec_op H R op message, off')"
    using apply_operation_at [OF wf] by blast
qed

lemma anchor_read_attestation_read:
  "read_attestation data off = Inr (a, off') \<Longrightarrow>
   anchor_read_attestation data off = Inr (att_tag a, att_payload a, off')"
  by (force simp: read_attestation_def anchor_read_attestation_def Let_def bindE_Inr_iff
      split: if_splits)

lemma walk_tree:
  "parse_node n data off depth = Inr (nd, off') \<Longrightarrow> n \<le> m \<Longrightarrow>
     walk H R m data off st f depth = bindE (tree_node H R st f nd) (\<lambda>f1. Inr (off', f1))"
  "parse_items n data off depth = Inr (its, off') \<Longrightarrow> n \<le> m \<Longrightarrow> n \<le> k \<Longrightarrow>
     walk_loop H R (walk H R m) k data off st f depth =
       bindE (tree_items H R st f its) (\<lambda>f1. Inr (off', f1))"
  "parse_item n data off depth = Inr (it, off') \<Longrightarrow> n \<le> m \<Longrightarrow>
     walk_branch H R (walk H R m) data off st f depth =
       bindE (tree_item H R st f it) (\<lambda>(st1, f1). Inr (off', st1, f1))"
proof (induction n data off depth and n data off depth and n data off depth
    arbitrary: nd off' m st f and its off' m k st f and it off' m st f
    rule: parse_node_parse_items_parse_item.induct)
  case (2 n data off depth)
  then obtain its where p: "parse_items n data off depth = Inr (its, off')"
    and nd: "nd = Node its" and depth: "\<not> max_depth < depth"
    by (auto simp: bindE_Inr_iff split: if_splits)
  obtain m' where m: "m = Suc m'" "n \<le> m'" using 2(3) by (cases m) auto
  show ?case using 2(1) [OF depth p m(2) m(2)] depth by (simp add: m nd tree_node_def)
next
  case (4 n data off depth)
  obtain k' where k: "k = Suc k'" "n \<le> k'" using 4(6) by (cases k) auto
  have m: "n \<le> m" using 4(5) by simp
  show ?case
  proof (cases "off < length data \<and> data ! off = 0xFF")
    case True
    with 4(4) obtain it off1 its' where p1: "parse_item n data (off + 1) depth = Inr (it, off1)"
      and p2: "parse_items n data off1 depth = Inr (its', off')" and its: "its = it # its'"
      by (auto simp: bindE_Inr_iff)
    show ?thesis
      using 4(1) [OF True p1 m] 4(2) [OF True p1 refl p2 m k(2)] True
      by (simp add: its k tree_items_Cons bindE_assoc case_prod_unfold)
  next
    case False
    with 4(4) have no: "\<not> length data \<le> off" by (auto split: if_splits)
    with False 4(4) obtain it where p: "parse_item n data off depth = Inr (it, off')"
      and its: "its = [it]"
      by (auto simp: bindE_Inr_iff)
    show ?thesis
      using 4(3) [OF False no p m] False no
      by (simp add: its k tree_items_Cons bindE_assoc case_prod_unfold)
  qed
next
  case (6 n data off depth)
  then have off: "\<not> length data \<le> off" by (auto split: if_splits)
  have m: "n \<le> m" using 6(3) by simp
  show ?case
  proof (cases "data ! off = 0x00")
    case True
    with 6 off obtain a where rd: "read_attestation data (off + 1) = Inr (a, off')"
      and it: "it = Att a"
      by (auto simp: bindE_Inr_iff)
    with True off anchor_read_attestation_read [OF rd] show ?thesis
      by (simp add: walk_branch_def tree_item_def case_prod_unfold)
  next
    case False
    with 6(2) off obtain op off1 ch where rd: "read_operation data off = Inr (op, off1)"
      and p: "parse_node n data off1 (depth + 1) = Inr (ch, off')" and it: "it = Branch op ch"
      by (auto simp: bindE_Inr_iff)
    note IH = 6(1) [OF off False rd refl p m, simplified]
    show ?thesis
      using off False apply_operation_read [OF rd]
        apply_operation_whole [OF apply_operation_read(1) [OF rd]]
      by (simp add: walk_branch_def tree_item_def it IH bindE_assoc case_prod_unfold
          split: option.split)
  qed
qed simp_all

end
