(* ===== verification/AnchorFacts.thy ===== *)
theory AnchorFacts
  imports Anchors
begin

text \<open>
  What \<open>describe_anchors\<close> reports, stated on the attestations of the proof and the operations
  that lead to them: \<open>exec_path\<close> executes the operations of a path, \<open>bitcoin_facts\<close> are the
  heights and merkle roots the proof attests, \<open>promised_uris\<close> the calendars it names.
\<close>

section \<open>Executing a path\<close>

fun exec_path ::
    "(hash_name \<Rightarrow> bytes \<Rightarrow> bytes) \<Rightarrow> (bytes \<Rightarrow> bytes option) \<Rightarrow> bytes \<Rightarrow> bytes list \<Rightarrow> bytes option" where
  "exec_path H R m [] = Some m"
| "exec_path H R m (op # ops) =
     (case exec_op H R op m of None \<Rightarrow> None | Some m' \<Rightarrow> exec_path H R m' ops)"

definition att_height :: "attestation \<Rightarrow> nat option" where
  "att_height a = map_option fst (decode128 (att_payload a))"

definition bitcoin_facts ::
    "(hash_name \<Rightarrow> bytes \<Rightarrow> bytes) \<Rightarrow> (bytes \<Rightarrow> bytes option) \<Rightarrow> bytes \<Rightarrow>
     (bytes list \<times> attestation) set \<Rightarrow> (nat \<times> string) set" where
  "bitcoin_facts H R m L =
     {(h, to_display_hex m') | p a m' h. (p, a) \<in> L \<and> att_tag a = bitcoin_tag \<and>
        exec_path H R m p = Some m' \<and> att_height a = Some h}"

definition promised_uris ::
    "(hash_name \<Rightarrow> bytes \<Rightarrow> bytes) \<Rightarrow> (bytes \<Rightarrow> bytes option) \<Rightarrow> bytes \<Rightarrow>
     (bytes list \<times> attestation) set \<Rightarrow> uri set" where
  "promised_uris H R m L =
     {u. \<exists>p a m'. (p, a) \<in> L \<and> att_tag a = pending_tag \<and> exec_path H R m p = Some m' \<and>
        decode_calendar_uri (att_payload a) = Some u}"

definition readable_heights :: "(bytes list \<times> attestation) set \<Rightarrow> bool" where
  "readable_heights L \<longleftrightarrow> (\<forall>(p, a) \<in> L. att_tag a = bitcoin_tag \<longrightarrow> att_height a \<noteq> None)"

definition anchor_fact :: "bitcoin_anchor \<Rightarrow> nat \<times> string" where
  "anchor_fact a = (block_height a, block_merkle_root a)"

lemma facts_simps [simp]:
  "bitcoin_facts H R m {} = {}" "promised_uris H R m {} = {}" "readable_heights {}"
  "bitcoin_facts H R m (A \<union> B) = bitcoin_facts H R m A \<union> bitcoin_facts H R m B"
  "readable_heights (A \<union> B) \<longleftrightarrow> readable_heights A \<and> readable_heights B"
  by (auto simp: bitcoin_facts_def promised_uris_def readable_heights_def)

lemma promised_uris_Un [simp]:
  "promised_uris H R m (A \<union> B) = promised_uris H R m A \<union> promised_uris H R m B"
  unfolding promised_uris_def by blast

lemma facts_att:
  "bitcoin_facts H R m {([], a)} =
     (if att_tag a = bitcoin_tag
      then (case att_height a of None \<Rightarrow> {} | Some h \<Rightarrow> {(h, to_display_hex m)}) else {})"
  "promised_uris H R m {([], a)} =
     (if att_tag a = pending_tag
      then (case decode_calendar_uri (att_payload a) of None \<Rightarrow> {} | Some u \<Rightarrow> {u}) else {})"
  "readable_heights {([], a)} \<longleftrightarrow> (att_tag a = bitcoin_tag \<longrightarrow> att_height a \<noteq> None)"
  by (auto simp: bitcoin_facts_def promised_uris_def readable_heights_def split: option.splits)

lemma facts_Cons_att:
  "bitcoin_facts H R m (located_items (Att a # its)) =
     bitcoin_facts H R m {([], a)} \<union> bitcoin_facts H R m (located_items its)"
  "promised_uris H R m (located_items (Att a # its)) =
     promised_uris H R m {([], a)} \<union> promised_uris H R m (located_items its)"
  "readable_heights (located_items (Att a # its)) \<longleftrightarrow>
     readable_heights {([], a)} \<and> readable_heights (located_items its)"
  using facts_simps(4) [of H R m "{([], a)}" "located_items its"]
    promised_uris_Un [of H R m "{([], a)}" "located_items its"]
    facts_simps(5) [of "{([], a)}" "located_items its"]
  by simp_all

lemma facts_under:
  "bitcoin_facts H R m ((\<lambda>(p, a). (op # p, a)) ` L) =
     (case exec_op H R op m of None \<Rightarrow> {} | Some m' \<Rightarrow> bitcoin_facts H R m' L)"
  "promised_uris H R m ((\<lambda>(p, a). (op # p, a)) ` L) =
     (case exec_op H R op m of None \<Rightarrow> {} | Some m' \<Rightarrow> promised_uris H R m' L)"
  "readable_heights ((\<lambda>(p, a). (op # p, a)) ` L) \<longleftrightarrow> readable_heights L"
  by (fastforce simp: bitcoin_facts_def promised_uris_def readable_heights_def split: option.splits)+

lemma identify_transaction_keeps [simp]:
  "ps_message (identify_transaction H st) = ps_message st"
  "ps_calendars (identify_transaction H st) = ps_calendars st"
  by (auto simp: identify_transaction_def split: option.splits)

lemma child_state_simps [simp]:
  "ps_message (child_state st m) = m" "ps_calendars (child_state st m) = ps_calendars st"
  by (simp_all add: child_state_def)

lemma unusable_state_simps [simp]:
  "ps_message unusable_state = []" "ps_calendars unusable_state = []"
  by (simp_all add: unusable_state_def)

section \<open>The walk records exactly the attested facts\<close>

lemma tags_differ [simp]: "bitcoin_tag \<noteq> pending_tag" "pending_tag \<noteq> bitcoin_tag"
  by (simp_all add: bitcoin_tag_def pending_tag_def)

lemma read_varuint_height:
  "read_varuint (att_payload a) 0 = Inr (h, n) \<Longrightarrow> att_height a = Some h"
  "read_varuint (att_payload a) 0 = Inl e \<Longrightarrow> att_height a = None"
  by (simp_all add: read_varuint_decode128 att_height_def split: option.splits if_splits)

text \<open>The bookkeeping invariant: a calendar on the path is already among the pending ones.\<close>

definition calendars_seen :: "uri list \<Rightarrow> found \<Rightarrow> bool" where
  "calendars_seen cs f \<longleftrightarrow>
     set cs \<subseteq> set (snd f) \<and> (\<forall>a \<in> set (fst f). set (calendars a) \<subseteq> set (snd f))"

text \<open>What a walk with message \<open>m\<close> and calendars \<open>cs\<close> over attestations \<open>L\<close> adds to the lists.\<close>

definition recorded ::
    "(hash_name \<Rightarrow> bytes \<Rightarrow> bytes) \<Rightarrow> (bytes \<Rightarrow> bytes option) \<Rightarrow> bytes \<Rightarrow>
     (bytes list \<times> attestation) set \<Rightarrow> uri list \<Rightarrow> found \<Rightarrow> found \<Rightarrow> bool" where
  "recorded H R m L cs f f1 \<longleftrightarrow>
     calendars_seen cs f1 \<and>
     anchor_fact ` set (fst f1) = anchor_fact ` set (fst f) \<union> bitcoin_facts H R m L \<and>
     set (snd f1) = set (snd f) \<union> promised_uris H R m L \<and>
     readable_heights L"

lemma recorded_seen: "recorded H R m L cs f f1 \<Longrightarrow> calendars_seen cs f1"
  by (simp add: recorded_def)

lemma recorded_refl: "calendars_seen cs f \<Longrightarrow> recorded H R m {} cs f f"
  by (simp add: recorded_def)

lemma recorded_trans:
  assumes "recorded H R m L1 cs f f'" "recorded H R m L2 cs' f' f1" "set cs \<subseteq> set cs'"
  shows "recorded H R m (L1 \<union> L2) cs f f1"
proof -
  have "calendars_seen cs f1"
    using recorded_seen [OF assms(2)] assms(3) unfolding calendars_seen_def
    by (meson subset_trans)
  with assms(1,2) show ?thesis by (simp add: recorded_def Un_assoc)
qed

lemma recorded_under:
  assumes "recorded H R m' L cs f f1" "exec_op H R op m = Some m'"
  shows "recorded H R m ((\<lambda>(p, a). (op # p, a)) ` L) cs f f1"
  using assms by (simp add: recorded_def facts_under)

lemma recorded_skipped:
  assumes "recorded H R m' L cs' f' f1" "exec_op H R op m = None" "calendars_seen cs f"
  shows "recorded H R m ((\<lambda>(p, a). (op # p, a)) ` L) cs f f"
  using assms by (simp add: recorded_def facts_under)

lemma record_attestation_facts:
  assumes "record_attestation st (att_tag a) (att_payload a) f = Inr (st1, f1)"
    and "calendars_seen (ps_calendars st) f"
  shows "ps_message st1 = ps_message st \<and> set (ps_calendars st) \<subseteq> set (ps_calendars st1) \<and>
    calendars_seen (ps_calendars st1) f1 \<and>
    recorded H R (ps_message st) {([], a)} (ps_calendars st) f f1"
proof (cases "att_tag a = bitcoin_tag")
  case True
  with assms(1) obtain h n where rd: "read_varuint (att_payload a) 0 = Inr (h, n)"
    and st: "st1 = st" and f1: "f1 = (fst f @ [\<lparr>block_height = h,
      block_merkle_root = to_display_hex (ps_message st), transaction_id = ps_transaction_id st,
      op_return_data = ps_op_return_data st, calendars = ps_calendars st\<rparr>], snd f)"
    by (auto simp: record_attestation_def bindE_Inr_iff)
  from True assms(2) read_varuint_height(1) [OF rd] show ?thesis
    unfolding st f1 by (simp add: facts_att calendars_seen_def recorded_def anchor_fact_def)
next
  case False
  show ?thesis
  proof (cases "att_tag a = pending_tag")
    case True
    show ?thesis
    proof (cases "decode_calendar_uri (att_payload a)")
      case None
      with True assms show ?thesis by (simp add: record_attestation_def facts_att recorded_def)
    next
      case (Some u)
      show ?thesis
      proof (cases "u \<in> set (ps_calendars st)")
        case True
        with Some \<open>att_tag a = pending_tag\<close> assms show ?thesis
          by (auto simp: record_attestation_def facts_att calendars_seen_def recorded_def)
      next
        case False
        with Some \<open>att_tag a = pending_tag\<close> assms(1)
        have "st1 = st\<lparr>ps_calendars := ps_calendars st @ [u]\<rparr>" "f1 = (fst f, snd f @ [u])"
          by (auto simp: record_attestation_def)
        with Some \<open>att_tag a = pending_tag\<close> assms(2) show ?thesis
          by (auto simp: facts_att calendars_seen_def recorded_def)
      qed
    qed
  next
    case no: False
    with False assms show ?thesis by (simp add: record_attestation_def facts_att recorded_def)
  qed
qed

lemma record_attestation_fails:
  "record_attestation st (att_tag a) (att_payload a) f = Inl e \<Longrightarrow> \<not> readable_heights {([], a)}"
  by (auto simp: record_attestation_def bindE_Inl_iff facts_att
      dest: read_varuint_height split: if_splits option.splits)

lemma tree_items_facts:
  "list_all wf_item its \<Longrightarrow> calendars_seen (ps_calendars st) f \<Longrightarrow>
   tree_items H R st f its = Inr f1 \<Longrightarrow>
     recorded H R (ps_message st) (located_items its) (ps_calendars st) f f1"
proof (induction H R st f its arbitrary: f1 rule: tree_items.induct)
  case (1 H R st f)
  then show ?case by (simp add: recorded_refl)
next
  case (2 H R st f a its)
  then obtain st1 f' where r: "record_attestation st (att_tag a) (att_payload a) f = Inr (st1, f')"
    and t: "tree_items H R st1 f' its = Inr f1"
    by (auto simp: bindE_Inr_iff)
  have msg: "ps_message st1 = ps_message st"
    and sub: "set (ps_calendars st) \<subseteq> set (ps_calendars st1)"
    and seen: "calendars_seen (ps_calendars st1) f'"
    and rec: "recorded H R (ps_message st) {([], a)} (ps_calendars st) f f'"
    using record_attestation_facts [OF r 2(3), of H R] by blast+
  have "list_all wf_item its" using 2(2) by simp
  from 2(1) [OF r refl this seen t] have "recorded H R (ps_message st) (located_items its)
      (ps_calendars st1) f' f1"
    unfolding msg .
  from recorded_trans [OF rec this sub] show ?case by simp
next
  case (3 H R st f op ch its)
  then have wf: "wf_op op" "list_all wf_item ch" "list_all wf_item its" by auto
  note ap = apply_operation_whole [OF wf(1), of H R "ps_message st"]
  show ?case
  proof (cases "exec_op H R op (ps_message st)")
    case None
    with 3(7) ap obtain g
      where s: "tree_items H R (identify_transaction H unusable_state) ([], []) ch = Inr g"
      and t: "tree_items H R st f its = Inr f1"
      by (auto simp: bindE_Inr_iff)
    have "calendars_seen (ps_calendars (identify_transaction H unusable_state)) ([], [])"
      by (simp add: calendars_seen_def)
    from 3(1) [OF ap refl None wf(2) this s]
    have "recorded H R (ps_message st) (located_item (Branch op (Node ch))) (ps_calendars st) f f"
      unfolding located_Branch_Node by (rule recorded_skipped) (use None 3(6) in simp_all)
    from recorded_trans [OF this 3(2) [OF ap refl None s wf(3) 3(6) t] subset_refl]
    show ?thesis by simp
  next
    case (Some m)
    with 3(7) ap obtain f'
      where s: "tree_items H R (identify_transaction H (child_state st m)) f ch = Inr f'"
      and t: "tree_items H R st f' its = Inr f1"
      by (auto simp: bindE_Inr_iff)
    have "calendars_seen (ps_calendars (identify_transaction H (child_state st m))) f"
      using 3(6) by simp
    from 3(3) [OF ap refl Some wf(2) this s] have "recorded H R m (located_items ch) (ps_calendars st) f f'"
      by simp
    from recorded_under [OF this Some]
    have rec: "recorded H R (ps_message st) (located_item (Branch op (Node ch))) (ps_calendars st) f f'"
      by simp
    from recorded_trans [OF rec 3(4) [OF ap refl Some s wf(3) recorded_seen [OF rec] t] subset_refl]
    show ?thesis by simp
  qed
qed

lemma tree_items_fails:
  "list_all wf_item its \<Longrightarrow> tree_items H R st f its = Inl e \<Longrightarrow> \<not> readable_heights (located_items its)"
proof (induction H R st f its rule: tree_items.induct)
  case (2 H R st f a its)
  show ?case
  proof (cases "record_attestation st (att_tag a) (att_payload a) f")
    case (Inl e')
    from record_attestation_fails [OF this] show ?thesis
      unfolding facts_Cons_att by simp
  next
    case (Inr r)
    with 2(3) have "tree_items H R (fst r) (snd r) its = Inl e" by (simp add: case_prod_unfold)
    with 2(1) [OF Inr prod.collapse] 2(2) show ?thesis
      unfolding facts_Cons_att by simp
  qed
next
  case (3 H R st f op ch its)
  then have wf: "wf_op op" "list_all wf_item ch" "list_all wf_item its" by auto
  note ap = apply_operation_whole [OF wf(1), of H R "ps_message st"]
  show ?case
    using 3(1-4) [OF ap refl] 3(6) wf ap
    by (cases "exec_op H R op (ps_message st)") (auto simp: bindE_Inl_iff facts_under)
qed simp

lemma recorded_readable: "recorded H R m L cs f f1 \<Longrightarrow> readable_heights L"
  by (simp add: recorded_def)

lemma tree_items_total_iff:
  assumes "list_all wf_item its" "calendars_seen (ps_calendars st) f"
  shows "(\<exists>f1. tree_items H R st f its = Inr f1) \<longleftrightarrow> readable_heights (located_items its)"
  using recorded_readable [OF tree_items_facts [OF assms, of H R]]
    tree_items_fails [OF assms(1), of H R st f]
  by (cases "tree_items H R st f its") blast+

section \<open>\<open>describe_anchors\<close> on a parsed proof\<close>

definition root_state :: "detached_proof \<Rightarrow> path_state" where
  "root_state p = \<lparr>ps_message = dp_digest p, ps_calendars = [], ps_transaction_id = None,
     ps_op_return_data = None\<rparr>"

definition assemble_anchors :: "found \<Rightarrow> proof_anchors" where
  "assemble_anchors f =
     (let anchored = concat (map calendars (fst f)) in
      \<lparr>anchors = sort_key block_height (fst f),
       pending_calendars = sorted_set (filter (\<lambda>c. c \<notin> set anchored) (snd f))\<rparr>)"

lemma set_sorted_set [simp]: "set (sorted_set xs) = set xs"
  by (simp add: sorted_set_def)

lemma describe_anchors_parsed:
  assumes "parse_proof data = Inr p" "data ! 31 = 1"
  shows "describe_anchors H R data =
    bindE (tree_items H R (identify_transaction H (root_state p)) ([], []) (items (dp_root p)))
      (\<lambda>f. Inr (assemble_anchors f))"
proof -
  from assms(1) obtain off d where c: "starts_with data header_magic"
      "read_varuint data 31 = Inr (1, off)" "off < length data"
      "digest_lengths (data ! off) = Some d" "off + 1 + d \<le> length data"
      "dp_digest p = bslice data (off + 1) (off + 1 + d)"
      "parse_timestamp data (off + 1 + d) = Inr (dp_root p, length data)"
    by (auto simp: parse_proof_Inr_iff)
  from c(2) have "31 < length data" using varuint_codec.rd_bounds by fastforce
  with c(2) assms(2) have off: "off = 32" by (simp add: read_varuint_one)
  with c assms(2) have len: "length (bslice data 33 (33 + d)) = d" by simp
  have "parse_node (parse_fuel data) data (33 + d) 0 = Inr (dp_root p, length data)"
    using c off by (simp add: parse_timestamp_def)
  from walk_tree(1) [OF this order_refl]
  have w: "walk H R (parse_fuel data) data (33 + d) (root_state p) ([], []) 0 =
      bindE (tree_node H R (root_state p) ([], []) (dp_root p)) (\<lambda>f1. Inr (length data, f1))" .
  have "starts_with data header_magic" "data ! 32 \<in> {0x02, 0x08}" "32 < length data"
    using c off by (auto simp: digest_lengths_def split: if_splits)
  with w c off assms(2) len show ?thesis
    by (simp add: describe_anchors_def root_state_def tree_node_def assemble_anchors_def
        bindE_assoc Let_def case_prod_unfold)
qed

lemma root_seen: "calendars_seen (ps_calendars (root_state p)) ([], [])"
  by (simp add: root_state_def calendars_seen_def)

lemma assemble_anchors_facts:
  assumes "recorded H R m L [] ([], []) f"
  shows "anchor_fact ` set (anchors (assemble_anchors f)) = bitcoin_facts H R m L \<and>
    set (promised_calendars (assemble_anchors f)) = promised_uris H R m L \<and>
    sorted (map block_height (anchors (assemble_anchors f))) \<and>
    set (pending_calendars (assemble_anchors f)) \<inter>
      set (anchoring_calendars (assemble_anchors f)) = {}"
  using assms
  by (auto simp: recorded_def calendars_seen_def assemble_anchors_def promised_calendars_def
      anchoring_calendars_def Let_def)

lemma root_walk:
  assumes "parse_proof data = Inr p"
  shows "list_all wf_item (items (dp_root p))"
    and "tree_items H R (identify_transaction H (root_state p)) ([], []) (items (dp_root p)) = Inr f \<Longrightarrow>
      recorded H R (dp_digest p) (located_node (dp_root p)) [] ([], []) f"
proof -
  show wf: "list_all wf_item (items (dp_root p))"
    using parse_proof_root_wf [OF assms] by (cases "dp_root p") (simp add: list_all_iff)
  show "tree_items H R (identify_transaction H (root_state p)) ([], []) (items (dp_root p)) = Inr f \<Longrightarrow>
      recorded H R (dp_digest p) (located_node (dp_root p)) [] ([], []) f"
    using tree_items_facts [OF wf, of "identify_transaction H (root_state p)" "([], [])" H R f]
      root_seen [of p]
    by (simp add: located_node_items) (simp add: root_state_def)
qed

section \<open>Open promises\<close>

text \<open>The node a reference names.\<close>

fun nth_child :: "nat \<Rightarrow> item list \<Rightarrow> node option" where
  "nth_child k [] = None"
| "nth_child k (Att a # its) = nth_child k its"
| "nth_child k (Branch op ch # its) =
     (case k of 0 \<Rightarrow> Some ch | Suc j \<Rightarrow> nth_child j its)"

fun node_at :: "node \<Rightarrow> node_ref \<Rightarrow> node option" where
  "node_at nd [] = Some nd"
| "node_at nd (k # ks) =
     (case nth_child k (items nd) of None \<Rightarrow> None | Some ch \<Rightarrow> node_at ch ks)"

definition promise_at :: "node \<Rightarrow> uri \<Rightarrow> bool" where
  "promise_at nd u \<longleftrightarrow> \<not> subtree_has_bitcoin_attestation nd \<and>
     (\<exists>a. Att a \<in> set (items nd) \<and> att_tag a = pending_tag \<and>
        decode_calendar_uri (att_payload a) = Some u)"

lemma node_at_append: "node_at nd (r @ r') = Option.bind (node_at nd r) (\<lambda>n. node_at n r')"
  by (induction nd r rule: node_at.induct) (auto split: option.splits)

lemma nth_child_branch:
  "nth_child (length (filter (\<lambda>it. \<not> is_att it) pre)) (pre @ Branch op ch # its) = Some ch"
  by (induction pre) (auto split: item.splits elim: is_att.elims)

abbreviation branch_count :: "item list \<Rightarrow> nat" where
  "branch_count its \<equiv> length (filter (\<lambda>it. \<not> is_att it) its)"

lemma item_node_cases:
  obtains (Att) a where "it = Att a" | (Branch) op ch where "it = Branch op (Node ch)"
  by (metis item.exhaust node.exhaust)

lemma height_Cons:
  "height_node (Node (it # its)) = max (height_item it) (height_node (Node its))"
  by simp

lemma collect_items_Branch:
  "wf_op op \<Longrightarrow>
   collect_items H R here message depth ref k (Branch op (Node ch) # its) =
     bindE
       (case message of
          None \<Rightarrow> Inr []
        | Some m \<Rightarrow>
            if max_depth < depth + 1
            then Inl (AnchorExtractionError ''timestamp recursion limit exceeded'')
            else collect_items H R (subtree_has_bitcoin_attestation (Node ch)) (exec_op H R op m)
                   (depth + 1) (ref @ [k]) 0 ch)
       (\<lambda>found. bindE (collect_items H R here message depth ref (k + 1) its) (\<lambda>rest.
         Inr (found @ rest)))"
  by (cases message) (simp_all add: apply_operation_whole)

lemma collect_items_None: "collect_items H R here None depth ref k its = Inr []"
proof (induction its arbitrary: k)
  case (Cons it its)
  then show ?case
    by (cases it rule: item_node_cases) simp_all
qed simp

lemma collect_items_total:
  "list_all wf_item its \<Longrightarrow> depth + height_node (Node its) \<le> max_depth \<Longrightarrow>
     \<exists>cs. collect_items H R here message depth ref k its = Inr cs"
proof (induction H R here message depth ref k its rule: collect_items.induct)
  case (2 H R here message depth ref k a its)
  then show ?case by (cases message) (auto split: option.splits)
next
  case (3 H R here message depth ref k op ch its)
  have wf: "wf_op op" "list_all wf_item ch" "list_all wf_item its"
    using 3(3) by (simp_all add: list_all_iff)
  have h1: "depth + height_node (Node its) \<le> max_depth"
    and h2: "depth + 1 + height_node (Node ch) \<le> max_depth"
    using 3(4) unfolding height_Cons height_item.simps(2) by arith+
  note ap = apply_operation_whole [OF wf(1)]
  show ?case
  proof (cases message)
    case None
    then show ?thesis by (simp add: collect_items_None)
  next
    case (Some m)
    from 3(1) [OF Some ap refl _ _ wf(2) h2] h2 obtain found where
      "collect_items H R (subtree_has_bitcoin_attestation (Node ch)) (exec_op H R op m)
         (depth + 1) (ref @ [k]) 0 ch = Inr found"
      by auto
    moreover have "\<not> max_depth < depth + 1" using h2 by simp
    ultimately show ?thesis using 3(2) [of found] wf h1 Some
      unfolding collect_items_Branch [OF wf(1)] by (auto simp: ap)
  qed
qed simp

definition promises ::
    "(hash_name \<Rightarrow> bytes \<Rightarrow> bytes) \<Rightarrow> (bytes \<Rightarrow> bytes option) \<Rightarrow> bytes \<Rightarrow>
     (bytes list \<times> attestation) set \<Rightarrow> (uri \<times> bytes) set" where
  "promises H R m L =
     {(u, m'). \<exists>p a. (p, a) \<in> L \<and> att_tag a = pending_tag \<and> exec_path H R m p = Some m' \<and>
        decode_calendar_uri (att_payload a) = Some u}"

definition col_promise :: "collectible \<Rightarrow> uri \<times> bytes" where
  "col_promise c = (col_url c, col_commitment c)"

lemma collectible_calendars_total:
  assumes "parse_proof data = Inr p"
  shows "\<exists>cs. collectible_calendars H R p = Inr cs"
proof -
  have "height_node (dp_root p) \<le> max_depth"
    using parse_proof_root_wf [OF assms] by simp
  then show ?thesis
    unfolding collectible_calendars_def
    using collect_items_total [OF root_walk(1) [OF assms], of 0 H R
        "subtree_has_bitcoin_attestation (dp_root p)" "Some (dp_digest p)" "[]" 0]
    by (metis add_0 node.collapse)
qed

lemma promises_simps:
  "promises H R m {} = {}"
  "promises H R m (A \<union> B) = promises H R m A \<union> promises H R m B"
  "promises H R m {([], a)} =
     (if att_tag a = pending_tag
      then (case decode_calendar_uri (att_payload a) of None \<Rightarrow> {} | Some u \<Rightarrow> {(u, m)}) else {})"
  "promises H R m ((\<lambda>(p, a). (op # p, a)) ` L) =
     (case exec_op H R op m of None \<Rightarrow> {} | Some m' \<Rightarrow> promises H R m' L)"
     apply (simp add: promises_def)
    apply (unfold promises_def, blast)
   apply (auto split: option.splits)[1]
  apply (fastforce split: option.splits)
  done

lemma promises_Cons_att:
  "promises H R m (located_items (Att a # its)) =
     promises H R m {([], a)} \<union> promises H R m (located_items its)"
  using promises_simps(2) [of H R m "{([], a)}" "located_items its"] by simp

lemma promised_uris_promises: "promised_uris H R m L = fst ` promises H R m L"
  by (force simp: promised_uris_def promises_def)

definition promises_from where
  "promises_from H R message L = (case message of None \<Rightarrow> {} | Some m \<Rightarrow> promises H R m L)"

lemma collect_items_AttD:
  assumes "collect_items H R here message depth ref k (Att a # its) = Inr cs"
  obtains rest where "collect_items H R here message depth ref k its = Inr rest"
    and "cs = rest \<and> (here \<or> promises_from H R message {([], a)} = {}) \<or>
      (\<exists>u m. message = Some m \<and> \<not> here \<and> att_tag a = pending_tag \<and>
        decode_calendar_uri (att_payload a) = Some u \<and>
        cs = \<lparr>col_url = u, col_commitment = m, col_node = ref\<rparr> # rest)"
proof (cases "collect_items H R here message depth ref k its")
  case (Inr rest)
  with assms show ?thesis
    by (intro that [of rest])
      (auto simp: promises_from_def promises_simps split: option.splits if_splits)
qed (use assms in simp)

lemma collect_items_promises:
  "list_all wf_item its \<Longrightarrow> collect_items H R here message depth ref k its = Inr cs \<Longrightarrow>
     col_promise ` set cs \<subseteq> promises_from H R message (located_items its) \<and>
     (\<not> here \<and> \<not> list_ex item_has_bitcoin_attestation its \<longrightarrow>
        promises_from H R message (located_items its) \<subseteq> col_promise ` set cs)"
proof (induction H R here message depth ref k its arbitrary: cs rule: collect_items.induct)
  case (1 H R here message depth ref k)
  then show ?case by (simp add: promises_from_def promises_simps split: option.split)
next
  case (2 H R here message depth ref k a its)
  show ?case
  proof (cases message)
    case None
    with 2(3) show ?thesis by (simp add: promises_from_def collect_items_None)
  next
    case (Some m)
    have p: "promises_from H R message (located_items (Att a # its)) =
        promises_from H R message {([], a)} \<union> promises_from H R message (located_items its)"
      unfolding Some promises_from_def option.case by (rule promises_Cons_att)
    from 2(3) obtain rest where rest: "collect_items H R here message depth ref k its = Inr rest"
      and cs: "cs = rest \<and> (here \<or> promises_from H R message {([], a)} = {}) \<or>
        (\<exists>u m. message = Some m \<and> \<not> here \<and> att_tag a = pending_tag \<and>
          decode_calendar_uri (att_payload a) = Some u \<and>
          cs = \<lparr>col_url = u, col_commitment = m, col_node = ref\<rparr> # rest)"
      by (rule collect_items_AttD)
    have IH: "col_promise ` set rest \<subseteq> promises_from H R message (located_items its) \<and>
       (\<not> here \<and> \<not> list_ex item_has_bitcoin_attestation its \<longrightarrow>
          promises_from H R message (located_items its) \<subseteq> col_promise ` set rest)"
      using 2(1) [OF _ rest] 2(2) by simp
    from cs show ?thesis
    proof (elim disjE exE conjE)
      fix u m' assume "message = Some m'" "att_tag a = pending_tag"
        "decode_calendar_uri (att_payload a) = Some u"
        "cs = \<lparr>col_url = u, col_commitment = m', col_node = ref\<rparr> # rest"
      with IH show ?thesis
        unfolding p by (auto simp: col_promise_def promises_from_def promises_simps)
    qed (unfold p, use IH in auto)
  qed
next
  case (3 H R here message depth ref k op ch its)
  have wf: "wf_op op" "list_all wf_item ch" "list_all wf_item its"
    using 3(3) by (simp_all add: list_all_iff)
  note ap = apply_operation_whole [OF wf(1)]
  show ?case
  proof (cases message)
    case None
    with 3(4) show ?thesis by (simp add: promises_from_def collect_items_None)
  next
    case (Some m)
    from 3(4) obtain found rest where d: "\<not> max_depth < depth + 1"
      and f: "collect_items H R (subtree_has_bitcoin_attestation (Node ch)) (exec_op H R op m)
         (depth + 1) (ref @ [k]) 0 ch = Inr found"
      and r: "collect_items H R here message depth ref (k + 1) its = Inr rest"
      and cs: "cs = found @ rest"
      unfolding Some collect_items_Branch [OF wf(1)]
      by (auto simp: bindE_Inr_iff split: if_splits)
    have p: "promises_from H R message (located_items (Branch op (Node ch) # its)) =
        promises_from H R (exec_op H R op m) (located_items ch) \<union>
        promises_from H R message (located_items its)"
      by (simp add: promises_from_def Some promises_simps split: option.split)
    have raw: "(case message of
          None \<Rightarrow> Inr []
        | Some m \<Rightarrow>
            bindE (apply_operation H R op 0 m) (\<lambda>(child_message, consumed).
              if consumed \<noteq> length op
              then Inl (AnchorExtractionError ''operation bytes not fully consumed'')
              else if max_depth < depth + 1
              then Inl (AnchorExtractionError ''timestamp recursion limit exceeded'')
              else collect_items H R (subtree_has_bitcoin_attestation (Node ch)) child_message
                     (depth + 1) (ref @ [k]) 0 ch)) = Inr found"
      using d f by (simp add: Some ap del: subtree_has_bitcoin_attestation.simps)
    have IH1: "col_promise ` set found \<subseteq> promises_from H R (exec_op H R op m) (located_items ch) \<and>
       (\<not> list_ex item_has_bitcoin_attestation ch \<longrightarrow>
          promises_from H R (exec_op H R op m) (located_items ch) \<subseteq> col_promise ` set found)"
      using 3(1) [OF Some ap refl _ d wf(2) f] by simp
    have IH2: "col_promise ` set rest \<subseteq> promises_from H R message (located_items its) \<and>
       (\<not> here \<and> \<not> list_ex item_has_bitcoin_attestation its \<longrightarrow>
          promises_from H R message (located_items its) \<subseteq> col_promise ` set rest)"
      by (rule 3(2) [OF raw wf(3) r])
    show ?thesis unfolding p using IH1 IH2 cs by auto
  qed
qed

lemma collect_items_refs:
  "collect_items H R here message depth ref k its = Inr cs \<Longrightarrow>
   node_at root ref = Some (Node (pre @ its)) \<Longrightarrow> k = branch_count pre \<Longrightarrow>
   here = subtree_has_bitcoin_attestation (Node (pre @ its)) \<Longrightarrow>
     \<forall>c \<in> set cs. \<exists>nd. node_at root (col_node c) = Some nd \<and> promise_at nd (col_url c)"
proof (induction H R here message depth ref k its arbitrary: cs pre rule: collect_items.induct)
  case (2 H R here message depth ref k a its)
  from 2(2) obtain rest where rest: "collect_items H R here message depth ref k its = Inr rest"
    and cs: "cs = rest \<and> (here \<or> promises_from H R message {([], a)} = {}) \<or>
      (\<exists>u m. message = Some m \<and> \<not> here \<and> att_tag a = pending_tag \<and>
        decode_calendar_uri (att_payload a) = Some u \<and>
        cs = \<lparr>col_url = u, col_commitment = m, col_node = ref\<rparr> # rest)"
    by (rule collect_items_AttD)
  have "\<forall>c \<in> set rest. \<exists>nd. node_at root (col_node c) = Some nd \<and> promise_at nd (col_url c)"
    using 2(1) [OF rest, of "pre @ [Att a]"] 2(3-5) by simp
  moreover have "promise_at (Node (pre @ Att a # its)) u"
    if "\<not> here" "att_tag a = pending_tag" "decode_calendar_uri (att_payload a) = Some u" for u
    using that 2(5) by (auto simp: promise_at_def)
  ultimately show ?case using cs 2(3) by auto
next
  case (3 H R here message depth ref k op ch its)
  from 3(3) obtain found rest where cs: "cs = found @ rest"
    and r: "collect_items H R here message depth ref (k + 1) its = Inr rest"
    and f: "(case message of
          None \<Rightarrow> Inr []
        | Some m \<Rightarrow>
            bindE (apply_operation H R op 0 m) (\<lambda>(child_message, consumed).
              if consumed \<noteq> length op
              then Inl (AnchorExtractionError ''operation bytes not fully consumed'')
              else if max_depth < depth + 1
              then Inl (AnchorExtractionError ''timestamp recursion limit exceeded'')
              else collect_items H R (subtree_has_bitcoin_attestation (Node ch)) child_message
                     (depth + 1) (ref @ [k]) 0 ch)) = Inr found"
    unfolding collect_items.simps(3) bindE_Inr_iff by blast
  have a: "\<forall>c \<in> set rest. \<exists>nd. node_at root (col_node c) = Some nd \<and> promise_at nd (col_url c)"
    using 3(2) [OF f r, of "pre @ [Branch op (Node ch)]"] 3(4-6) by simp
  have at: "node_at root (ref @ [k]) = Some (Node ([] @ ch))"
    using 3(4,5) by (simp add: node_at_append nth_child_branch)
  have "\<forall>c \<in> set found. \<exists>nd. node_at root (col_node c) = Some nd \<and> promise_at nd (col_url c)"
  proof (cases message)
    case None
    with f show ?thesis by simp
  next
    case (Some m)
    with f obtain cm where ap: "apply_operation H R op 0 m = Inr (cm, length op)"
      and d: "\<not> max_depth < depth + 1"
      and ff: "collect_items H R (subtree_has_bitcoin_attestation (Node ch)) cm
         (depth + 1) (ref @ [k]) 0 ch = Inr found"
      by (auto simp: bindE_Inr_iff split: if_splits)
    show ?thesis using 3(1) [OF Some ap refl _ d ff at] by simp
  qed
  with a cs show ?case by auto
qed simp

section \<open>Properties\<close>

text \<open>
  A proof with a promise of the calendar \<open>u\<close> and, under a \<open>SHA256\<close>, an attestation of block 5.
\<close>

definition example_proof :: bytes where
  "example_proof = header_magic @ [0x01, 0x08] @ replicate 32 0 @ [0xFF, 0x00] @ pending_tag @
     [2, 1, 0x75] @ [0x08, 0x00] @ bitcoin_tag @ [1, 5]"

definition example_root :: node where
  "example_root = Node [Att \<lparr>att_tag = pending_tag, att_payload = [1, 0x75]\<rparr>,
     Branch [0x08] (Node [Att \<lparr>att_tag = bitcoin_tag, att_payload = [5]\<rparr>])]"

definition pending_proof :: bytes where
  "pending_proof = header_magic @ [0x01, 0x08] @ replicate 32 0 @ [0xF0, 1, 9, 0x00] @
     pending_tag @ [2, 1, 0x75]"

lemma example_proof_parses:
  "parse_proof example_proof =
     Inr \<lparr>dp_header = header_magic @ [0x01, 0x08] @ replicate 32 0, dp_digest = replicate 32 0,
       dp_root = example_root\<rparr>"
  by code_simp

lemma pending_proof_parses:
  "parse_proof pending_proof =
     Inr \<lparr>dp_header = header_magic @ [0x01, 0x08] @ replicate 32 0, dp_digest = replicate 32 0,
       dp_root = Node [Branch [0xF0, 1, 9] (Node [Att \<lparr>att_tag = pending_tag, att_payload = [1, 0x75]\<rparr>])]\<rparr>"
  by code_simp

text \<open>
  C3: what \<open>describe_anchors\<close> reports of a parsed proof is what the proof attests. The pairs of
  block height and merkle root are those of the Bitcoin attestations whose path of operations
  can be executed, the root being the message that path computes, displayed; the calendars it
  names, anchored or pending, are those of the promises on such paths; the anchors are listed by
  height, and no calendar is reported both as anchoring and as pending.
\<close>

theorem describe_anchors_reports:
  assumes "parse_proof data = Inr p" "data ! 31 = 1" "describe_anchors H R data = Inr pa"
  shows "anchor_fact ` set (anchors pa) = bitcoin_facts H R (dp_digest p) (located_node (dp_root p)) \<and>
    set (promised_calendars pa) = promised_uris H R (dp_digest p) (located_node (dp_root p)) \<and>
    sorted (map block_height (anchors pa)) \<and>
    set (pending_calendars pa) \<inter> set (anchoring_calendars pa) = {}"
proof -
  from assms(3) obtain f where
    f: "tree_items H R (identify_transaction H (root_state p)) ([], []) (items (dp_root p)) = Inr f"
    and pa: "pa = assemble_anchors f"
    unfolding describe_anchors_parsed [OF assms(1,2)] bindE_Inr_iff by blast
  show ?thesis
    unfolding pa using root_walk(2) [OF assms(1) f] by (rule assemble_anchors_facts)
qed

definition zero_digest :: "hash_name \<Rightarrow> bytes \<Rightarrow> bytes" where
  "zero_digest h m = replicate 32 0"

definition example_anchors :: proof_anchors where
  "example_anchors = \<lparr>anchors = [\<lparr>block_height = 5,
       block_merkle_root = to_display_hex (replicate 32 0), transaction_id = None,
       op_return_data = None, calendars = [[0x75]]\<rparr>], pending_calendars = []\<rparr>"

lemma zero_digest_no_transaction: "deserialize_transaction (replicate 32 0) = None"
  by (simp add: deserialize_transaction_def deserialize_transaction_body_def
      max_transaction_bytes_def read_compact_size_def)

lemma example_payloads:
  "read_varuint [5] 0 = Inr (5, 1)" "decode_calendar_uri [1, 0x75] = Some [0x75]"
  "example_proof ! 31 = 1" "pending_proof ! 31 = 1"
  by code_simp+

lemma example_describe:
  "describe_anchors zero_digest (\<lambda>_. None) example_proof = Inr example_anchors"
  unfolding describe_anchors_parsed [OF example_proof_parses example_payloads(3)]
  by (simp add: example_root_def root_state_def identify_transaction_def zero_digest_no_transaction
      record_attestation_def example_payloads apply_operation_def zero_digest_def child_state_def
      example_anchors_def assemble_anchors_def sorted_set_def)

lemma describe_anchors_reports_witness:
  "anchor_fact ` set (anchors example_anchors) =
     bitcoin_facts zero_digest (\<lambda>_. None) (replicate 32 0) (located_node example_root) \<and>
   set (promised_calendars example_anchors) =
     promised_uris zero_digest (\<lambda>_. None) (replicate 32 0) (located_node example_root)"
  using describe_anchors_reports [OF example_proof_parses example_payloads(3) example_describe]
  by simp

lemma describe_anchors_total_iff:
  assumes "parse_proof data = Inr p" "data ! 31 = 1"
  shows "(\<exists>pa. describe_anchors H R data = Inr pa) \<longleftrightarrow>
    (\<forall>(path, a) \<in> located_node (dp_root p).
       att_tag a = bitcoin_tag \<longrightarrow> decode128 (att_payload a) \<noteq> None)"
proof -
  have "(\<exists>pa. describe_anchors H R data = Inr pa) \<longleftrightarrow>
      (\<exists>f. tree_items H R (identify_transaction H (root_state p)) ([], []) (items (dp_root p)) = Inr f)"
    unfolding describe_anchors_parsed [OF assms] by (simp add: bindE_Inr_iff)
  also have "\<dots> \<longleftrightarrow> readable_heights (located_node (dp_root p))"
    unfolding located_node_items
    by (rule tree_items_total_iff [OF root_walk(1) [OF assms(1)]]) (simp add: root_seen)
  finally show ?thesis by (auto simp: readable_heights_def att_height_def)
qed

text \<open>
  C38: when \<open>describe_anchors\<close> fails. On a parsed proof of version 1 it returns exactly when the
  payload of every Bitcoin attestation begins with a readable block height. The operations of the tree,
  their arguments and the transactions found in them are never a reason to fail, however malformed.
\<close>

theorem describe_anchors_returns_iff:
  assumes "parse_proof data = Inr p" "data ! 31 = 1"
  shows "(\<exists>pa. describe_anchors H R data = Inr pa) \<longleftrightarrow>
    (\<forall>(path, a) \<in> located_node (dp_root p).
       att_tag a = bitcoin_tag \<longrightarrow> decode128 (att_payload a) \<noteq> None)"
  by (rule describe_anchors_total_iff [OF assms])

lemma describe_anchors_returns_witness:
  "\<exists>pa. describe_anchors zero_digest (\<lambda>_. None) example_proof = Inr pa"
  unfolding describe_anchors_returns_iff [OF example_proof_parses example_payloads(3)]
  by (simp add: example_root_def located_items_def bitcoin_tag_def pending_tag_def)

lemma subtree_items:
  "list_ex item_has_bitcoin_attestation (items nd) \<longleftrightarrow> subtree_has_bitcoin_attestation nd"
  by (cases nd) simp

text \<open>
  \<open>collectible_calendars\<close> never raises on a parsed proof, and each promise it returns is
  open: its commitment is the message computed along a path of the proof to a calendar's
  promise, and its node holds that promise and no Bitcoin attestation below it. On a proof
  without a Bitcoin attestation it returns every promise that can be computed.
\<close>

theorem collectible_calendars_open:
  assumes "parse_proof data = Inr p"
  shows "\<exists>cs. collectible_calendars H R p = Inr cs \<and>
    col_promise ` set cs \<subseteq> promises H R (dp_digest p) (located_node (dp_root p)) \<and>
    (\<forall>c \<in> set cs. \<exists>nd. node_at (dp_root p) (col_node c) = Some nd \<and> promise_at nd (col_url c)) \<and>
    (\<not> subtree_has_bitcoin_attestation (dp_root p) \<longrightarrow>
       promises H R (dp_digest p) (located_node (dp_root p)) \<subseteq> col_promise ` set cs)"
proof -
  obtain cs where cs: "collectible_calendars H R p = Inr cs"
    using collectible_calendars_total [OF assms] by blast
  then have c: "collect_items H R (subtree_has_bitcoin_attestation (dp_root p))
      (Some (dp_digest p)) 0 [] 0 (items (dp_root p)) = Inr cs"
    by (simp add: collectible_calendars_def)
  have refs: "\<forall>c \<in> set cs. \<exists>nd. node_at (dp_root p) (col_node c) = Some nd \<and> promise_at nd (col_url c)"
    by (rule collect_items_refs [OF c, of _ "[]"]) simp_all
  note pr = collect_items_promises [OF root_walk(1) [OF assms] c]
  show ?thesis
    using cs refs pr
    unfolding located_node_items promises_from_def option.case subtree_items by blast
qed

lemma collectible_calendars_open_witness:
  "\<exists>cs. collectible_calendars zero_digest (\<lambda>_. None) \<lparr>dp_header = header_magic @ [0x01, 0x08] @ replicate 32 0,
       dp_digest = replicate 32 0, dp_root = example_root\<rparr> = Inr cs \<and>
     col_promise ` set cs \<subseteq>
       promises zero_digest (\<lambda>_. None) (replicate 32 0) (located_node example_root)"
  using collectible_calendars_open [OF example_proof_parses, of zero_digest "\<lambda>_. None"] by auto

section \<open>The walk ends\<close>

text \<open>
  The fuel of the walk is enough for any bytes, parsed or not: every branch consumes a byte, and a
  walk needs no more units than the bytes before it and two.
\<close>

lemma apply_operation_ends:
  "apply_operation H R data off m \<noteq> Inl OutOfFuel"
  "apply_operation H R data off m = Inr (x, off') \<Longrightarrow> off < off'"
proof -
  show "apply_operation H R data off m \<noteq> Inl OutOfFuel"
    by (auto simp: apply_operation_def Let_def bindE_Inl_iff dest!: read_varuint_error)
  show "apply_operation H R data off m = Inr (x, off') \<Longrightarrow> off < off'"
    using varuint_codec.rd_bounds [of data "Suc off"]
    by (fastforce simp: apply_operation_def Let_def bindE_Inr_iff split: if_splits)
qed

lemma anchor_attestation_ends:
  "anchor_read_attestation data off \<noteq> Inl OutOfFuel"
  "anchor_read_attestation data off = Inr (t, b, off') \<Longrightarrow> off < off'"
proof -
  show "anchor_read_attestation data off \<noteq> Inl OutOfFuel"
    by (auto simp: anchor_read_attestation_def Let_def bindE_Inl_iff dest!: read_varuint_error)
  show "anchor_read_attestation data off = Inr (t, b, off') \<Longrightarrow> off < off'"
    using varuint_codec.rd_bounds [of data "off + 8"]
    by (fastforce simp: anchor_read_attestation_def Let_def bindE_Inr_iff split: if_splits)
qed

lemma record_attestation_ends: "record_attestation st tag payload f \<noteq> Inl OutOfFuel"
  by (auto simp: record_attestation_def bindE_Inl_iff split: option.splits dest!: read_varuint_error)

text \<open>From an offset on, a walker ends and never moves back.\<close>

definition ends_from :: "walker \<Rightarrow> bytes \<Rightarrow> nat \<Rightarrow> bool" where
  "ends_from rec data k \<longleftrightarrow> (\<forall>off st f depth. k \<le> off \<longrightarrow>
     rec data off st f depth \<noteq> Inl OutOfFuel \<and>
     (\<forall>off' g. rec data off st f depth = Inr (off', g) \<longrightarrow> off \<le> off'))"

lemma walk_branch_ends:
  assumes "ends_from rec data (Suc off)"
  shows "walk_branch H R rec data off st f depth \<noteq> Inl OutOfFuel"
    and "walk_branch H R rec data off st f depth = Inr (off', st', f') \<Longrightarrow> off < off'"
proof -
  have r: "rec data o1 st f depth \<noteq> Inl OutOfFuel" "rec data o1 st f depth = Inr (o2, g) \<Longrightarrow> off < o2"
    if "apply_operation H R data off m = Inr (x, o1)" for m x o1 o2 st f depth g
  proof -
    have "Suc off \<le> o1" using apply_operation_ends(2) [OF that] by simp
    with assms have "rec data o1 st f depth \<noteq> Inl OutOfFuel \<and>
        (\<forall>o2 g. rec data o1 st f depth = Inr (o2, g) \<longrightarrow> o1 \<le> o2)" unfolding ends_from_def by blast
    then show "rec data o1 st f depth \<noteq> Inl OutOfFuel" "rec data o1 st f depth = Inr (o2, g) \<Longrightarrow> off < o2"
      using \<open>Suc off \<le> o1\<close> by (simp, blast intro: Suc_le_lessD le_trans)
  qed
  show "walk_branch H R rec data off st f depth \<noteq> Inl OutOfFuel"
    by (auto simp: walk_branch_def bindE_Inl_iff apply_operation_ends anchor_attestation_ends
        record_attestation_ends split: option.splits dest!: r(1))
  show "walk_branch H R rec data off st f depth = Inr (off', st', f') \<Longrightarrow> off < off'"
    by (auto simp: walk_branch_def bindE_Inr_iff split: if_splits option.splits
        dest: anchor_attestation_ends(2) r(2))
qed

lemma walk_loop_ends:
  assumes "ends_from rec data (Suc off)" "length data - off < n"
  shows "walk_loop H R rec n data off st f depth \<noteq> Inl OutOfFuel"
    and "walk_loop H R rec n data off st f depth = Inr (off', g) \<Longrightarrow> off \<le> off'"
proof -
  have "walk_loop H R rec n data off st f depth \<noteq> Inl OutOfFuel \<and>
      (\<forall>off' g. walk_loop H R rec n data off st f depth = Inr (off', g) \<longrightarrow> off \<le> off')"
    using assms
  proof (induction n arbitrary: off st f)
    case (Suc n)
    note later = Suc.prems(1) [unfolded ends_from_def]
    show ?case
    proof (cases "off < length data \<and> data ! off = 0xFF")
      case True
      let ?b = "walk_branch H R rec data (off + 1) st f depth"
      have e: "ends_from rec data (Suc (off + 1))" using later by (simp add: ends_from_def)
      note b = walk_branch_ends [OF e, of H R st f depth]
      show ?thesis
      proof (cases ?b)
        case (Inl e)
        with b(1) True show ?thesis by simp
      next
        case (Inr r)
        obtain o1 st1 f1 where r: "r = (o1, st1, f1)" by (cases r)
        with Inr b(2) have o1: "off + 1 < o1" by simp
        then have "ends_from rec data (Suc o1)" "length data - o1 < n"
          using later Suc.prems(2) True by (auto simp: ends_from_def)
        from Suc.IH [OF this, of st1 f1] Inr r True o1 show ?thesis by fastforce
      qed
    next
      case False
      then show ?thesis
        using walk_branch_ends [OF Suc.prems(1), of H R st f depth]
        by (auto simp: bindE_Inl_iff bindE_Inr_iff less_imp_le)
    qed
  qed simp
  then show "walk_loop H R rec n data off st f depth \<noteq> Inl OutOfFuel"
    "walk_loop H R rec n data off st f depth = Inr (off', g) \<Longrightarrow> off \<le> off'" by blast+
qed

lemma walk_ends: "length data - off + 2 \<le> n \<Longrightarrow> walk H R n data off st f depth \<noteq> Inl OutOfFuel \<and>
   (\<forall>off' g. walk H R n data off st f depth = Inr (off', g) \<longrightarrow> off \<le> off')"
proof (induction n arbitrary: off st f depth)
  case (Suc n)
  show ?case
  proof (cases "length data \<le> off")
    case True
    then show ?thesis using Suc.prems by (cases n) simp_all
  next
    case False
    have "ends_from (walk H R n) data (Suc off)"
      unfolding ends_from_def
    proof (intro allI impI)
      fix o1 st f depth
      assume "Suc off \<le> o1"
      then have "length data - o1 + 2 \<le> n" using Suc.prems False by linarith
      then show "walk H R n data o1 st f depth \<noteq> Inl OutOfFuel \<and>
          (\<forall>off' g. walk H R n data o1 st f depth = Inr (off', g) \<longrightarrow> o1 \<le> off')"
        by (rule Suc.IH)
    qed
    moreover have "length data - off < n" using Suc.prems False by linarith
    ultimately show ?thesis
      using walk_loop_ends [of "walk H R n" data off n H R "identify_transaction H st" f depth] by auto
  qed
qed simp

lemma describe_anchors_ends: "describe_anchors H R data \<noteq> Inl OutOfFuel"
proof -
  have "walk H R (parse_fuel data) data off st f depth \<noteq> Inl OutOfFuel" for off st f depth
    using walk_ends [of data off "parse_fuel data" H R] by (simp add: parse_fuel_def)
  then show ?thesis
    by (simp add: describe_anchors_def Let_def guardE_def bindE_Inl_iff split: option.split)
qed

end
