(* ===== verification/Upgrade.thy ===== *)
theory Upgrade
  imports OtsClient Locked GitObjects GitBaseline AnchorFacts
begin

text \<open>
  \<open>upgrade.py\<close>: completing stored proofs. Each proof is classified, pending ones are handed to the
  client, every calendar that still owes an attestation is asked, and what it returns is merged
  into the proof at the node that holds its promise.
\<close>

section \<open>Results\<close>

datatype upgrade_state = UPGRADED | STILL_PENDING | ALREADY_COMPLETE | WOULD_UPGRADE | SKIPPED

record upgrade_result =
  ur_proof_path :: path
  ur_source_commit_id :: commit_id
  ur_state :: upgrade_state
  ur_reason :: string
  ur_anchored_calendars :: nat
  ur_promised_calendars :: nat

record upgrade_report =
  up_results :: "upgrade_result list"
  up_commit_id :: "commit_id option"
  up_squashed :: bool
  up_would_squash_into :: "commit_id option"

record candidate =
  ca_proof_rel :: path
  ca_source_commit_id :: commit_id
  ca_payload :: bytes
  ca_proof_bytes :: bytes
  ca_promised_calendars :: nat
  ca_anchored :: bool

text \<open>The settings of \<open>config\<close> an upgrade reads.\<close>

record upgrade_config =
  uc_proof_directory :: string
  uc_commit :: bool
  uc_squash_upgrade_commits :: bool
  uc_require_clean_worktree :: bool
  uc_signs_generated_objects :: bool

section \<open>Additive upgrades\<close>

fun completed :: "bytes list \<Rightarrow> node \<Rightarrow> (bytes list \<times> bytes \<times> bytes) set"
  and completed_item :: "bytes list \<Rightarrow> item \<Rightarrow> (bytes list \<times> bytes \<times> bytes) set" where
  "completed p (Node its) = (\<Union>x \<in> set (map (completed_item p) its). x)"
| "completed_item p (Att a) =
     (if att_tag a \<noteq> pending_tag then {(p, att_tag a, att_payload a)} else {})"
| "completed_item p (Branch op child) = completed (p @ [op]) child"

definition is_additive_upgrade ::
    "(hash_name \<Rightarrow> bytes \<Rightarrow> bytes) \<Rightarrow> bytes \<Rightarrow> bytes \<Rightarrow> bytes \<Rightarrow> bool result" where
  "is_additive_upgrade H committed worktree payload =
     bindE (catchE
         (bindE (validate_detached_proof H committed (Some payload)) (\<lambda>_.
          bindE (validate_detached_proof H worktree (Some payload)) (\<lambda>_.
          bindE (parse_proof committed) (\<lambda>p.
          bindE (parse_proof worktree) (\<lambda>q. Inr (Some (p, q)))))))
         is_ValueError (\<lambda>_. Inr None)) (\<lambda>r.
       case r of
         None \<Rightarrow> Inr False
       | Some (p, q) \<Rightarrow>
           if dp_header p \<noteq> dp_header q then Inr False
           else Inr (completed [] (dp_root p) \<subseteq> completed [] (dp_root q)))"

section \<open>Classifying a stored proof\<close>

datatype stored_proof = Settled upgrade_result | Open candidate

definition skipped :: "path \<Rightarrow> commit_id \<Rightarrow> string \<Rightarrow> stored_proof" where
  "skipped rel cid reason = Settled \<lparr>ur_proof_path = rel, ur_source_commit_id = cid, ur_state = SKIPPED,
     ur_reason = reason, ur_anchored_calendars = 0, ur_promised_calendars = 0\<rparr>"

text \<open>\<open>json.loads(manifest_path.read_text(encoding="utf-8"))\<close>; \<open>None\<close> where one of the calls raises.\<close>

definition read_json :: "'w host \<Rightarrow> path \<Rightarrow> ('w, json option) prog" where
  "read_json h p =
     catchP (bindP (read_file h p) (\<lambda>raw.
         ret (if utf8_valid raw then json_loads h (bytes_text raw) else None)))
       is_OSError (\<lambda>_. ret None)"

definition manifest_source :: "json \<Rightarrow> commit_id option" where
  "manifest_source j = (case j of JObj m \<Rightarrow> json_get_str m ''source_commit'' | _ \<Rightarrow> None)"

text \<open>The stem of a name that ends in \<open>.ots\<close>: \<open>proof_path.with_suffix(".json")\<close> keeps it.\<close>

definition stem :: "string \<Rightarrow> string" where
  "stem name = take (length name - 4) name"

definition classify_stored_proof ::
    "'w host \<Rightarrow> path \<Rightarrow> string \<Rightarrow> string \<Rightarrow> string \<Rightarrow> ('w, stored_proof) prog" where
  "classify_stored_proof h root proof_directory name object_format =
     (let proof_rel = path_join proof_directory name;
          proof_path = path_join root proof_rel;
          manifest_path = path_join (path_join root proof_directory) (stem name @ ''.json'')
      in bindP (askP (\<lambda>w. is_file manifest_path (store_of h w))) (\<lambda>there.
         if \<not> there then ret (skipped proof_rel [] (''manifest missing: '' @ stem name @ ''.json''))
         else
           bindP (read_json h manifest_path) (\<lambda>manifest.
           case manifest of
             None \<Rightarrow> ret (skipped proof_rel [] ''manifest unreadable or malformed'')
           | Some j \<Rightarrow>
               case manifest_source j of
                 None \<Rightarrow> ret (skipped proof_rel [] ''manifest missing source_commit'')
               | Some cid \<Rightarrow>
                   bindP (catchP
                       (bindP (liftE (build_payload object_format cid)) (\<lambda>payload.
                        bindP (read_file h proof_path) (\<lambda>proof.
                        bindP (liftE (validate_detached_proof (digest h) proof (Some payload))) (\<lambda>_.
                        bindP (liftE (classify_detached_proof proof)) (\<lambda>state.
                        ret (Some (payload, proof, state)))))))
                       (\<lambda>e. is_OSError e \<or> is_ValueError e) (\<lambda>_. ret None)) (\<lambda>r.
                   case r of
                     None \<Rightarrow> ret (skipped proof_rel cid ''proof does not bind to source commit'')
                   | Some (payload, proof, state) \<Rightarrow>
                       bindP (liftE (describe_anchors (digest h) (ripemd h) proof)) (\<lambda>described.
                       ret (Open \<lparr>ca_proof_rel = proof_rel, ca_source_commit_id = cid,
                         ca_payload = payload, ca_proof_bytes = proof,
                         ca_promised_calendars = length (promised_calendars described),
                         ca_anchored = (state = ''valid'')\<rparr>))))))"

section \<open>Collecting from calendars\<close>

text \<open>
  \<open>merge_node(target.node, response)\<close>: the node is an object inside the tree, so that merging into
  it changes the tree at the place the reference names.
\<close>

fun update_child :: "nat \<Rightarrow> (node \<Rightarrow> node \<times> nat) \<Rightarrow> item list \<Rightarrow> item list \<times> nat" where
  "update_child k f [] = ([], 0)"
| "update_child k f (Att a # its) = (let (its', n) = update_child k f its in (Att a # its', n))"
| "update_child 0 f (Branch op ch # its) = (let (ch', n) = f ch in (Branch op ch' # its, n))"
| "update_child (Suc k) f (Branch op ch # its) =
     (let (its', n) = update_child k f its in (Branch op ch # its', n))"

primrec merge_at :: "node_ref \<Rightarrow> node \<Rightarrow> node \<Rightarrow> node \<times> nat" where
  "merge_at [] source nd = merge_node nd source"
| "merge_at (k # ks) source nd =
     (let (its, n) = update_child k (merge_at ks source) (items nd) in (Node its, n))"

record collecting =
  co_root :: node
  co_collected :: "uri list"
  co_notes :: "string list"
  co_added :: nat

type_synonym 'w fetcher = "uri \<Rightarrow> bytes \<Rightarrow> ('w, bytes option \<times> string) prog"

definition collect_one :: "'w fetcher \<Rightarrow> collectible \<Rightarrow> collecting \<Rightarrow> ('w, collecting) prog" where
  "collect_one fetch target st =
     bindP (fetch (col_url target) (col_commitment target)) (\<lambda>(body, detail).
       let note = (\<lambda>s. st\<lparr>co_notes := co_notes st @ [bytes_text (col_url target) @ '': '' @ s]\<rparr>) in
       case body of
         None \<Rightarrow> ret (note detail)
       | Some b \<Rightarrow>
           (case parse_calendar_response b of
              Inl e \<Rightarrow> if is_ProofParseError e then ret (note ''unusable response'') else raiseP e
            | Inr response \<Rightarrow>
                let (root, added) = merge_at (col_node target) response (co_root st) in
                ret (if added \<noteq> 0
                  then st\<lparr>co_root := root, co_collected := co_collected st @ [col_url target],
                         co_added := co_added st + added\<rparr>
                  else st\<lparr>co_root := root\<rparr>)))"

text \<open>The check before merged bytes may replace a stored proof.\<close>

definition check_merged ::
    "(hash_name \<Rightarrow> bytes \<Rightarrow> bytes) \<Rightarrow> bytes \<Rightarrow> (bytes \<times> bytes) list \<Rightarrow> bytes \<Rightarrow> unit result" where
  "check_merged H payload before merged =
     bindE (validate_detached_proof H merged (Some payload)) (\<lambda>_.
     bindE (parse_proof merged) (\<lambda>p.
       if list_all (\<lambda>x. x \<in> set (all_attestations (dp_root p))) before then Inr ()
       else Inl (PersistenceError ''refusing to store a merged proof that dropped attestations'')))"

definition collect_from_calendars ::
    "'w host \<Rightarrow> 'w fetcher \<Rightarrow> bytes \<Rightarrow> bytes \<Rightarrow> ('w, bytes option \<times> uri list \<times> string list) prog" where
  "collect_from_calendars h fetch proof payload =
     bindP (liftE (parse_proof proof)) (\<lambda>p.
     bindP (liftE (collectible_calendars (digest h) (ripemd h) p)) (\<lambda>targets.
       if targets = [] then ret (None, [], [])
       else
         bindP (foldP (collect_one fetch) targets
             \<lparr>co_root = dp_root p, co_collected = [], co_notes = [], co_added = 0\<rparr>) (\<lambda>st.
           if co_added st = 0 then ret (None, [], co_notes st)
           else
             bindP (liftE (serialize_proof (p\<lparr>dp_root := co_root st\<rparr>))) (\<lambda>merged.
             bindP (liftE (check_merged (digest h) payload (all_attestations (dp_root p)) merged)) (\<lambda>_.
             ret (Some merged, co_collected st, co_notes st))))))"

section \<open>Processing one proof\<close>

definition with_notes :: "string \<Rightarrow> string list \<Rightarrow> string" where
  "with_notes reason notes =
     (if notes = [] then reason
      else reason @ ''; nothing further available ('' @ join_with ''; '' notes @ '')'')"

text \<open>The first step: the proof after the client had it, the reasons so far, the client's detail.\<close>

definition upgrade_pending ::
    "'w host \<Rightarrow> 'w ots_cli \<Rightarrow> candidate \<Rightarrow> ('w, bytes \<times> string list \<times> string) prog" where
  "upgrade_pending h c ca =
     (if ca_anchored ca then ret (ca_proof_bytes ca, [], [])
      else
        bindP (catchP (upgrade h c (ca_proof_bytes ca) (ca_payload ca)) (\<lambda>e. e = KeyboardInterrupt)
            (\<lambda>e. bindP (terminate_active_child c) (\<lambda>_. raiseP e))) (\<lambda>attempt.
          case ua_upgraded attempt of
            None \<Rightarrow> ret (ca_proof_bytes ca, [], ua_detail attempt)
          | Some q \<Rightarrow>
              bindP (liftE (classify_detached_proof q)) (\<lambda>state.
              ret (q, [if state = ''valid'' then ''Bitcoin block header attestation added''
                       else ''attestations added, but still no Bitcoin block attestation''], []))))"

definition process_candidate ::
    "'w host \<Rightarrow> 'w ots_cli \<Rightarrow> 'w fetcher \<Rightarrow> path \<Rightarrow> string \<Rightarrow> string \<Rightarrow> candidate \<Rightarrow>
     ('w, upgrade_result) prog" where
  "process_candidate h c fetch root proof_directory object_format ca =
     bindP (upgrade_pending h c ca) (\<lambda>(current1, reasons1, pending_detail).
     bindP (collect_from_calendars h fetch current1 (ca_payload ca)) (\<lambda>(merged, collected, notes).
     let current = (case merged of None \<Rightarrow> current1 | Some m \<Rightarrow> m);
         reasons = (case merged of None \<Rightarrow> reasons1
           | Some _ \<Rightarrow> reasons1 @ [''collected attestations from '' @ join_with '', '' (map bytes_text collected)]);
         changed = (current \<noteq> ca_proof_bytes ca)
     in
     bindP (if changed
         then bindP (persist_upgraded_proof h root proof_directory object_format (ca_source_commit_id ca) current)
                (\<lambda>_. ret ())
         else ret ()) (\<lambda>_.
     bindP (liftE (describe_anchors (digest h) (ripemd h) current)) (\<lambda>described.
     let result = (\<lambda>state reason. \<lparr>ur_proof_path = ca_proof_rel ca,
           ur_source_commit_id = ca_source_commit_id ca, ur_state = state, ur_reason = reason,
           ur_anchored_calendars = length (anchoring_calendars described),
           ur_promised_calendars = length (promised_calendars described)\<rparr>)
     in
     ret (if changed then result UPGRADED (join_with ''; '' reasons)
       else if anchors described \<noteq> []
       then result ALREADY_COMPLETE (with_notes ''Bitcoin block header attestation already present'' notes)
       else result STILL_PENDING
         (if pending_detail \<noteq> [] then ''no new attestations available yet ('' @ pending_detail @ '')''
          else ''no new attestations available yet''))))))"

section \<open>An upgrade pass\<close>

record scanned =
  sc_results :: "upgrade_result list"
  sc_candidates :: "candidate list"
  sc_recovered :: "commit_id list"

definition is_proof_name :: "string \<Rightarrow> bool" where
  "is_proof_name name \<longleftrightarrow> str_endswith name ''.ots'' \<and> name \<noteq> ''.ots''"

definition scan_one ::
    "'w host \<Rightarrow> upgrade_config \<Rightarrow> path \<Rightarrow> string \<Rightarrow> string \<Rightarrow> scanned \<Rightarrow> ('w, scanned) prog" where
  "scan_one h cfg root object_format name sc =
     bindP (askP (\<lambda>w. is_file (path_join (path_join root (uc_proof_directory cfg)) name) (store_of h w))) (\<lambda>there.
       if \<not> there \<or> \<not> is_proof_name name then ret sc
       else
         bindP (classify_stored_proof h root (uc_proof_directory cfg) name object_format) (\<lambda>r.
         case r of
           Settled result \<Rightarrow> ret (sc\<lparr>sc_results := sc_results sc @ [result]\<rparr>)
         | Open ca \<Rightarrow>
             bindP (read_tree_bytes h ''HEAD'' (ca_proof_rel ca)) (\<lambda>committed.
             case committed of
               Some old \<Rightarrow>
                 if uc_commit cfg \<and> old \<noteq> ca_proof_bytes ca then
                   bindP (liftE (is_additive_upgrade (digest h) old (ca_proof_bytes ca) (ca_payload ca))) (\<lambda>additive.
                   if \<not> additive then
                     bindP (liftE (describe_anchors (digest h) (ripemd h) (ca_proof_bytes ca))) (\<lambda>described.
                     ret (sc\<lparr>sc_results := sc_results sc @ [\<lparr>ur_proof_path = ca_proof_rel ca,
                        ur_source_commit_id = ca_source_commit_id ca, ur_state = SKIPPED,
                        ur_reason = ''worktree proof differs from HEAD but is not an additive upgrade; left untouched'',
                        ur_anchored_calendars = length (anchoring_calendars described),
                        ur_promised_calendars = ca_promised_calendars ca\<rparr>]\<rparr>))
                   else ret (sc\<lparr>sc_recovered := ca_source_commit_id ca # sc_recovered sc,
                          sc_candidates := sc_candidates sc @ [ca]\<rparr>))
                 else ret (sc\<lparr>sc_candidates := sc_candidates sc @ [ca]\<rparr>)
             | None \<Rightarrow> ret (sc\<lparr>sc_candidates := sc_candidates sc @ [ca]\<rparr>))))"

text \<open>What a dry run says of a candidate.\<close>

definition preview_one :: "'w host \<Rightarrow> candidate \<Rightarrow> upgrade_result result" where
  "preview_one h ca =
     bindE (parse_proof (ca_proof_bytes ca)) (\<lambda>p.
     bindE (collectible_calendars (digest h) (ripemd h) p) (\<lambda>outstanding.
     bindE (describe_anchors (digest h) (ripemd h) (ca_proof_bytes ca)) (\<lambda>described.
     let result = (\<lambda>state reason. \<lparr>ur_proof_path = ca_proof_rel ca,
           ur_source_commit_id = ca_source_commit_id ca, ur_state = state, ur_reason = reason,
           ur_anchored_calendars = length (anchoring_calendars described),
           ur_promised_calendars = length (promised_calendars described)\<rparr>)
     in Inr (if \<not> ca_anchored ca
       then result WOULD_UPGRADE ''pending attestation; calendars would be contacted''
       else if outstanding \<noteq> []
       then result WOULD_UPGRADE (''anchored; would ask '' @
         join_with '', '' (sort (map (bytes_text \<circ> col_url) outstanding)) @ '' for what they filed'')
       else result ALREADY_COMPLETE ''anchored by every calendar that was asked''))))"

definition ordered :: "upgrade_result list \<Rightarrow> upgrade_result list" where
  "ordered results = sort_key ur_proof_path results"

text \<open>The loop over the candidates: results, and the sources whose proofs are to be committed.\<close>

definition upgrade_one ::
    "'w host \<Rightarrow> 'w ots_cli \<Rightarrow> 'w fetcher \<Rightarrow> upgrade_config \<Rightarrow> path \<Rightarrow> string \<Rightarrow> commit_id list \<Rightarrow>
     candidate \<Rightarrow> upgrade_result list \<times> commit_id list \<Rightarrow> ('w, upgrade_result list \<times> commit_id list) prog" where
  "upgrade_one h c fetch cfg root object_format recovered ca acc =
     bindP (process_candidate h c fetch root (uc_proof_directory cfg) object_format ca) (\<lambda>r.
       let (results, upgraded) = acc; cid = ca_source_commit_id ca in
       ret (if cid \<in> set recovered then
              (results @ [if ur_state r \<noteq> UPGRADED
                 then r\<lparr>ur_state := UPGRADED, ur_reason :=
                        ''recovered an additive proof upgrade left uncommitted by an earlier invocation; '' @
                        ur_reason r\<rparr>
                 else r], upgraded @ [cid])
            else (results @ [r], if ur_state r = UPGRADED then upgraded @ [cid] else upgraded)))"

definition squash_target_of ::
    "'w host \<Rightarrow> upgrade_config \<Rightarrow> ('w, squash_target option) prog" where
  "squash_target_of h cfg =
     (if uc_squash_upgrade_commits cfg
      then find_squashable_upgrade_commit h (uc_proof_directory cfg) ''HEAD'' (uc_signs_generated_objects cfg)
      else ret None)"

definition commit_upgrades ::
    "'w host \<Rightarrow> upgrade_config \<Rightarrow> commit_id list \<Rightarrow> ('w, commit_id option \<times> bool) prog" where
  "commit_upgrades h cfg upgraded =
     (if upgraded = [] \<or> \<not> uc_commit cfg then ret (None, False)
      else
        let d = uc_proof_directory cfg; paths = map (\<lambda>sid. path_join d (sid @ ''.ots'')) upgraded in
        bindP (squash_target_of h cfg) (\<lambda>target.
        bindP (stage_paths h paths None) (\<lambda>_.
        case target of
          None \<Rightarrow>
            bindP (create_upgrade_commit h upgraded d paths (uc_signs_generated_objects cfg) None)
              (\<lambda>cid. ret (Some cid, False))
        | Some t \<Rightarrow>
            bindP (amend_upgrade_commit h (st_commit_id t) (st_source_commit_ids t) upgraded d paths
                (uc_signs_generated_objects cfg) None)
              (\<lambda>cid. ret (Some cid, True)))))"

definition upgrade_locked ::
    "'w host \<Rightarrow> 'w ots_cli \<Rightarrow> 'w fetcher \<Rightarrow> upgrade_config \<Rightarrow> bool \<Rightarrow> path \<Rightarrow> string \<Rightarrow>
     ('w, upgrade_report) prog" where
  "upgrade_locked h c fetch cfg dry_run root object_format =
     bindP (if \<not> dry_run \<and> uc_commit cfg then
         bindP (assert_committable_state h root True) (\<lambda>_.
         if uc_require_clean_worktree cfg then
           bindP (is_worktree_clean h) (\<lambda>clean.
           if \<not> clean then raiseP (InvalidRepositoryStateError ''worktree has uncommitted changes'')
           else ret ())
         else ret ())
       else ret ()) (\<lambda>_.
     bindP (askP (\<lambda>w. sort (list_dir (path_join root (uc_proof_directory cfg)) (store_of h w)))) (\<lambda>names.
     bindP (foldP (scan_one h cfg root object_format) names
         \<lparr>sc_results = [], sc_candidates = [], sc_recovered = []\<rparr>) (\<lambda>sc.
     if dry_run then
       bindP (mapP (\<lambda>ca. liftE (preview_one h ca)) (sc_candidates sc)) (\<lambda>previews.
       let results = sc_results sc @ previews in
       bindP (if uc_commit cfg \<and> list_ex (\<lambda>r. ur_state r = WOULD_UPGRADE) results
           then squash_target_of h cfg else ret None) (\<lambda>target.
       ret \<lparr>up_results = ordered results, up_commit_id = None, up_squashed = False,
            up_would_squash_into = map_option st_commit_id target\<rparr>))
     else
       bindP (liftE (check_command (ots_command c))) (\<lambda>_.
       bindP (foldP (upgrade_one h c fetch cfg root object_format (sc_recovered sc)) (sc_candidates sc)
           (sc_results sc, [])) (\<lambda>(results, upgraded).
       bindP (commit_upgrades h cfg upgraded) (\<lambda>(cid, squashed).
       ret \<lparr>up_results = ordered results, up_commit_id = cid, up_squashed = squashed,
            up_would_squash_into = None\<rparr>))))))"

definition upgrade_proofs ::
    "'w host \<Rightarrow> 'w lock_access \<Rightarrow> 'w ots_cli \<Rightarrow> 'w fetcher \<Rightarrow> upgrade_config \<Rightarrow> bool \<Rightarrow> path \<Rightarrow>
     ('w, upgrade_report) prog" where
  "upgrade_proofs h L c fetch cfg dry_run cwd =
     bindP (locate_repository h cwd) (\<lambda>layout.
     bindP (liftE (assert_worktree_present layout)) (\<lambda>_.
     bindP (detect_object_format h) (\<lambda>fmt.
     let root = worktree_root layout in
     bindP (askP (\<lambda>w. is_dir (path_join root (uc_proof_directory cfg)) (store_of h w))) (\<lambda>there.
     if \<not> there then ret \<lparr>up_results = [], up_commit_id = None, up_squashed = False, up_would_squash_into = None\<rparr>
     else with_lock L (common_git_dir layout)
       (upgrade_locked h c fetch cfg dry_run root (object_format_value fmt))))))"

end
