(* ===== verification/Config.thy ===== *)
theory Config
  imports DetachedProof PyTime
begin

text \<open>
  \<open>config.py\<close>: the effective configuration as records, and the parsers of its values. A duration and
  a time of day are microseconds. The zoneinfo database is a parameter of \<open>parse_timezone\<close>. Decimal
  digits are those of ASCII.
\<close>

section \<open>Time zones\<close>

text \<open>
  A \<open>ZoneInfo\<close>: \<open>to_wall\<close> is the wall clock (microseconds of the naive local time) at an instant,
  \<open>of_wall\<close> the instant of a naive local time with \<open>fold=0\<close>, the earlier one of an ambiguous time.
\<close>

record zone =
  to_wall :: "instant \<Rightarrow> int"
  of_wall :: "int \<Rightarrow> instant"

section \<open>The configuration\<close>

record policy_config =
  pc_every_commit :: bool
  pc_max_age :: "int option"
  pc_fixed_time :: "int option"
  pc_timezone :: "zone option"
  pc_initial_history :: string

record git_config =
  gc_source_ref :: string
  gc_fetch_before_run :: bool
  gc_tag_prefix :: string
  gc_require_clean_worktree :: bool
  gc_signing :: string

definition signs_generated_objects :: "git_config \<Rightarrow> bool" where
  "signs_generated_objects g \<longleftrightarrow> gc_signing g = ''required''"

record proof_config =
  pr_directory :: string
  pr_commit :: bool
  pr_squash_upgrade_commits :: bool

record limits_config =
  lc_ots_timeout :: "int option"
  lc_git_timeout :: "int option"

record config =
  cf_policy :: policy_config
  cf_git :: git_config
  cf_proof :: proof_config
  cf_command :: string
  cf_limits :: limits_config

definition hours :: "int \<Rightarrow> int" where
  "hours n = n * 3600 * microseconds"

definition default_max_age :: int where
  "default_max_age = hours 24"

definition default_policy :: policy_config where
  "default_policy = \<lparr>pc_every_commit = False, pc_max_age = Some default_max_age, pc_fixed_time = None,
     pc_timezone = None, pc_initial_history = ''latest''\<rparr>"

definition default_git :: git_config where
  "default_git = \<lparr>gc_source_ref = ''HEAD'', gc_fetch_before_run = True, gc_tag_prefix = ''ots/'',
     gc_require_clean_worktree = False, gc_signing = ''inherit''\<rparr>"

definition proof_directory_default :: string where
  "proof_directory_default = ''.opentimestamps''"

definition default_proof :: proof_config where
  "default_proof = \<lparr>pr_directory = proof_directory_default, pr_commit = True,
     pr_squash_upgrade_commits = False\<rparr>"

definition default_limits :: limits_config where
  "default_limits = \<lparr>lc_ots_timeout = Some (120 * microseconds), lc_git_timeout = Some (60 * microseconds)\<rparr>"

definition default_config :: config where
  "default_config = \<lparr>cf_policy = default_policy, cf_git = default_git, cf_proof = default_proof,
     cf_command = ''ots'', cf_limits = default_limits\<rparr>"

section \<open>Durations and times of day\<close>

fun is_ConfigError :: "exc \<Rightarrow> bool" where
  "is_ConfigError (ConfigError _) = True"
| "is_ConfigError _ = False"

text \<open>
  \<open>$\<close> of a pattern matches at the end and before a newline at the end: what \<open>re.match\<close> with such a
  pattern accepts may have one.
\<close>

definition without_end_newline :: "string \<Rightarrow> string" where
  "without_end_newline s = (if s \<noteq> [] \<and> last s = newline then butlast s else s)"

definition unit_length :: "char \<Rightarrow> int option" where
  "unit_length c =
     (if c = CHR ''s'' then Some microseconds
      else if c = CHR ''m'' then Some (60 * microseconds)
      else if c = CHR ''h'' then Some (hours 1)
      else if c = CHR ''d'' then Some (hours 24)
      else None)"

definition digits_nat :: "string \<Rightarrow> nat" where
  "digits_nat s = foldl (\<lambda>v c. 10 * v + digit_val c) 0 s"

text \<open>\<open>int(value)\<close> refuses more than 4300 digits; a \<open>timedelta\<close> has at most 999999999 days.\<close>

definition max_int_digits :: nat where
  "max_int_digits = 4300"

definition max_days :: int where
  "max_days = 999999999"

definition parse_duration :: "string \<Rightarrow> int result" where
  "parse_duration text =
     (let t = without_end_newline text;
          digits = takeWhile is_digit t;
          unit = (case dropWhile is_digit t of [c] \<Rightarrow> unit_length c | _ \<Rightarrow> None)
      in
      case unit of
        None \<Rightarrow> Inl (ConfigError ''unsupported duration'')
      | Some u \<Rightarrow>
          if digits = [] then Inl (ConfigError ''unsupported duration'')
          else if max_int_digits < length digits then Inl (ValueError ''too many digits'')
          else if digits_nat digits = 0 then Inl (ConfigError ''duration must be positive'')
          else if max_days < int (digits_nat digits) * u div hours 24
          then Inl (ConfigError ''duration out of range'')
          else Inr (int (digits_nat digits) * u))"

definition parse_fixed_time :: "string \<Rightarrow> int result" where
  "parse_fixed_time text =
     (case without_end_newline text of
        [a, b, c, d, e] \<Rightarrow>
          if list_all is_digit [a, b, d, e] \<and> c = CHR '':'' then
            let hour = digits_nat [a, b]; minute = digits_nat [d, e] in
            if 23 < hour then Inl (ConfigError ''fixed time hour out of range'')
            else if 59 < minute then Inl (ConfigError ''fixed time minute out of range'')
            else Inr (hours (int hour) + int minute * 60 * microseconds)
          else Inl (ConfigError ''invalid fixed time'')
      | _ \<Rightarrow> Inl (ConfigError ''invalid fixed time''))"

section \<open>Time zones by name\<close>

definition is_letter :: "char \<Rightarrow> bool" where
  "is_letter c \<longleftrightarrow> (let n = of_char c :: nat in 65 \<le> n \<and> n \<le> 90 \<or> 97 \<le> n \<and> n \<le> 122)"

definition is_alnum :: "char \<Rightarrow> bool" where
  "is_alnum c \<longleftrightarrow> is_letter c \<or> is_digit c"

definition is_zone_char :: "char \<Rightarrow> bool" where
  "is_zone_char c \<longleftrightarrow> is_alnum c \<or> c \<in> set ''._+-''"

definition is_zone_name :: "string \<Rightarrow> bool" where
  "is_zone_name text \<longleftrightarrow> text = ''UTC'' \<or>
     (case split_char (CHR ''/'') text of
        area # loc # others \<Rightarrow>
          area \<noteq> [] \<and> is_letter (hd area) \<and> list_all is_zone_char area \<and>
          list_all (\<lambda>s. s \<noteq> [] \<and> list_all is_zone_char s) (loc # others)
      | _ \<Rightarrow> False)"

definition parse_timezone :: "(string \<Rightarrow> zone option) \<Rightarrow> string \<Rightarrow> zone result" where
  "parse_timezone zoneinfo text =
     (if \<not> is_zone_name text then Inl (ConfigError ''timezone must be UTC or Area/Location'')
      else case zoneinfo text of
        None \<Rightarrow> Inl (ConfigError ''unknown IANA timezone identifier'')
      | Some z \<Rightarrow> Inr z)"

section \<open>Enumerations\<close>

definition parse_initial_history :: "string \<Rightarrow> string result" where
  "parse_initial_history text =
     (if text \<in> {''latest'', ''all''} then Inr text else Inl (ConfigError ''invalid initial_history''))"

definition signing_modes :: "string list" where
  "signing_modes = [''inherit'', ''required'']"

definition parse_signing :: "string \<Rightarrow> string result" where
  "parse_signing text =
     (if text = ''off'' then Inl (ConfigError ''invalid signing: off is not implemented'')
      else if text \<notin> set signing_modes then Inl (ConfigError ''invalid signing'')
      else Inr text)"

section \<open>The proof directory and the tag prefix\<close>

definition is_directory_char :: "char \<Rightarrow> bool" where
  "is_directory_char c \<longleftrightarrow> is_alnum c \<or> c \<in> set ''._-''"

definition directory_segment_ok :: "string \<Rightarrow> bool" where
  "directory_segment_ok segment \<longleftrightarrow>
     (let s = without_end_newline segment in s \<noteq> [] \<and> list_all is_directory_char s)"

fun check_directory_segments :: "string list \<Rightarrow> unit result" where
  "check_directory_segments [] = Inr ()"
| "check_directory_segments (segment # rest) =
     (if segment \<in> {[], ''.'', ''..''} then Inl (ConfigError ''proof directory must not contain this segment'')
      else if str_startswith segment ''~'' then Inl (ConfigError ''proof directory must not use ~'')
      else if \<not> directory_segment_ok segment
      then Inl (ConfigError ''proof directory segment has disallowed characters'')
      else check_directory_segments rest)"

definition validate_configured_directory :: "string \<Rightarrow> string result" where
  "validate_configured_directory text =
     guardE (text \<noteq> []) (ConfigError ''proof directory must not be empty'') (
     guardE (CHR 0x5C \<notin> set text) (ConfigError ''proof directory must use / separators'') (
     guardE (\<not> str_startswith text ''/'') (ConfigError ''proof directory must be repository-relative'') (
     guardE (\<not> str_endswith text ''/'') (ConfigError ''proof directory must not end with /'') (
     bindE (check_directory_segments (split_char (CHR ''/'') text)) (\<lambda>_. Inr text)))))"

definition prefix_forbidden :: "char \<Rightarrow> bool" where
  "prefix_forbidden c \<longleftrightarrow> c \<in> set '' ~^:?*['' \<or> c = CHR 0x5C \<or>
     (of_char c :: nat) < 0x20 \<or> (of_char c :: nat) = 0x7F"

definition prefix_segment_ok :: "string \<Rightarrow> bool" where
  "prefix_segment_ok segment \<longleftrightarrow>
     (let s = without_end_newline segment in s \<noteq> [] \<and> is_alnum (hd s) \<and> list_all is_directory_char (tl s))"

fun check_prefix_segments :: "string list \<Rightarrow> unit result" where
  "check_prefix_segments [] = Inr ()"
| "check_prefix_segments (segment # rest) =
     (if segment = [] then Inl (ConfigError ''tag prefix must not contain empty segments'')
      else if str_contains segment ''..'' then Inl (ConfigError ''tag prefix segment must not contain ..'')
      else if str_contains segment [CHR ''@'', CHR 0x7B]
      then Inl (ConfigError ''tag prefix segment must not contain an at sign before a brace'')
      else if str_endswith segment ''.lock'' then Inl (ConfigError ''tag prefix segment must not end with .lock'')
      else if list_ex prefix_forbidden segment
      then Inl (ConfigError ''tag prefix segment contains a forbidden character'')
      else if \<not> prefix_segment_ok segment then Inl (ConfigError ''tag prefix segment has disallowed form'')
      else check_prefix_segments rest)"

definition validate_tag_prefix :: "string \<Rightarrow> string result" where
  "validate_tag_prefix text =
     guardE (text \<noteq> []) (ConfigError ''tag prefix must not be empty'') (
     guardE (str_endswith text ''/'') (ConfigError ''tag prefix must end with /'') (
     guardE (\<not> str_startswith text ''/'') (ConfigError ''tag prefix must not start with /'') (
     bindE (check_prefix_segments (split_char (CHR ''/'') (butlast text))) (\<lambda>_. Inr text))))"

end
