(* ===== verification/Verify.thy ===== *)
theory Verify
  imports Upgrade Config
begin

text \<open>
  \<open>verify.py\<close>: the offline validation of the stored proofs, and their verification by the client on
  top of it. Neither writes anything.
\<close>

section \<open>Results\<close>

datatype proof_state = VALID | PENDING_ATTESTATION | ORPHANED | INVALID | UNKNOWN_SOURCE

record proof_result =
  vr_proof_path :: path
  vr_source_commit_id :: commit_id
  vr_state :: proof_state
  vr_reason :: string
  vr_has_bitcoin_attestation :: bool
  vr_has_timestamp_tag :: bool
  vr_object_format :: string

datatype chain_state = VERIFIED | CHAIN_PENDING_ATTESTATION | VERIFICATION_FAILED | NOT_CHECKED

record verification_result =
  vf_proof_path :: path
  vf_source_commit_id :: commit_id
  vf_validation_state :: proof_state
  vf_state :: chain_state
  vf_reason :: string

section \<open>The source commit\<close>

definition git_succeeds :: "'w host \<Rightarrow> string list \<Rightarrow> ('w, bool) prog" where
  "git_succeeds h args =
     catchP (bindP (runner_run h args None) (\<lambda>_. ret True)) is_GitCommandError (\<lambda>_. ret False)"

definition source_commit_status :: "'w host \<Rightarrow> commit_id \<Rightarrow> commit_id \<Rightarrow> ('w, proof_state) prog" where
  "source_commit_status h source frozen =
     bindP (git_succeeds h [''rev-parse'', ''--verify'', source @ ''^{commit}'']) (\<lambda>resolves.
     if \<not> resolves then ret UNKNOWN_SOURCE
     else
       bindP (git_succeeds h [''merge-base'', ''--is-ancestor'', source, frozen]) (\<lambda>ancestor.
       ret (if ancestor then VALID else ORPHANED)))"

section \<open>Validating one proof\<close>

text \<open>A directory relative to the root, which may be the root itself, \<open>Path(".")\<close>.\<close>

definition dir_under :: "path \<Rightarrow> path \<Rightarrow> path" where
  "dir_under root d = (if d = ''.'' then root else path_join root d)"

definition rel_path :: "path \<Rightarrow> string \<Rightarrow> path" where
  "rel_path d name = (if d = ''.'' then name else path_join d name)"

definition invalid_proof :: "path \<Rightarrow> commit_id \<Rightarrow> string \<Rightarrow> proof_result" where
  "invalid_proof rel source reason =
     \<lparr>vr_proof_path = rel, vr_source_commit_id = source, vr_state = INVALID, vr_reason = reason,
      vr_has_bitcoin_attestation = False, vr_has_timestamp_tag = True, vr_object_format = []\<rparr>"

definition status_reason :: "proof_state \<Rightarrow> bool \<Rightarrow> string" where
  "status_reason state bitcoin =
     (case state of
        ORPHANED \<Rightarrow> ''attested commit is not an ancestor of the source ref''
      | UNKNOWN_SOURCE \<Rightarrow> ''attested commit does not resolve in this repository''
      | _ \<Rightarrow> if bitcoin then ''Bitcoin block header attestation present but not chain-verified''
             else ''proof contains only non-Bitcoin attestations'')"

definition final_state :: "proof_state \<Rightarrow> bool \<Rightarrow> proof_state" where
  "final_state ancestry bitcoin =
     (if ancestry \<in> {ORPHANED, UNKNOWN_SOURCE} then ancestry
      else if bitcoin then VALID else PENDING_ATTESTATION)"

text \<open>The checks against the commit the manifest names.\<close>

definition validate_against_source ::
    "'w host \<Rightarrow> path \<Rightarrow> path \<Rightarrow> commit_id \<Rightarrow> string \<Rightarrow> commit_id \<Rightarrow> commit_id list \<Rightarrow>
     ('w, proof_result) prog" where
  "validate_against_source h root rel source fmt frozen tagged =
     (case build_payload fmt source of
        Inl _ \<Rightarrow> ret (invalid_proof rel source ''cannot build canonical payload'')
      | Inr payload \<Rightarrow>
          bindP (catchP
              (bindP (read_file h (path_join root rel)) (\<lambda>data.
               bindP (liftE (validate_detached_proof (digest h) data (Some payload))) (\<lambda>_.
               bindP (liftE (classify_detached_proof data)) (\<lambda>s. ret (Some s)))))
              (\<lambda>e. is_OSError e \<or> is_ValueError e) (\<lambda>_. ret None)) (\<lambda>r.
          case r of
            None \<Rightarrow> ret (invalid_proof rel source ''proof does not bind to source commit'')
          | Some attestation \<Rightarrow>
              bindP (source_commit_status h source frozen) (\<lambda>ancestry.
              let bitcoin = (attestation = ''valid'') in
              ret \<lparr>vr_proof_path = rel, vr_source_commit_id = source,
                vr_state = final_state ancestry bitcoin,
                vr_reason = status_reason ancestry bitcoin,
                vr_has_bitcoin_attestation = bitcoin,
                vr_has_timestamp_tag = (source \<in> set tagged), vr_object_format = fmt\<rparr>)))"

text \<open>What the manifest says: the reason it is refused, or the commit and the object format.\<close>

definition manifest_claim :: "json option \<Rightarrow> commit_id \<times> string + commit_id \<times> string" where
  "manifest_claim manifest =
     (case manifest of
        None \<Rightarrow> Inl ([], ''manifest unreadable or malformed'')
      | Some (JObj m) \<Rightarrow>
          (case json_get_str m ''source_commit'' of
             None \<Rightarrow> Inl ([], ''manifest missing source_commit'')
           | Some source \<Rightarrow>
               (case json_get_str m ''git_object_format'' of
                  None \<Rightarrow> Inl (source, ''manifest missing git_object_format'')
                | Some fmt \<Rightarrow> Inr (source, fmt)))
      | Some _ \<Rightarrow> Inl ([], ''manifest is not a JSON object''))"

definition validate_single_proof ::
    "'w host \<Rightarrow> path \<Rightarrow> path \<Rightarrow> string \<Rightarrow> commit_id \<Rightarrow> commit_id list \<Rightarrow> ('w, proof_result) prog" where
  "validate_single_proof h root d name frozen tagged =
     (let manifest_path = path_join (dir_under root d) (stem name @ ''.json''); rel = rel_path d name
      in bindP (askP (\<lambda>w. is_file manifest_path (store_of h w))) (\<lambda>there.
      if \<not> there then ret (invalid_proof rel [] (''manifest missing: '' @ stem name @ ''.json''))
      else
      bindP (read_json h manifest_path) (\<lambda>manifest.
      case manifest_claim manifest of
        Inl (source, reason) \<Rightarrow> ret (invalid_proof rel source reason)
      | Inr (source, fmt) \<Rightarrow> validate_against_source h root rel source fmt frozen tagged)))"

section \<open>Validating all proofs\<close>

definition parent_path :: "path \<Rightarrow> path" where
  "parent_path p =
     (case butlast (split_char (CHR ''/'') p) of [] \<Rightarrow> ''.'' | parts \<Rightarrow> join_with ''/'' parts)"

text \<open>Paths compare by their parts.\<close>

definition path_parts :: "path \<Rightarrow> string list" where
  "path_parts p = (if p = ''.'' then [] else split_char (CHR ''/'') p)"

definition tracked_directories :: "string \<Rightarrow> path list" where
  "tracked_directories out =
     sort_key path_parts (remdups (map parent_path (filter (\<lambda>p. p \<noteq> []) (split_char nul out))))"

definition discover_directories :: "'w host \<Rightarrow> path \<Rightarrow> ('w, path list) prog" where
  "discover_directories h root =
     (let conventional = path_join root ''.opentimestamps'' in
      bindP (askP (\<lambda>w. is_dir conventional (store_of h w) \<and>
          list_ex (\<lambda>n. str_endswith n ''.ots'') (list_dir conventional (store_of h w)))) (\<lambda>there.
      if there then ret [''.opentimestamps'']
      else bindP (git_out h [''ls-files'', ''-z'', ''--'', ''*.ots'']) (\<lambda>out. ret (tracked_directories out))))"

definition validate_directory ::
    "'w host \<Rightarrow> path \<Rightarrow> commit_id \<Rightarrow> commit_id list \<Rightarrow> path \<Rightarrow> ('w, proof_result list) prog" where
  "validate_directory h root frozen tagged d =
     (let proof_dir = dir_under root d in
      bindP (askP (\<lambda>w. is_dir proof_dir (store_of h w))) (\<lambda>there.
      if \<not> there then ret []
      else
        bindP (askP (\<lambda>w. filter (\<lambda>n. is_file (path_join proof_dir n) (store_of h w) \<and> is_proof_name n)
            (sort (list_dir proof_dir (store_of h w))))) (\<lambda>names.
        mapP (\<lambda>n. validate_single_proof h root d n frozen tagged) names)))"

definition validate_proofs ::
    "'w host \<Rightarrow> path \<Rightarrow> git_config \<Rightarrow> path list option \<Rightarrow> ('w, proof_result list) prog" where
  "validate_proofs h cwd cfg directories =
     bindP (locate_repository h cwd) (\<lambda>layout.
     let root = worktree_root layout in
     bindP (resolve_source_ref h (gc_source_ref cfg)) (\<lambda>source.
     bindP (case directories of Some ds \<Rightarrow> ret ds | None \<Rightarrow> discover_directories h root) (\<lambda>ds.
     bindP (enumerate_timestamp_tags h (gc_tag_prefix cfg)) (\<lambda>tags.
     bindP (mapP (validate_directory h root (resolved_commit_id source) (map tag_commit_id tags)) ds)
       (\<lambda>results. ret (concat results))))))"

section \<open>Verifying\<close>

definition chain_result :: "proof_result \<Rightarrow> chain_state \<Rightarrow> string \<Rightarrow> verification_result" where
  "chain_result v state reason =
     \<lparr>vf_proof_path = vr_proof_path v, vf_source_commit_id = vr_source_commit_id v,
      vf_validation_state = vr_state v, vf_state = state, vf_reason = reason\<rparr>"

type_synonym 'w verifier = "bytes \<Rightarrow> bytes \<Rightarrow> ('w, verification_attempt) prog"

definition verify_one ::
    "'w host \<Rightarrow> 'w verifier \<Rightarrow> path \<Rightarrow> proof_result \<Rightarrow> ('w, verification_result) prog" where
  "verify_one h client root v =
     (if vr_state v = INVALID then ret (chain_result v NOT_CHECKED (vr_reason v))
      else if \<not> vr_has_bitcoin_attestation v
      then ret (chain_result v CHAIN_PENDING_ATTESTATION ''proof has no Bitcoin attestation to verify'')
      else
        bindP (catchP
            (bindP (read_file h (path_join root (vr_proof_path v))) (\<lambda>data.
             bindP (liftE (build_payload (vr_object_format v) (vr_source_commit_id v))) (\<lambda>payload.
             ret (Some (data, payload)))))
            (\<lambda>e. is_OSError e \<or> is_ValueError e) (\<lambda>_. ret None)) (\<lambda>r.
        case r of
          None \<Rightarrow> ret (chain_result v NOT_CHECKED ''proof changed after validation'')
        | Some (data, payload) \<Rightarrow>
            bindP (client data payload) (\<lambda>attempt.
            ret (chain_result v (if vt_verified attempt then VERIFIED else VERIFICATION_FAILED)
              (if vt_detail attempt \<noteq> [] then vt_detail attempt
               else if vt_verified attempt then ''Bitcoin attestation confirmed by the configured node''
               else ''OpenTimestamps verification failed'')))))"

definition verify_proofs ::
    "'w host \<Rightarrow> 'w verifier \<Rightarrow> path \<Rightarrow> git_config \<Rightarrow> path list option \<Rightarrow> ('w, verification_result list) prog" where
  "verify_proofs h client cwd cfg directories =
     bindP (validate_proofs h cwd cfg directories) (\<lambda>validations.
     if validations = [] then ret []
     else
       bindP (locate_repository h cwd) (\<lambda>layout.
       mapP (verify_one h client (worktree_root layout)) validations))"

end
