(* ===== verification/Repair.thy ===== *)
theory Repair
  imports Verify
begin

text \<open>
  \<open>repair.py\<close>: creating the timestamp tag a stored proof lacks, from the manifest beside it. Proofs
  that are tagged, whose commit is unknown or off the lineage, or whose artifacts do not pass the
  recovery checks are reported and left alone.
\<close>

section \<open>Results\<close>

datatype repair_action = TAGGED | WOULD_TAG | ALREADY_TAGGED | SKIPPED_UNRESOLVED | SKIPPED_OFF_LINEAGE
  | UNREPAIRABLE

record repair_result =
  rr_proof_path :: path
  rr_source_commit_id :: commit_id
  rr_action :: repair_action
  rr_detail :: string
  rr_tag_name :: "string option"

section \<open>One proof\<close>

definition source_is_on_lineage :: "'w host \<Rightarrow> commit_id \<Rightarrow> commit_id \<Rightarrow> ('w, repair_action option) prog" where
  "source_is_on_lineage h source frozen =
     bindP (git_succeeds h [''rev-parse'', ''--verify'', source @ ''^{commit}'']) (\<lambda>resolves.
     if \<not> resolves then ret (Some SKIPPED_UNRESOLVED)
     else
       bindP (git_succeeds h [''merge-base'', ''--is-ancestor'', source, frozen]) (\<lambda>ancestor.
       ret (if ancestor then None else Some SKIPPED_OFF_LINEAGE)))"

definition skip_detail :: "repair_action \<Rightarrow> string" where
  "skip_detail a =
     (if a = SKIPPED_UNRESOLVED then ''attested commit does not resolve in this repository''
      else ''attested commit is not an ancestor of the source ref'')"

text \<open>The recovery checks, their two errors caught.\<close>

definition try_recover :: "'w host \<Rightarrow> path \<Rightarrow> path \<Rightarrow> string \<Rightarrow> commit_id \<Rightarrow> ('w, proof_evidence option) prog" where
  "try_recover h root d object_format cid =
     catchP (bindP (inspect_recovery_artifacts h root d object_format cid) (\<lambda>a. ret (Some (as_evidence a cid))))
       (\<lambda>e. is_PersistenceError e \<or> is_RecoveryValidationError e) (\<lambda>_. ret None)"

definition repair_one ::
    "'w host \<Rightarrow> string \<Rightarrow> git_config \<Rightarrow> path \<Rightarrow> string \<Rightarrow> bool \<Rightarrow> string \<Rightarrow> commit_id \<Rightarrow> commit_id list \<Rightarrow>
     commit_id \<Rightarrow> ('w, repair_result) prog" where
  "repair_one h version cfg root d dry_run object_format frozen tagged source =
     (let result = (\<lambda>action detail name. \<lparr>rr_proof_path = path_join d (source @ ''.ots''),
           rr_source_commit_id = source, rr_action = action, rr_detail = detail, rr_tag_name = name\<rparr>)
      in
      if source \<in> set tagged
      then ret (result ALREADY_TAGGED ''a timestamp tag already names this source'' None)
      else
        bindP (source_is_on_lineage h source frozen) (\<lambda>skip.
        case skip of
          Some a \<Rightarrow> ret (result a (skip_detail a) None)
        | None \<Rightarrow>
            bindP (try_recover h root d object_format source) (\<lambda>r.
            case r of
              None \<Rightarrow> ret (result UNREPAIRABLE ''recovery artifacts are missing or invalid'' None)
            | Some evidence \<Rightarrow>
                if dry_run
                then ret (result WOULD_TAG (''submitted at '' @ rfc3339_z (ev_submitted_at evidence) @
                  '', triggers: '' @ join_with '' '' (ev_triggers evidence)) None)
                else
                  bindP (create_timestamp_tag h source (gc_tag_prefix cfg) (ev_submitted_at evidence)
                      (d @ ''/'' @ ev_proof_name evidence) (ev_triggers evidence) version
                      (signs_generated_objects cfg)) (\<lambda>name.
                  ret (result TAGGED ''tag reconstructed from the stored manifest'' (Some name))))))"

section \<open>All proofs\<close>

definition repair_file ::
    "'w host \<Rightarrow> string \<Rightarrow> git_config \<Rightarrow> path \<Rightarrow> string \<Rightarrow> bool \<Rightarrow> string \<Rightarrow> commit_id \<Rightarrow> commit_id list \<Rightarrow>
     string \<Rightarrow> repair_result list \<Rightarrow> ('w, repair_result list) prog" where
  "repair_file h version cfg root d dry_run object_format frozen tagged name results =
     bindP (askP (\<lambda>w. is_file (path_join (path_join root d) name) (store_of h w))) (\<lambda>there.
       if \<not> there \<or> \<not> is_proof_name name then ret results
       else
         bindP (repair_one h version cfg root d dry_run object_format frozen tagged (stem name)) (\<lambda>r.
         ret (results @ [r])))"

definition repair_locked ::
    "'w host \<Rightarrow> string \<Rightarrow> git_config \<Rightarrow> path \<Rightarrow> string \<Rightarrow> bool \<Rightarrow> string \<Rightarrow> ('w, repair_result list) prog" where
  "repair_locked h version cfg root d dry_run object_format =
     bindP (resolve_source_ref h (gc_source_ref cfg)) (\<lambda>source.
     bindP (enumerate_timestamp_tags h (gc_tag_prefix cfg)) (\<lambda>tags.
     bindP (askP (\<lambda>w. sort (list_dir (path_join root d) (store_of h w)))) (\<lambda>names.
     foldP (repair_file h version cfg root d dry_run object_format (resolved_commit_id source)
         (map tag_commit_id tags)) names [])))"

definition repair_missing_tags ::
    "'w host \<Rightarrow> 'w lock_access \<Rightarrow> string \<Rightarrow> git_config \<Rightarrow> proof_config \<Rightarrow> bool \<Rightarrow> path \<Rightarrow>
     ('w, repair_result list) prog" where
  "repair_missing_tags h L version cfg proof_cfg dry_run cwd =
     bindP (locate_repository h cwd) (\<lambda>layout.
     bindP (liftE (assert_worktree_present layout)) (\<lambda>_.
     bindP (detect_object_format h) (\<lambda>fmt.
     let root = worktree_root layout; d = pr_directory proof_cfg in
     bindP (askP (\<lambda>w. is_dir (path_join root d) (store_of h w))) (\<lambda>there.
     if \<not> there then ret []
     else with_lock L (common_git_dir layout)
       (repair_locked h version cfg root d dry_run (object_format_value fmt))))))"

end
