(* ===== verification/Policy.thy ===== *)
theory Policy
  imports Config GitHistory
begin

text \<open>
  \<open>policy.py\<close>: which pending commits are to be timestamped, and why. Datetimes are aware, so that
  the checks for naive ones have no counterpart; two datetimes of the same zone are compared by
  their wall clocks, as \<open>datetime\<close> does, others by their instants.
\<close>

section \<open>Data\<close>

record pending_commit =
  pd_commit_id :: commit_id
  pd_committer_time :: instant

record policy_state =
  ps_now :: instant
  ps_pending_commits :: "pending_commit list"
  ps_last_fixed_time_occurrence :: "instant option"
  ps_has_baseline :: bool
  ps_has_abandoned_tags :: bool

record decision =
  de_commits :: "pending_commit list"
  de_triggers :: "string list"

definition no_decision :: decision where
  "no_decision = \<lparr>de_commits = [], de_triggers = []\<rparr>"

section \<open>The scheduled occurrence\<close>

definition day :: int where
  "day = hours 24"

text \<open>
  A datetime of a zone: its wall clock and its instant. \<open>local_occurrence\<close> combines a local date,
  given by its midnight, with the time of day; a wall time the zone skips does not survive the
  round trip through UTC.
\<close>

record local_time =
  lt_wall :: int
  lt_instant :: instant

definition as_zone :: "zone \<Rightarrow> instant \<Rightarrow> local_time" where
  "as_zone tz t = \<lparr>lt_wall = to_wall tz t, lt_instant = t\<rparr>"

definition local_occurrence :: "zone \<Rightarrow> int \<Rightarrow> int \<Rightarrow> local_time" where
  "local_occurrence tz midnight wall_time =
     (let candidate = \<lparr>lt_wall = midnight + wall_time, lt_instant = of_wall tz (midnight + wall_time)\<rparr>;
          round_tripped = as_zone tz (lt_instant candidate)
      in if lt_wall round_tripped \<noteq> lt_wall candidate then round_tripped else candidate)"

definition local_midnight :: "int \<Rightarrow> int" where
  "local_midnight wall = wall - wall mod day"

definition most_recent_fixed_time_occurrence :: "instant \<Rightarrow> int \<Rightarrow> zone \<Rightarrow> instant" where
  "most_recent_fixed_time_occurrence now wall_time tz =
     (let local_now = as_zone tz now;
          today = local_midnight (lt_wall local_now);
          candidate = local_occurrence tz today wall_time
      in lt_instant (if lt_wall candidate > lt_wall local_now
           then local_occurrence tz (today - day) wall_time else candidate))"

section \<open>The decision\<close>

text \<open>\<open>max(range(len(pending)), key=lambda i: (time, i))\<close> and \<open>min(pending)\<close>, the first of the oldest.\<close>

definition latest_pending :: "pending_commit list \<Rightarrow> pending_commit" where
  "latest_pending pending = foldl (\<lambda>m p. if pd_committer_time m \<le> pd_committer_time p then p else m)
     (hd pending) (tl pending)"

definition oldest_pending :: "pending_commit list \<Rightarrow> pending_commit" where
  "oldest_pending pending = foldl (\<lambda>m p. if pd_committer_time p < pd_committer_time m then p else m)
     (hd pending) (tl pending)"

definition max_age_due :: "policy_state \<Rightarrow> policy_config \<Rightarrow> bool" where
  "max_age_due state cfg =
     (case pc_max_age cfg of None \<Rightarrow> False
      | Some age \<Rightarrow> pd_committer_time (oldest_pending (ps_pending_commits state)) + age \<le> ps_now state)"

text \<open>
  A configuration that was assembled has a zone with every fixed time. One that has none stands
  outside the model, which answers it with an error; the source would fall back on the zone of the
  machine.
\<close>

definition fixed_time_due :: "policy_state \<Rightarrow> policy_config \<Rightarrow> bool result" where
  "fixed_time_due state cfg =
     (case pc_fixed_time cfg of None \<Rightarrow> Inr False
      | Some wall_time \<Rightarrow>
          (case pc_timezone cfg of None \<Rightarrow> Inl (TypeError ''no time zone'')
           | Some tz \<Rightarrow>
               let occurrence = most_recent_fixed_time_occurrence (ps_now state) wall_time tz in
               Inr (case ps_last_fixed_time_occurrence state of None \<Rightarrow> True | Some latest \<Rightarrow> latest < occurrence)))"

definition evaluate_policy :: "policy_state \<Rightarrow> policy_config \<Rightarrow> decision result" where
  "evaluate_policy state cfg =
     (let pending = ps_pending_commits state in
      if pc_every_commit cfg \<and> ps_has_abandoned_tags state
      then Inl (InvalidRepositoryStateError ''refusing to replay rewritten history'')
      else if pending = [] then Inr no_decision
      else if pc_every_commit cfg then
        if \<not> ps_has_baseline state \<and> pc_initial_history cfg = ''latest''
        then Inr \<lparr>de_commits = [latest_pending pending], de_triggers = [''every_commit'']\<rparr>
        else Inr \<lparr>de_commits = pending, de_triggers = [''every_commit'']\<rparr>
      else
        bindE (fixed_time_due state cfg) (\<lambda>fixed.
          let triggers = (if max_age_due state cfg then [''max_age''] else []) @
                (if fixed then [''fixed_time''] else [])
          in if triggers = [] then Inr no_decision
             else Inr \<lparr>de_commits = [latest_pending pending], de_triggers = triggers\<rparr>))"

section \<open>The commits chosen\<close>

text \<open>
  The choice among the pending commits: nothing is newer, and nothing after it is as new.
\<close>

definition newest_last :: "pending_commit list \<Rightarrow> pending_commit \<Rightarrow> bool" where
  "newest_last ps r \<longleftrightarrow> (\<exists>pre post. ps = pre @ r # post \<and>
     (\<forall>p \<in> set pre. pd_committer_time p \<le> pd_committer_time r) \<and>
     (\<forall>p \<in> set post. pd_committer_time p < pd_committer_time r))"

lemma foldl_latest:
  "newest_last (m # xs) (foldl (\<lambda>m p. if pd_committer_time m \<le> pd_committer_time p then p else m) m xs)"
proof (induction xs arbitrary: m)
  case Nil
  show ?case unfolding newest_last_def by (rule exI [of _ "[]"], rule exI [of _ "[]"]) simp
next
  case (Cons x xs)
  let ?f = "\<lambda>m p. if pd_committer_time m \<le> pd_committer_time p then p else m"
  show ?case
  proof (cases "pd_committer_time m \<le> pd_committer_time x")
    case True
    obtain r where r: "r = foldl ?f x xs" by simp
    from Cons [of x, folded r] obtain pre post where "x # xs = pre @ r # post"
      "\<forall>p \<in> set pre. pd_committer_time p \<le> pd_committer_time r"
      "\<forall>p \<in> set post. pd_committer_time p < pd_committer_time r"
      unfolding newest_last_def by blast
    moreover from this have "pd_committer_time x \<le> pd_committer_time r" by (cases pre) auto
    ultimately have "newest_last (m # x # xs) r"
      using True unfolding newest_last_def by (intro exI [of _ "m # pre"] exI [of _ post]) auto
    with r True show ?thesis by simp
  next
    case False
    obtain r where r: "r = foldl ?f m xs" by simp
    from Cons [of m, folded r] obtain pre post where e: "m # xs = pre @ r # post"
      "\<forall>p \<in> set pre. pd_committer_time p \<le> pd_committer_time r"
      "\<forall>p \<in> set post. pd_committer_time p < pd_committer_time r"
      unfolding newest_last_def by blast
    have "newest_last (m # x # xs) r"
    proof (cases pre)
      case Nil
      with e False show ?thesis
        unfolding newest_last_def by (intro exI [of _ "[]"] exI [of _ "x # post"]) auto
    next
      case (Cons y pre')
      with e False show ?thesis
        unfolding newest_last_def by (intro exI [of _ "m # x # pre'"] exI [of _ post]) auto
    qed
    with r False show ?thesis by simp
  qed
qed

lemma latest_pending_newest: "ps \<noteq> [] \<Longrightarrow> newest_last ps (latest_pending ps)"
  using foldl_latest [of "hd ps" "tl ps"] by (simp add: latest_pending_def)

lemma newest_last_in: "newest_last ps r \<Longrightarrow> r \<in> set ps"
  by (auto simp: newest_last_def)

lemma oldest_pending_minimal:
  assumes "ps \<noteq> []"
  shows "oldest_pending ps \<in> set ps \<and> (\<forall>p \<in> set ps. pd_committer_time (oldest_pending ps) \<le> pd_committer_time p)"
proof -
  let ?f = "\<lambda>m p. if pd_committer_time p < pd_committer_time m then p else m"
  have "foldl ?f m xs \<in> set (m # xs) \<and>
      (\<forall>p \<in> set (m # xs). pd_committer_time (foldl ?f m xs) \<le> pd_committer_time p)" for m xs
  proof (induction xs arbitrary: m)
    case (Cons x xs)
    show ?case
    proof (cases "pd_committer_time x < pd_committer_time m")
      case True
      with Cons [of x] show ?thesis by auto
    next
      case False
      with Cons [of m] show ?thesis by auto
    qed
  qed simp
  from this [of "hd ps" "tl ps"] assms show ?thesis by (simp add: oldest_pending_def)
qed

text \<open>The decision of the age and the fixed-time triggers.\<close>

definition triggered :: "pending_commit list \<Rightarrow> bool \<Rightarrow> bool \<Rightarrow> decision" where
  "triggered pending age fixed =
     (if \<not> age \<and> \<not> fixed then no_decision
      else \<lparr>de_commits = [latest_pending pending], de_triggers =
        (if age then [''max_age''] else []) @ (if fixed then [''fixed_time''] else [])\<rparr>)"

lemma evaluate_policy_triggered:
  assumes "\<not> pc_every_commit cfg" "ps_pending_commits state \<noteq> []"
  shows "evaluate_policy state cfg = bindE (fixed_time_due state cfg)
    (\<lambda>fixed. Inr (triggered (ps_pending_commits state) (max_age_due state cfg) fixed))"
  using assms by (cases "fixed_time_due state cfg") (simp_all add: evaluate_policy_def triggered_def Let_def)

text \<open>
  C17: the policy decision, exactly. A decision is refused with \<open>every_commit\<close> over abandoned tags.
  Without pending commits it is empty. With \<open>every_commit\<close> it names that trigger and all pending
  commits, in their order, unless nothing is timestamped yet and the initial history is \<open>latest\<close>, where it names
  the newest only. Otherwise the age trigger fires exactly when some pending commit has reached
  the age, the time trigger exactly when the latest scheduled occurrence is later than the last one
  served; the decision names the triggers that fire and, when one does, the newest pending commit. The
  newest is the last in history among equally new ones.
\<close>

theorem decision_chooses:
  assumes "evaluate_policy state cfg = Inr d"
  shows "\<not> (pc_every_commit cfg \<and> ps_has_abandoned_tags state) \<and>
    (let pending = ps_pending_commits state;
         newest_only = (\<exists>p. de_commits d = [p] \<and> newest_last pending p);
         aged = (\<exists>p \<in> set pending. \<exists>age. pc_max_age cfg = Some age \<and> pd_committer_time p + age \<le> ps_now state);
         scheduled = (\<exists>t tz. pc_fixed_time cfg = Some t \<and> pc_timezone cfg = Some tz \<and>
           (\<forall>served. ps_last_fixed_time_occurrence state = Some served \<longrightarrow>
              served < most_recent_fixed_time_occurrence (ps_now state) t tz))
     in if pending = [] then de_commits d = [] \<and> de_triggers d = []
        else if pc_every_commit cfg then de_triggers d = [''every_commit''] \<and>
          (if \<not> ps_has_baseline state \<and> pc_initial_history cfg = ''latest'' then newest_only
           else de_commits d = pending)
        else de_triggers d = (if aged then [''max_age''] else []) @ (if scheduled then [''fixed_time''] else []) \<and>
          (if de_triggers d = [] then de_commits d = [] else newest_only))"
proof (cases "ps_pending_commits state = [] \<or> pc_every_commit cfg")
  case True
  then show ?thesis
    using assms latest_pending_newest [of "ps_pending_commits state"]
    by (auto simp: evaluate_policy_def no_decision_def Let_def split: if_splits)
next
  case False
  then obtain fixed where f: "fixed_time_due state cfg = Inr fixed"
    and d: "d = triggered (ps_pending_commits state) (max_age_due state cfg) fixed"
    using assms by (auto simp: evaluate_policy_triggered bindE_Inr_iff)
  have "fixed \<longleftrightarrow> (\<exists>t tz. pc_fixed_time cfg = Some t \<and> pc_timezone cfg = Some tz \<and>
      (\<forall>served. ps_last_fixed_time_occurrence state = Some served \<longrightarrow>
         served < most_recent_fixed_time_occurrence (ps_now state) t tz))"
    using f by (auto simp: fixed_time_due_def Let_def split: option.splits)
  moreover have "max_age_due state cfg \<longleftrightarrow> (\<exists>p \<in> set (ps_pending_commits state). \<exists>age.
      pc_max_age cfg = Some age \<and> pd_committer_time p + age \<le> ps_now state)"
    using oldest_pending_minimal [of "ps_pending_commits state"] False
    by (fastforce simp: max_age_due_def split: option.splits)
  moreover have "newest_last (ps_pending_commits state) (latest_pending (ps_pending_commits state))"
    using latest_pending_newest False by blast
  ultimately show ?thesis
    using False by (auto simp: d triggered_def no_decision_def Let_def)
qed

definition example_state :: policy_state where
  "example_state = \<lparr>ps_now = hours 30, ps_pending_commits = [\<lparr>pd_commit_id = ''a'', pd_committer_time = 0\<rparr>,
     \<lparr>pd_commit_id = ''b'', pd_committer_time = 0\<rparr>], ps_last_fixed_time_occurrence = None,
     ps_has_baseline = False, ps_has_abandoned_tags = False\<rparr>"

lemma example_decision:
  "evaluate_policy example_state default_policy =
     Inr \<lparr>de_commits = [\<lparr>pd_commit_id = ''b'', pd_committer_time = 0\<rparr>], de_triggers = [''max_age'']\<rparr>"
  by (simp add: evaluate_policy_def example_state_def default_policy_def latest_pending_def max_age_due_def
      oldest_pending_def fixed_time_due_def default_max_age_def hours_def microseconds_def)

lemma decision_chooses_witness:
  "newest_last (ps_pending_commits example_state) \<lparr>pd_commit_id = ''b'', pd_committer_time = 0\<rparr>"
  using decision_chooses [OF example_decision]
  by (auto simp: example_state_def default_policy_def Let_def)

section \<open>Fixed times\<close>

text \<open>A zone whose wall clock neither skips nor repeats a time.\<close>

definition steady :: "zone \<Rightarrow> bool" where
  "steady tz \<longleftrightarrow> (\<forall>x. to_wall tz (of_wall tz x) = x) \<and> (\<forall>t. of_wall tz (to_wall tz t) = t) \<and>
     (\<forall>t u. t \<le> u \<longrightarrow> to_wall tz t \<le> to_wall tz u)"

definition scheduled :: "zone \<Rightarrow> int \<Rightarrow> instant \<Rightarrow> bool" where
  "scheduled tz wall_time t \<longleftrightarrow> to_wall tz t mod day = wall_time"

lemma day_pos: "0 < day"
  by (simp add: day_def hours_def microseconds_def)

lemma steady_le: "steady tz \<Longrightarrow> of_wall tz x \<le> t \<longleftrightarrow> x \<le> to_wall tz t"
  unfolding steady_def by (metis linorder_le_cases order_antisym)

lemma latest_multiple:
  fixes n w :: int
  assumes "0 \<le> w" "w < day"
  defines "r \<equiv> (if n - n mod day + w > n then n - n mod day - day + w else n - n mod day + w)"
  shows "r mod day = w" "r \<le> n" "m \<le> n \<Longrightarrow> m mod day = w \<Longrightarrow> m \<le> r"
proof -
  have q: "n - n mod day = day * (n div day)"
    by (simp add: minus_mod_eq_mult_div)
  have "r = day * (if day * (n div day) + w > n then n div day - 1 else n div day) + w"
    unfolding r_def q by (simp add: algebra_simps)
  then show "r mod day = w" using assms(1,2) by simp
  show "r \<le> n"
  proof (cases "n - n mod day + w > n")
    case True
    then show ?thesis
      using assms(1,2) pos_mod_sign [OF day_pos, of n] unfolding r_def if_P [OF True] by linarith
  qed (simp add: r_def)
  assume m: "m \<le> n" "m mod day = w"
  have e: "m = day * (m div day) + w" using m(2) by (metis mult_div_mod_eq)
  show "m \<le> r"
  proof (cases "day * (n div day) + w > n")
    case True
    have "m div day < n div day"
    proof (rule ccontr)
      assume "\<not> m div day < n div day"
      then have "day * (n div day) \<le> day * (m div day)" using day_pos by simp
      with e True m(1) show False by linarith
    qed
    then have "day * (m div day) \<le> day * (n div day - 1)"
      using day_pos by (intro mult_left_mono) simp_all
    with e True show ?thesis unfolding r_def q by (simp add: algebra_simps)
  next
    case False
    have "m div day \<le> n div day" using m(1) day_pos by (rule zdiv_mono1)
    then have "day * (m div day) \<le> day * (n div day)" using day_pos by simp
    with e False show ?thesis unfolding r_def q by simp
  qed
qed

lemma occurrence_latest:
  assumes tz: "steady tz" and w: "0 \<le> wall_time" "wall_time < day"
  shows "scheduled tz wall_time (most_recent_fixed_time_occurrence now wall_time tz)"
    "most_recent_fixed_time_occurrence now wall_time tz \<le> now"
    "u \<le> now \<Longrightarrow> scheduled tz wall_time u \<Longrightarrow> u \<le> most_recent_fixed_time_occurrence now wall_time tz"
proof -
  let ?n = "to_wall tz now"
  let ?r = "if ?n - ?n mod day + wall_time > ?n then ?n - ?n mod day - day + wall_time
    else ?n - ?n mod day + wall_time"
  have rt: "to_wall tz (of_wall tz x) = x" for x using tz by (simp add: steady_def)
  have o: "most_recent_fixed_time_occurrence now wall_time tz = of_wall tz ?r"
    by (simp add: most_recent_fixed_time_occurrence_def local_occurrence_def as_zone_def local_midnight_def rt Let_def)
  note l = latest_multiple [OF w, where n = ?n]
  show "scheduled tz wall_time (most_recent_fixed_time_occurrence now wall_time tz)"
    unfolding scheduled_def o rt by (rule l(1))
  show "most_recent_fixed_time_occurrence now wall_time tz \<le> now"
    unfolding o steady_le [OF tz] by (rule l(2))
  assume u: "u \<le> now" "scheduled tz wall_time u"
  then have "to_wall tz u \<le> ?r"
    using l(3) [of "to_wall tz u"] tz unfolding scheduled_def steady_def by blast
  then show "u \<le> most_recent_fixed_time_occurrence now wall_time tz"
    unfolding o using steady_le [OF tz] tz unfolding steady_def by (metis rt)
qed

text \<open>
  C26: the fixed time. In a zone whose clock neither skips nor repeats, the fixed-time trigger is due
  exactly when nothing was stamped for it yet or a scheduled instant has come since: after a stamp
  it stays quiet until the next scheduled one.
\<close>

theorem fixed_time_due_iff:
  assumes "steady tz" "0 \<le> wall_time" "wall_time < day"
    and "pc_fixed_time cfg = Some wall_time" "pc_timezone cfg = Some tz"
  shows "fixed_time_due state cfg = Inr (case ps_last_fixed_time_occurrence state of None \<Rightarrow> True
    | Some l \<Rightarrow> (\<exists>u. scheduled tz wall_time u \<and> l < u \<and> u \<le> ps_now state))"
  using assms(4,5) occurrence_latest [OF assms(1-3), where now = "ps_now state"]
  by (force simp: fixed_time_due_def Let_def split: option.splits)

definition fixed_zone :: "int \<Rightarrow> zone" where
  "fixed_zone offset = \<lparr>to_wall = (\<lambda>t. t + offset), of_wall = (\<lambda>x. x - offset)\<rparr>"

lemma fixed_time_due_iff_witness:
  "fixed_time_due (example_state\<lparr>ps_last_fixed_time_occurrence := Some (hours 3)\<rparr>)
     (default_policy\<lparr>pc_fixed_time := Some (hours 2), pc_timezone := Some (fixed_zone (hours 1))\<rparr>) =
   Inr (\<exists>u. scheduled (fixed_zone (hours 1)) (hours 2) u \<and> hours 3 < u \<and> u \<le> hours 30)"
  by (subst fixed_time_due_iff [of "fixed_zone (hours 1)" "hours 2"])
    (simp_all add: steady_def fixed_zone_def hours_def day_def microseconds_def example_state_def)

definition back_zone :: zone where
  "back_zone = \<lparr>to_wall = (\<lambda>t. if t < hours 1 then t + hours 2 else t + hours 1),
     of_wall = (\<lambda>x. if x < hours 3 then x - hours 2 else x - hours 1)\<rparr>"

definition forward_zone :: zone where
  "forward_zone = \<lparr>to_wall = (\<lambda>t. if t < hours 1 then t + hours 1 else t + hours 2),
     of_wall = (\<lambda>x. if x < hours 3 then x - hours 1 else x - hours 2)\<rparr>"

definition half_past_two :: int where
  "half_past_two = hours 2 + 1800 * microseconds"

text \<open>
  The two days of the year on which the wall clock jumps. When it goes back over the scheduled
  time, the second pass through the hour answers with the day before, although today's occurrence is
  past; when it goes forward over it, the answer is not the first instant after the gap but later.
\<close>

theorem occurrence_when_clocks_change:
  "of_wall back_zone half_past_two \<le> hours 1 \<and> scheduled back_zone half_past_two (of_wall back_zone half_past_two) \<and>
   most_recent_fixed_time_occurrence (hours 1) half_past_two back_zone =
     of_wall back_zone half_past_two - day \<and>
   to_wall forward_zone (hours 1) = hours 3 \<and>
   most_recent_fixed_time_occurrence (hours 5) half_past_two forward_zone = hours 1 + 1800 * microseconds"
  by code_simp

end
