(* ===== verification/Orchestration.thy ===== *)
theory Orchestration
  imports Repair Policy
begin

text \<open>
  \<open>orchestration.py\<close>: the snapshot a run starts from, and the run itself: finishing what an earlier
  run left unrecorded, completing bookkeeping when nothing is due, and otherwise submitting,
  persisting, committing and tagging the selected commits, all under the repository lock.
\<close>

section \<open>The snapshot\<close>

record repository_snapshot =
  sn_config :: config
  sn_layout :: repository_layout
  sn_source :: resolved_ref
  sn_object_format :: string
  sn_baseline :: lineage_baseline_result
  sn_pending :: "commit_info list"
  sn_policy_state :: policy_state
  sn_decision :: decision

record run_outcome =
  ro_timestamped :: "commit_id list"
  ro_tagged :: "commit_id list"
  ro_committed :: "commit_id list"
  ro_deferred :: "commit_id list"

definition outcome_changed :: "run_outcome \<Rightarrow> bool" where
  "outcome_changed o' \<longleftrightarrow> ro_timestamped o' \<noteq> [] \<or> ro_tagged o' \<noteq> [] \<or> ro_committed o' \<noteq> []"

definition baseline_source :: "lineage_baseline_result \<Rightarrow> commit_id option" where
  "baseline_source b = map_option tb_source_commit_id (lb_baseline b)"

definition last_fixed_time :: "lineage_baseline_result \<Rightarrow> instant option" where
  "last_fixed_time b =
     (case lb_baseline b of None \<Rightarrow> None
      | Some t \<Rightarrow> if ''fixed_time'' \<in> set (tb_triggers t) then Some (tb_submitted_at t) else None)"

definition policy_state_of :: "instant \<Rightarrow> lineage_baseline_result \<Rightarrow> commit_info list \<Rightarrow> policy_state" where
  "policy_state_of now b pending =
     \<lparr>ps_now = now,
      ps_pending_commits = map (\<lambda>c. \<lparr>pd_commit_id = ci_commit_id c, pd_committer_time = ci_committer_time c\<rparr>) pending,
      ps_last_fixed_time_occurrence = last_fixed_time b, ps_has_baseline = (lb_baseline b \<noteq> None),
      ps_has_abandoned_tags = lb_has_abandoned_tags b\<rparr>"

definition build_snapshot :: "'w host \<Rightarrow> path \<Rightarrow> config \<Rightarrow> instant \<Rightarrow> ('w, repository_snapshot) prog" where
  "build_snapshot h cwd cfg now =
     bindP (locate_repository h cwd) (\<lambda>layout.
     bindP (detect_object_format h) (\<lambda>fmt.
     bindP (resolve_source_ref h (gc_source_ref (cf_git cfg))) (\<lambda>source.
     bindP (find_newest_relevant_baseline h (resolved_commit_id source) (gc_tag_prefix (cf_git cfg))
         (Some (pr_directory (cf_proof cfg))) (Some (object_format_value fmt))) (\<lambda>baseline.
     bindP (filter_pending_meaningful_commits h (resolved_commit_id source) (baseline_source baseline)
         (pr_directory (cf_proof cfg))) (\<lambda>pending.
     let state = policy_state_of now baseline pending in
     bindP (liftE (evaluate_policy state (cf_policy cfg))) (\<lambda>decision.
     ret \<lparr>sn_config = cfg, sn_layout = layout, sn_source = source,
          sn_object_format = object_format_value fmt, sn_baseline = baseline, sn_pending = pending,
          sn_policy_state = state, sn_decision = decision\<rparr>))))))"

section \<open>The collaborators of a run\<close>

text \<open>
  \<open>submit\<close>, \<open>persist\<close>, \<open>tag\<close> and \<open>commit\<close>, each given by the caller or \<open>None\<close> for the default.
\<close>

record 'w collaborators =
  cb_submit :: "(commit_id \<Rightarrow> bytes \<Rightarrow> ('w, bytes) prog) option"
  cb_persist :: "(commit_id \<Rightarrow> bytes \<Rightarrow> ('w, unit) prog) option"
  cb_tag :: "(commit_id \<Rightarrow> ('w, unit) prog) option"
  cb_commit :: "(commit_id list \<Rightarrow> ('w, unit) prog) option"

definition no_collaborators :: "'w collaborators" where
  "no_collaborators = \<lparr>cb_submit = None, cb_persist = None, cb_tag = None, cb_commit = None\<rparr>"

text \<open>What a run is given: the snapshot, the present, the collaborators, and the outside.\<close>

record 'w run_context =
  rc_host :: "'w host"
  rc_client :: "'w ots_cli"
  rc_version :: string
  rc_snapshot :: repository_snapshot
  rc_now :: instant
  rc_collaborators :: "'w collaborators"

definition snap_root :: "'w run_context \<Rightarrow> path" where
  "snap_root x = worktree_root (sn_layout (rc_snapshot x))"

definition snap_directory :: "'w run_context \<Rightarrow> string" where
  "snap_directory x = pr_directory (cf_proof (sn_config (rc_snapshot x)))"

definition snap_format :: "'w run_context \<Rightarrow> string" where
  "snap_format x = sn_object_format (rc_snapshot x)"

definition snap_source :: "'w run_context \<Rightarrow> commit_id" where
  "snap_source x = resolved_commit_id (sn_source (rc_snapshot x))"

definition snap_git :: "'w run_context \<Rightarrow> git_config" where
  "snap_git x = cf_git (sn_config (rc_snapshot x))"

definition snap_commits :: "'w run_context \<Rightarrow> bool" where
  "snap_commits x = pr_commit (cf_proof (sn_config (rc_snapshot x)))"

definition DEFAULT_INDEX_LOCK_RETRY_WINDOW :: int where
  "DEFAULT_INDEX_LOCK_RETRY_WINDOW = 60 * microseconds"

definition index_lock_retry_window :: "'w run_context \<Rightarrow> int" where
  "index_lock_retry_window x =
     (case lc_git_timeout (cf_limits (sn_config (rc_snapshot x))) of
        Some t \<Rightarrow> t | None \<Rightarrow> DEFAULT_INDEX_LOCK_RETRY_WINDOW)"

definition recover_worktree :: "'w run_context \<Rightarrow> commit_id \<Rightarrow> ('w, proof_evidence option) prog" where
  "recover_worktree x cid = try_recover (rc_host x) (snap_root x) (snap_directory x) (snap_format x) cid"

definition committed_evidence :: "'w run_context \<Rightarrow> commit_id \<Rightarrow> ('w, proof_evidence option) prog" where
  "committed_evidence x cid =
     read_committed_proof_evidence (rc_host x) cid (snap_source x) (snap_directory x) (snap_format x)"

definition run_client :: "'w run_context \<Rightarrow> 'w ots_cli" where
  "run_client x = (rc_client x)\<lparr>ots_command := cf_command (sn_config (rc_snapshot x)),
     ots_limit := lc_ots_timeout (cf_limits (sn_config (rc_snapshot x)))\<rparr>"

definition default_submit :: "'w run_context \<Rightarrow> commit_id \<Rightarrow> bytes \<Rightarrow> ('w, bytes) prog" where
  "default_submit x cid payload =
     bindP (liftE (check_command (ots_command (run_client x)))) (\<lambda>_.
     catchP (submit (rc_host x) (run_client x) payload) (\<lambda>e. e = KeyboardInterrupt)
       (\<lambda>e. bindP (terminate_active_child (run_client x)) (\<lambda>_. raiseP e)))"

definition default_persist :: "'w run_context \<Rightarrow> commit_id \<Rightarrow> bytes \<Rightarrow> ('w, unit) prog" where
  "default_persist x cid proof =
     bindP (persist_proof (rc_host x) (snap_root x) (snap_directory x) (snap_format x) cid proof) (\<lambda>_.
     bindP (liftE (build_manifest (snap_format x) cid (cid @ ''.ots'')
         (display_ref (sn_source (rc_snapshot x))) (rc_now x) (de_triggers (sn_decision (rc_snapshot x))))) (\<lambda>m.
     bindP (persist_manifest (rc_host x) (snap_root x) (snap_directory x) m) (\<lambda>_. ret ())))"

type_synonym recovered = "commit_id \<rightharpoonup> proof_evidence"

definition default_tag :: "'w run_context \<Rightarrow> recovered \<Rightarrow> commit_id \<Rightarrow> ('w, unit) prog" where
  "default_tag x recovered cid =
     (let (t, triggers, proof_name) =
        (case recovered cid of
           None \<Rightarrow> (rc_now x, de_triggers (sn_decision (rc_snapshot x)), cid @ ''.ots'')
         | Some e \<Rightarrow> (ev_submitted_at e, ev_triggers e, ev_proof_name e))
      in bindP (create_timestamp_tag (rc_host x) cid (gc_tag_prefix (snap_git x)) t
           (snap_directory x @ ''/'' @ proof_name) triggers (rc_version x)
           (signs_generated_objects (snap_git x))) (\<lambda>_. ret ()))"

definition artifact_paths :: "string \<Rightarrow> commit_id list \<Rightarrow> path list" where
  "artifact_paths d ids = concat (map (\<lambda>cid. [d @ ''/'' @ cid @ ''.ots'', d @ ''/'' @ cid @ ''.json'']) ids)"

definition default_commit :: "'w run_context \<Rightarrow> commit_id list \<Rightarrow> ('w, unit) prog" where
  "default_commit x ids =
     (let paths = artifact_paths (snap_directory x) ids in
      bindP (stage_paths (rc_host x) paths (Some (index_lock_retry_window x))) (\<lambda>_.
      bindP (create_generated_proof_commit (rc_host x) ids (snap_directory x) paths
          (signs_generated_objects (snap_git x)) (Some (index_lock_retry_window x))) (\<lambda>_. ret ())))"

definition run_submit :: "'w run_context \<Rightarrow> commit_id \<Rightarrow> bytes \<Rightarrow> ('w, bytes) prog" where
  "run_submit x = (case cb_submit (rc_collaborators x) of Some f \<Rightarrow> f | None \<Rightarrow> default_submit x)"

definition run_persist :: "'w run_context \<Rightarrow> commit_id \<Rightarrow> bytes \<Rightarrow> ('w, unit) prog" where
  "run_persist x = (case cb_persist (rc_collaborators x) of Some f \<Rightarrow> f | None \<Rightarrow> default_persist x)"

definition run_tag :: "'w run_context \<Rightarrow> recovered \<Rightarrow> commit_id \<Rightarrow> ('w, unit) prog" where
  "run_tag x recovered = (case cb_tag (rc_collaborators x) of Some f \<Rightarrow> f | None \<Rightarrow> default_tag x recovered)"

definition run_commit :: "'w run_context \<Rightarrow> commit_id list \<Rightarrow> ('w, unit) prog" where
  "run_commit x = (case cb_commit (rc_collaborators x) of Some f \<Rightarrow> f | None \<Rightarrow> default_commit x)"

definition simulated :: "'w run_context \<Rightarrow> bool" where
  "simulated x \<longleftrightarrow> cb_persist (rc_collaborators x) \<noteq> None \<or> cb_commit (rc_collaborators x) \<noteq> None"

section \<open>Submissions in flight\<close>

text \<open>\<open>Path(name).stem\<close> of a name that ends in \<open>.ots\<close>, which is the name itself when there is nothing else.\<close>

definition proof_stem :: "string \<Rightarrow> commit_id" where
  "proof_stem name = (if name = ''.ots'' then name else stem name)"

text \<open>
  The loop over the stored proofs: those of \<open>exclude\<close>, the tagged and the committed ones are passed
  over, then those without valid artifacts, then those off the lineage.
\<close>

definition in_flight_one ::
    "'w run_context \<Rightarrow> commit_id list \<Rightarrow> commit_id list \<Rightarrow> path list \<Rightarrow> string \<Rightarrow>
     recovered \<times> commit_id list \<Rightarrow> ('w, recovered \<times> commit_id list) prog" where
  "in_flight_one x exclude tagged committed name acc =
     (let (recovered, found) = acc; source = proof_stem name in
      if source \<in> set exclude \<or> source \<in> set tagged then ret (recovered, found)
      else if snap_directory x @ ''/'' @ source @ ''.ots'' \<in> set committed then ret (recovered, found)
      else
        bindP (recover_worktree x source) (\<lambda>r.
        case r of
          None \<Rightarrow> ret (recovered, found)
        | Some evidence \<Rightarrow>
            bindP (is_ancestor_commit (rc_host x) source (snap_source x)) (\<lambda>ancestor.
            if \<not> ancestor then ret (recovered, found)
            else ret (recovered(source \<mapsto> evidence), found @ [source]))))"

definition in_flight_sources ::
    "'w run_context \<Rightarrow> commit_id list \<Rightarrow> ('w, recovered \<times> commit_id list) prog" where
  "in_flight_sources x exclude =
     (let proof_dir = path_join (snap_root x) (snap_directory x); h = rc_host x in
      bindP (askP (\<lambda>w. is_dir proof_dir (store_of h w))) (\<lambda>there.
      if \<not> there then ret (Map.empty, [])
      else
        bindP (enumerate_timestamp_tags h (gc_tag_prefix (snap_git x))) (\<lambda>tags.
        bindP (list_tree_proof_paths h (snap_source x) (snap_directory x)) (\<lambda>committed.
        bindP (askP (\<lambda>w. filter (\<lambda>n. str_endswith n ''.ots'') (sort (list_dir proof_dir (store_of h w))))) (\<lambda>names.
        bindP (foldP (in_flight_one x exclude (map tag_commit_id tags) committed) names (Map.empty, []))
          (\<lambda>(recovered, found).
        bindP (order_commits_newest_first h (snap_source x) found) (\<lambda>ordered.
        ret (recovered, rev ordered))))))))"

section \<open>Completing bookkeeping\<close>

text \<open>\<open>_claiming_proof_commits\<close>, with its cache keyed by the search baseline.\<close>

type_synonym claims = "(commit_id \<times> commit_id list) list"

definition claiming_commits :: "claims \<Rightarrow> commit_id \<Rightarrow> commit_id list" where
  "claiming_commits cs source =
     concat (map (\<lambda>(proof_commit, sources). map (\<lambda>_. proof_commit) (filter ((=) source) sources)) cs)"

type_synonym claims_cache = "(commit_id option \<times> claims) list"

definition claiming_proof_commits ::
    "'w run_context \<Rightarrow> commit_id \<Rightarrow> commit_id option \<Rightarrow> claims_cache \<Rightarrow> ('w, commit_id list \<times> claims_cache) prog" where
  "claiming_proof_commits x source search_baseline cache =
     (case map_of cache search_baseline of
        Some cs \<Rightarrow> ret (claiming_commits cs source, cache)
      | None \<Rightarrow>
          bindP (enumerate_generated_proof_commit_sources (rc_host x) (snap_source x) search_baseline
              (snap_directory x)) (\<lambda>cs.
          ret (claiming_commits cs source, (search_baseline, cs) # cache)))"

text \<open>The candidates whose payload the stored proof may bind: the first that it does bind.\<close>

fun first_binding ::
    "(hash_name \<Rightarrow> bytes \<Rightarrow> bytes) \<Rightarrow> string \<Rightarrow> bytes \<Rightarrow> commit_id list \<Rightarrow> commit_id list \<Rightarrow>
     commit_id option result" where
  "first_binding H fmt proof tested [] = Inr None"
| "first_binding H fmt proof tested (c # cs) =
     (if c \<in> set tested then first_binding H fmt proof tested cs
      else case bindE (build_payload fmt c) (\<lambda>payload. validate_detached_proof H proof (Some payload)) of
        Inr _ \<Rightarrow> Inr (Some c)
      | Inl e \<Rightarrow> if is_ValueError e then first_binding H fmt proof (c # tested) cs else Inl e)"

text \<open>The diagnosis of a claimed source without evidence, which always raises.\<close>

definition inconsistent :: "commit_id \<Rightarrow> commit_id option \<Rightarrow> exc" where
  "inconsistent source matched =
     PersistenceError (''inconsistent recovery state: proof commit(s) claim source '' @ take 12 source @
       '' but the manifest is missing or corrupt'' @
       (case matched of None \<Rightarrow> []
        | Some m \<Rightarrow> ''; payload binding identifies the source as '' @ take 12 m))"

definition diagnose :: "'w run_context \<Rightarrow> commit_id \<Rightarrow> commit_id list \<Rightarrow> ('w, 'a) prog" where
  "diagnose x source claiming =
     (let h = rc_host x; proof_path = path_join (path_join (snap_root x) (snap_directory x)) (source @ ''.ots'') in
      bindP (askP (\<lambda>w. is_file proof_path (store_of h w))) (\<lambda>there.
      bindP (if there then read_file h proof_path else ret []) (\<lambda>proof.
      if proof = [] then raiseP (inconsistent source None)
      else
        bindP (mapP (get_commit_parents h) claiming) (\<lambda>parents.
        bindP (liftE (first_binding (digest h) (snap_format x) proof []
            (concat parents @ map ci_commit_id (sn_pending (rc_snapshot x))))) (\<lambda>matched.
        raiseP (inconsistent source matched))))))"

record completion =
  cp_cache :: claims_cache
  cp_seen :: "commit_id list"
  cp_completed :: "commit_id list"

definition search_baseline_of :: "'w run_context \<Rightarrow> commit_id \<Rightarrow> commit_id option" where
  "search_baseline_of x source =
     (case baseline_source (sn_baseline (rc_snapshot x)) of
        None \<Rightarrow> None | Some b \<Rightarrow> if b = source then None else Some b)"

definition complete_one ::
    "'w run_context \<Rightarrow> commit_id list \<Rightarrow> commit_id \<Rightarrow> completion \<Rightarrow> ('w, completion) prog" where
  "complete_one x tagged source st =
     (if source \<in> set (cp_seen st) then ret st
      else let st1 = st\<lparr>cp_seen := source # cp_seen st\<rparr> in
      if source \<in> set tagged then ret st1
      else
        bindP (claiming_proof_commits x source (search_baseline_of x source) (cp_cache st1)) (\<lambda>(claiming, cache).
        let st2 = st1\<lparr>cp_cache := cache\<rparr> in
        bindP (committed_evidence x source) (\<lambda>committed.
        bindP (if committed = None \<and> claiming \<noteq> [] then recover_worktree x source else ret committed) (\<lambda>evidence.
        case evidence of
          Some e \<Rightarrow>
            bindP (run_tag x [source \<mapsto> e] source) (\<lambda>_.
            ret (st2\<lparr>cp_completed := cp_completed st2 @ [source]\<rparr>))
        | None \<Rightarrow> if claiming = [] then ret st2 else diagnose x source claiming))))"

text \<open>The artifacts of a tagged baseline that were never committed.\<close>

definition commit_baseline :: "'w run_context \<Rightarrow> ('w, commit_id option) prog" where
  "commit_baseline x =
     (case baseline_source (sn_baseline (rc_snapshot x)) of
        None \<Rightarrow> ret None
      | Some b \<Rightarrow>
          if \<not> snap_commits x \<or> simulated x then ret None
          else
            bindP (recover_worktree x b) (\<lambda>r.
            case r of
              None \<Rightarrow> ret None
            | Some _ \<Rightarrow>
                bindP (paths_are_committed (rc_host x) (artifact_paths (snap_directory x) [b])) (\<lambda>done1.
                if done1 then ret None
                else
                  bindP (has_generated_proof_commits_in_history (rc_host x) (snap_source x)) (\<lambda>generated.
                  if generated then ret None
                  else bindP (run_commit x [b]) (\<lambda>_. ret (Some b))))))"

definition sources_to_check :: "'w run_context \<Rightarrow> commit_id list" where
  "sources_to_check x =
     (case baseline_source (sn_baseline (rc_snapshot x)) of None \<Rightarrow> [] | Some b \<Rightarrow> [b]) @
     map ci_commit_id (sn_pending (rc_snapshot x))"

definition complete_tags :: "'w run_context \<Rightarrow> ('w, commit_id list) prog" where
  "complete_tags x =
     (if \<not> snap_commits x then ret []
      else
        bindP (enumerate_timestamp_tags (rc_host x) (gc_tag_prefix (snap_git x))) (\<lambda>tags.
        bindP (foldP (complete_one x (map tag_commit_id tags)) (sources_to_check x)
            \<lparr>cp_cache = [], cp_seen = [], cp_completed = []\<rparr>) (\<lambda>st.
        ret (cp_completed st))))"

definition idle_outcome :: run_outcome where
  "idle_outcome = \<lparr>ro_timestamped = [], ro_tagged = [], ro_committed = [], ro_deferred = []\<rparr>"

definition run_idle :: "'w run_context \<Rightarrow> ('w, run_outcome) prog" where
  "run_idle x =
     bindP (commit_baseline x) (\<lambda>committed.
     case committed of
       Some b \<Rightarrow> ret (idle_outcome\<lparr>ro_committed := [b]\<rparr>)
     | None \<Rightarrow> bindP (complete_tags x) (\<lambda>tagged. ret (idle_outcome\<lparr>ro_tagged := tagged\<rparr>)))"

section \<open>Stamping\<close>

text \<open>\<open>proof_dir.mkdir(parents=True, exist_ok=True)\<close>, from the worktree root down.\<close>

definition make_directory :: "'w host \<Rightarrow> path \<Rightarrow> ('w, unit) prog" where
  "make_directory h p =
     bindP (askP (stat_path h p)) (\<lambda>entry.
     case entry of
       None \<Rightarrow> doP (\<lambda>w. set_store h (make_dir p (store_of h w)) w)
     | Some Directory \<Rightarrow> ret ()
     | Some _ \<Rightarrow> raiseP (OSError ''File exists''))"

primrec make_directories :: "'w host \<Rightarrow> path \<Rightarrow> string list \<Rightarrow> ('w, unit) prog" where
  "make_directories h p [] = ret ()"
| "make_directories h p (seg # segs) =
     bindP (make_directory h (path_join p seg)) (\<lambda>_. make_directories h (path_join p seg) segs)"

definition stamp_one ::
    "'w run_context \<Rightarrow> commit_id \<Rightarrow> recovered \<times> commit_id list \<Rightarrow> ('w, recovered \<times> commit_id list) prog" where
  "stamp_one x cid acc =
     (let (recovered, processed) = acc; h = rc_host x in
      bindP (inspect_recovery_artifacts_if_present h (snap_root x) (snap_directory x) (snap_format x) cid) (\<lambda>r.
      case r of
        Some a \<Rightarrow> ret (recovered(cid \<mapsto> as_evidence a cid), processed @ [cid])
      | None \<Rightarrow>
          bindP (find_generated_proof_commits_claiming_source h cid (snap_source x)
              (baseline_source (sn_baseline (rc_snapshot x))) (snap_directory x)) (\<lambda>claiming.
          if claiming \<noteq> [] then raiseP (InvalidRepositoryStateError
            ''generated proof commit(s) claim the source but recovery artifacts are missing or invalid'')
          else
            bindP (liftE (build_payload (snap_format x) cid)) (\<lambda>payload.
            bindP (run_submit x cid payload) (\<lambda>proof.
            bindP (run_persist x cid proof) (\<lambda>_.
            ret (recovered, processed @ [cid])))))))"

text \<open>Committing and tagging what was processed.\<close>

definition record_commit :: "'w run_context \<Rightarrow> commit_id list \<Rightarrow> ('w, commit_id list) prog" where
  "record_commit x processed =
     (if processed = [] \<or> \<not> snap_commits x then ret []
      else
        bindP (paths_are_committed (rc_host x) (artifact_paths (snap_directory x) processed)) (\<lambda>done1.
        if done1 then ret [] else bindP (run_commit x processed) (\<lambda>_. ret processed)))"

definition selected_ids :: "'w run_context \<Rightarrow> commit_id list" where
  "selected_ids x = map pd_commit_id (de_commits (sn_decision (rc_snapshot x)))"

definition run_stamping :: "'w run_context \<Rightarrow> recovered \<Rightarrow> commit_id list \<Rightarrow> ('w, run_outcome) prog" where
  "run_stamping x recovered in_flight =
     bindP (make_directories (rc_host x) (snap_root x) (split_char (CHR ''/'') (snap_directory x))) (\<lambda>_.
     let selected = (if in_flight \<noteq> [] then [] else selected_ids x);
         deferred = (if in_flight \<noteq> [] then selected_ids x else [])
     in
     bindP (foldP (stamp_one x) selected (recovered, in_flight)) (\<lambda>(recovered, processed).
     bindP (record_commit x processed) (\<lambda>committed.
     bindP (mapP (run_tag x recovered) processed) (\<lambda>_.
     ret \<lparr>ro_timestamped = filter (\<lambda>c. c \<notin> set in_flight) processed, ro_tagged = processed,
          ro_committed = committed, ro_deferred = deferred\<rparr>))))"

section \<open>The run\<close>

definition run_locked :: "'w run_context \<Rightarrow> ('w, run_outcome) prog" where
  "run_locked x =
     bindP (assert_committable_state (rc_host x) (snap_root x) (snap_commits x)) (\<lambda>_.
     bindP (if snap_commits x \<and> gc_require_clean_worktree (snap_git x) then
         bindP (is_worktree_clean (rc_host x)) (\<lambda>clean.
         if clean then ret () else raiseP (InvalidRepositoryStateError ''worktree has uncommitted changes''))
       else ret ()) (\<lambda>_.
     bindP (if simulated x then ret (Map.empty, []) else in_flight_sources x (selected_ids x))
       (\<lambda>(recovered, in_flight).
     if selected_ids x = [] \<and> in_flight = [] then run_idle x else run_stamping x recovered in_flight)))"

definition run_timestamping :: "'w lock_access \<Rightarrow> 'w run_context \<Rightarrow> ('w, run_outcome) prog" where
  "run_timestamping L x =
     bindP (liftE (assert_worktree_present (sn_layout (rc_snapshot x)))) (\<lambda>_.
     with_lock L (common_git_dir (sn_layout (rc_snapshot x))) (run_locked x))"

end
