(* ===== verification/UpgradeFacts.thy ===== *)
theory UpgradeFacts
  imports Upgrade
begin

text \<open>
  What the collection loop of \<open>upgrade.py\<close> does to a proof: merging at a node is additive, the
  attestations of the stored proof stay where they were, and the loop's own checks on the merged
  bytes can only fail in the way the theorems say.
\<close>

section \<open>Merging inside a proof\<close>

lemma update_child_cases:
  obtains "update_child k f its = (its, 0)"
  | pre op ch post where "its = pre @ Branch op ch # post"
      "update_child k f its = (pre @ Branch op (fst (f ch)) # post, snd (f ch))"
proof -
  have "update_child k f its = (its, 0) \<or> (\<exists>pre op ch post. its = pre @ Branch op ch # post \<and>
      update_child k f its = (pre @ Branch op (fst (f ch)) # post, snd (f ch)))"
  proof (induction k f its rule: update_child.induct)
    case (2 k f a its)
    then show ?case
    proof (elim disjE exE conjE)
      fix pre op ch post
      assume "its = pre @ Branch op ch # post"
        "update_child k f its = (pre @ Branch op (fst (f ch)) # post, snd (f ch))"
      then have "Att a # its = (Att a # pre) @ Branch op ch # post"
        "update_child k f (Att a # its) = ((Att a # pre) @ Branch op (fst (f ch)) # post, snd (f ch))"
        by simp_all
      then show ?thesis by blast
    qed simp
  next
    case (3 f op ch its)
    have "Branch op ch # its = [] @ Branch op ch # its"
      "update_child 0 f (Branch op ch # its) = ([] @ Branch op (fst (f ch)) # its, snd (f ch))"
      by (simp_all add: case_prod_unfold Let_def)
    then show ?case by blast
  next
    case (4 k f op ch its)
    then show ?case
    proof (elim disjE exE conjE)
      fix pre op' ch' post
      assume "its = pre @ Branch op' ch' # post"
        "update_child k f its = (pre @ Branch op' (fst (f ch')) # post, snd (f ch'))"
      then have "Branch op ch # its = (Branch op ch # pre) @ Branch op' ch' # post"
        "update_child (Suc k) f (Branch op ch # its) =
           ((Branch op ch # pre) @ Branch op' (fst (f ch')) # post, snd (f ch'))"
        by simp_all
      then show ?thesis by blast
    qed simp
  qed simp
  then show thesis using that by blast
qed

text \<open>The attestations of a tree, at any place it can be grafted.\<close>

definition grafted :: "node \<Rightarrow> (bytes list \<times> attestation) set" where
  "grafted nd = {(p, a). \<exists>pre q. p = pre @ q \<and> (q, a) \<in> located_node nd}"

lemma grafted_under: "(\<lambda>(p, a). (op # p, a)) ` grafted nd \<subseteq> grafted nd"
  by (auto simp: grafted_def) (metis append_Cons)

lemma located_grafted: "located_node nd \<subseteq> grafted nd"
  by (auto simp: grafted_def intro: exI [of _ "[]"])

lemma located_branch: "located_item (Branch op ch) = (\<lambda>(p, a). (op # p, a)) ` located_node ch"
  by (simp add: located_item.simps(2))

lemma merge_at_located:
  "located_node nd \<subseteq> located_node (fst (merge_at ref s nd)) \<and>
   located_node (fst (merge_at ref s nd)) \<subseteq> located_node nd \<union> grafted s \<and>
   (snd (merge_at ref s nd) = 0 \<longrightarrow> fst (merge_at ref s nd) = nd)"
proof (induction ref arbitrary: nd)
  case Nil
  then show ?case using located_grafted [of s] by (auto simp: merge_node_located merge_node_zero)
next
  case (Cons k ks)
  show ?case
  proof (rule update_child_cases [of k "merge_at ks s" "items nd"])
    assume "update_child k (merge_at ks s) (items nd) = (items nd, 0)"
    then show ?thesis by (cases nd) simp
  next
    fix pre op ch post
    assume i: "items nd = pre @ Branch op ch # post" and
      u: "update_child k (merge_at ks s) (items nd) =
        (pre @ Branch op (fst (merge_at ks s ch)) # post, snd (merge_at ks s ch))"
    note IH = Cons.IH [of ch]
    have "located_item (Branch op ch) \<subseteq> located_item (Branch op (fst (merge_at ks s ch)))"
      unfolding located_branch using IH by blast
    moreover have "located_item (Branch op (fst (merge_at ks s ch))) \<subseteq> located_item (Branch op ch) \<union> grafted s"
      unfolding located_branch using IH grafted_under [of op s] by blast
    moreover have "snd (merge_at ks s ch) = 0 \<longrightarrow> Node (pre @ Branch op (fst (merge_at ks s ch)) # post) = nd"
      using IH i by (cases nd) simp
    ultimately show ?thesis using i u by (simp add: located_node_items) blast
  qed
qed

interpretation graft: additive_merge "\<lambda>nd (ref, s). merge_at ref s nd" located_node "\<lambda>(ref, s). grafted s"
  using merge_at_located by unfold_locales (auto split: prod.splits)

lemma merge_at_wf:
  "wf_node nd \<Longrightarrow> wf_node s \<Longrightarrow> wf_node (fst (merge_at ref s nd))"
proof (induction ref arbitrary: nd)
  case Nil
  then show ?case
    using merge_items_wf [of "items nd" "items s"] merge_items_nonempty [of "items nd" "items s"]
    by (cases nd; cases s) (auto simp: merge_node_def case_prod_unfold Let_def)
next
  case (Cons k ks)
  show ?case
  proof (rule update_child_cases [of k "merge_at ks s" "items nd"])
    assume "update_child k (merge_at ks s) (items nd) = (items nd, 0)"
    with Cons.prems show ?thesis by (cases nd) simp
  next
    fix pre op ch post
    assume "items nd = pre @ Branch op ch # post" 
      "update_child k (merge_at ks s) (items nd) =
        (pre @ Branch op (fst (merge_at ks s ch)) # post, snd (merge_at ks s ch))"
    with Cons show ?thesis by (cases nd) simp
  qed
qed

section \<open>The loop over the calendars\<close>

lemma parsed_response_wf: "parse_calendar_response b = Inr s \<Longrightarrow> wf_node s"
  using parse_sound(1) by (fastforce simp: parse_calendar_response_def parse_timestamp_def bindE_Inr_iff
      split: if_splits prod.splits)

lemma collect_one_merges:
  assumes "collect_one fetch t st w = (Inr st', w')"
  obtains "co_root st' = co_root st" "co_added st' = co_added st"
  | s where "wf_node s" "co_root st' = fst (merge_at (col_node t) s (co_root st))"
      "co_added st' = co_added st + snd (merge_at (col_node t) s (co_root st))"
proof -
  obtain body detail w1 where f: "fetch (col_url t) (col_commitment t) w = (Inr (body, detail), w1)"
    using assms by (auto simp: collect_one_def bindP_Inr_iff)
  show thesis
  proof (cases body)
    case None
    with assms f show thesis by (intro that(1)) (auto simp: collect_one_def bindP_def Let_def)
  next
    case (Some b)
    show thesis
    proof (cases "parse_calendar_response b")
      case (Inl e)
      with assms f Some show thesis
        by (intro that(1)) (auto simp: collect_one_def bindP_def Let_def split: if_splits)
    next
      case (Inr s)
      show thesis
      proof (rule that(2) [OF parsed_response_wf [OF Inr]])
        show "co_root st' = fst (merge_at (col_node t) s (co_root st))"
          "co_added st' = co_added st + snd (merge_at (col_node t) s (co_root st))"
          using assms f Some Inr by (auto simp: collect_one_def bindP_def Let_def split: prod.splits if_splits)
      qed
    qed
  qed
qed

lemma collecting_is_merging:
  assumes "foldP (collect_one fetch) targets st w = (Inr st', w')" "wf_node (co_root st)"
  shows "wf_node (co_root st') \<and> (\<exists>rs. co_root st' = fst (graft.merge_all (co_root st) rs) \<and>
    co_added st' = co_added st + snd (graft.merge_all (co_root st) rs))"
  using assms
proof (induction targets arbitrary: st w)
  case Nil
  have "co_root st = fst (graft.merge_all (co_root st) [])" by simp
  with Nil show ?case by (metis add.right_neutral foldP.simps(1) graft.merge_all.simps(1) prod.inject prog_simps(4) snd_conv sum.inject(2))
next
  case (Cons t targets)
  then obtain st1 w1 where one: "collect_one fetch t st w = (Inr st1, w1)" and
    rest: "foldP (collect_one fetch) targets st1 w1 = (Inr st', w')"
    by (auto simp: bindP_Inr_iff)
  from one show ?case
  proof (rule collect_one_merges)
    assume "co_root st1 = co_root st" "co_added st1 = co_added st"
    with Cons.IH [OF rest] Cons.prems(2) show ?thesis by simp
  next
    fix s
    assume s: "wf_node s" "co_root st1 = fst (merge_at (col_node t) s (co_root st))"
      "co_added st1 = co_added st + snd (merge_at (col_node t) s (co_root st))"
    with Cons.IH [OF rest] Cons.prems(2) obtain rs where
      "wf_node (co_root st')" "co_root st' = fst (graft.merge_all (co_root st1) rs)"
      "co_added st' = co_added st1 + snd (graft.merge_all (co_root st1) rs)"
      using merge_at_wf by force
    with s show ?thesis by (intro conjI exI [of _ "(col_node t, s) # rs"]) simp_all
  qed
qed

text \<open>What the checks find in the merged bytes.\<close>

lemma merged_proof_parses:
  assumes "parse_proof proof = Inr p" "wf_node root" "serialize_proof (p\<lparr>dp_root := root\<rparr>) = Inr merged"
    and "parse_proof merged = Inr q"
  shows "q = p\<lparr>dp_root := root\<rparr>"
proof -
  have "merged = dp_header p @ wire_node root"
    using assms(3) serialize_proof_wf [of "p\<lparr>dp_root := root\<rparr>"] assms(2) by simp
  with parse_written_proof [OF assms(1,2)] assms(4) show ?thesis by blast
qed

lemma collect_outcome:
  assumes "parse_proof proof = Inr p"
    and "collectible_calendars (digest h) (ripemd h) p = Inr targets"
    and "foldP (collect_one fetch) targets
      \<lparr>co_root = dp_root p, co_collected = [], co_notes = [], co_added = 0\<rparr> w = (Inr st, w')"
  shows "wf_node (co_root st)" "located_node (dp_root p) \<subseteq> located_node (co_root st)"
    "co_added st = 0 \<longrightarrow> co_root st = dp_root p"
proof -
  have "wf_node (dp_root p)" using parse_proof_root_wf [OF assms(1)] by simp
  with collecting_is_merging [OF assms(3)] obtain rs where
    "wf_node (co_root st)" "co_root st = fst (graft.merge_all (dp_root p) rs)"
    "co_added st = snd (graft.merge_all (dp_root p) rs)" by auto
  then show "wf_node (co_root st)" "located_node (dp_root p) \<subseteq> located_node (co_root st)"
    "co_added st = 0 \<longrightarrow> co_root st = dp_root p"
    using graft.merge_all_keeps [of "dp_root p" rs] graft.merge_all_zero [of "dp_root p" rs] by auto
qed

text \<open>
  C13: collecting never loses anything. When \<open>_collect_from_calendars\<close> rewrites a proof, whatever the
  calendars answered, the new bytes parse to a proof with the same header and digest that binds
  the same payload, and every attestation of the old proof is where it was.
\<close>

theorem collecting_keeps_attestations:
  assumes "parse_proof proof = Inr p"
    and "collect_from_calendars h fetch proof payload w = (Inr (Some merged, cs, notes), w')"
  shows "\<exists>q. parse_proof merged = Inr q \<and> dp_header q = dp_header p \<and> dp_digest q = dp_digest p \<and>
    located_node (dp_root p) \<subseteq> located_node (dp_root q) \<and>
    validate_detached_proof (digest h) merged (Some payload) = Inr ()"
proof -
  from assms obtain targets st w1 where
    t: "collectible_calendars (digest h) (ripemd h) p = Inr targets" and
    f: "foldP (collect_one fetch) targets
      \<lparr>co_root = dp_root p, co_collected = [], co_notes = [], co_added = 0\<rparr> w = (Inr st, w1)" and
    s: "serialize_proof (p\<lparr>dp_root := co_root st\<rparr>) = Inr merged" and
    c: "check_merged (digest h) payload (all_attestations (dp_root p)) merged = Inr ()"
    by (auto simp: collect_from_calendars_def bindP_Inr_iff liftE_def split: if_splits)
  from c obtain q where q: "parse_proof merged = Inr q"
    "validate_detached_proof (digest h) merged (Some payload) = Inr ()"
    by (auto simp: check_merged_def bindE_Inr_iff)
  note st = collect_outcome [OF assms(1) t f]
  from merged_proof_parses [OF assms(1) st(1) s q(1)] st(2) q show ?thesis by simp
qed

text \<open>The parser's exceptions.\<close>

definition parser_error :: "exc \<Rightarrow> bool" where
  "parser_error e \<longleftrightarrow> is_ProofParseError e \<or> e = IndexError \<or> e = OutOfFuel"

lemma parser_error_simps [simp]:
  "parser_error (ProofParseError m)" "parser_error IndexError" "parser_error OutOfFuel"
  "\<not> parser_error (PersistenceError m)"
  by (simp_all add: parser_error_def)

lemma read_operation_raises: "read_operation data off = Inl e \<Longrightarrow> parser_error e"
  by (auto simp: read_operation_def Let_def bindE_Inl_iff split: if_splits dest!: read_varuint_error)

lemma read_attestation_raises: "read_attestation data off = Inl e \<Longrightarrow> parser_error e"
  by (auto simp: read_attestation_def Let_def bindE_Inl_iff split: if_splits dest!: read_varuint_error)

lemma parse_node_raises:
  "parse_node n data off depth = Inl e \<Longrightarrow> parser_error e"
  "parse_items n data off depth = Inl e \<Longrightarrow> parser_error e"
  "parse_item n data off depth = Inl e \<Longrightarrow> parser_error e"
proof (induction n data off depth and n data off depth and n data off depth
    rule: parse_node_parse_items_parse_item.induct)
  case (2 n data off depth)
  then show ?case by (auto simp: bindE_Inl_iff split: if_splits)
next
  case (4 n data off depth)
  from 4(4) show ?case
    unfolding parse_items.simps(2) bindE_Inl_iff using 4(1-3)
    by (auto simp: bindE_Inl_iff split: if_splits)
next
  case (6 n data off depth)
  then show ?case
    by (auto simp: bindE_Inl_iff split: if_splits dest: read_attestation_raises read_operation_raises)
qed simp_all

lemma parse_proof_raises: "parse_proof data = Inl e \<Longrightarrow> parser_error e"
  by (auto simp: parse_proof_def parse_timestamp_def Let_def bindE_Inl_iff guardE_def
      split: if_splits option.splits dest!: read_varuint_error dest: parse_node_raises)

lemma parse_response_raises: "parse_calendar_response b = Inl e \<Longrightarrow> parser_error e"
  by (auto simp: parse_calendar_response_def parse_timestamp_def bindE_Inl_iff
      split: if_splits dest: parse_node_raises)

lemma collecting_raises:
  assumes "foldP (collect_one fetch) targets st w = (Inl e, w')"
  shows "parser_error e \<or> (\<exists>u m w. fst (fetch u m w) = Inl e)"
  using assms
proof (induction targets arbitrary: st w)
  case (Cons t targets)
  then consider "collect_one fetch t st w = (Inl e, w')"
    | st1 w1 where "foldP (collect_one fetch) targets st1 w1 = (Inl e, w')"
    by (auto simp: bindP_Inl_iff)
  then show ?case
  proof cases
    case 1
    then show ?thesis
      unfolding collect_one_def bindP_Inl_iff
    proof (elim disjE exE conjE)
      assume "fetch (col_url t) (col_commitment t) w = (Inl e, w')"
      then show ?thesis by (metis fst_conv)
    next
      fix x w1
      assume "(case x of (body, detail) \<Rightarrow>
          let note = (\<lambda>s. st\<lparr>co_notes := co_notes st @ [bytes_text (col_url t) @ '': '' @ s]\<rparr>) in
          case body of None \<Rightarrow> ret (note detail)
          | Some b \<Rightarrow> (case parse_calendar_response b of
              Inl e \<Rightarrow> if is_ProofParseError e then ret (note ''unusable response'') else raiseP e
            | Inr response \<Rightarrow>
                let (root, added) = merge_at (col_node t) response (co_root st) in
                ret (if added \<noteq> 0
                  then st\<lparr>co_root := root, co_collected := co_collected st @ [col_url t],
                         co_added := co_added st + added\<rparr>
                  else st\<lparr>co_root := root\<rparr>))) w1 = (Inl e, w')"
      then show ?thesis
        by (auto simp: Let_def dest: parse_response_raises
            split: prod.splits option.splits sum.splits if_splits)
    qed
  qed (rule Cons.IH)
qed simp

lemma check_merged_raises:
  assumes "check_merged H payload (all_attestations old) merged = Inl e" "is_PersistenceError e"
  shows "\<exists>q. parse_proof merged = Inr q \<and> \<not> located_node old \<subseteq> located_node (dp_root q)"
proof -
  from assms obtain q where q: "parse_proof merged = Inr q"
    and drop: "\<not> set (all_attestations old) \<subseteq> set (all_attestations (dp_root q))"
    by (cases e) (auto simp: check_merged_def bindE_Inl_iff list_all_iff
        dest!: validate_error parse_proof_raises split: if_splits)
  from drop have "\<not> located_node old \<subseteq> located_node (dp_root q)"
    unfolding all_attestations_located by blast
  with q show ?thesis by blast
qed

definition example_response :: bytes where
  "example_response = [0x00] @ bitcoin_tag @ [1, 5]"

definition example_fetch :: "file_store fetcher" where
  "example_fetch u m = ret (Some example_response, [])"

definition zero_host :: "file_store host" where
  "zero_host = file_host (\<lambda>_. None) (\<lambda>_. None) zero_digest"

definition completed_proof :: bytes where
  "completed_proof = header_magic @ [0x01, 0x08] @ replicate 32 0 @ [0xF0, 1, 9, 0xFF, 0x00] @
     pending_tag @ [2, 1, 0x75, 0x00] @ bitcoin_tag @ [1, 5]"

lemma example_collected:
  "collect_from_calendars zero_host example_fetch pending_proof [1] w =
     (Inr (Some completed_proof, [[0x75]], []), w)"
  by code_simp

lemma collecting_keeps_attestations_witness:
  "\<exists>q. parse_proof completed_proof = Inr q \<and> dp_digest q = replicate 32 0 \<and>
     ([[0xF0, 1, 9]], \<lparr>att_tag = pending_tag, att_payload = [1, 0x75]\<rparr>) \<in> located_node (dp_root q)"
  using collecting_keeps_attestations [OF pending_proof_parses example_collected] by auto

text \<open>
  What the upgrade relies on when it asks a calendar: the request does not end in the error that
  refuses a merged proof. The refusal to store a proof that dropped attestations is then never
  reached, whatever the calendar answers.
\<close>

locale calendar_fetcher =
  fixes fetch :: "'w fetcher"
  assumes no_refusal: "fst (fetch u m w) = Inl e \<Longrightarrow> \<not> is_PersistenceError e"
begin

lemma never_refused:
  assumes "parse_proof proof = Inr p"
    and r: "collect_from_calendars h fetch proof payload w = (Inl e, w')"
  shows "\<not> is_PersistenceError e"
proof
  assume e: "is_PersistenceError e"
  from collectible_calendars_total [OF assms(1)] obtain targets where
    t: "collectible_calendars (digest h) (ripemd h) p = Inr targets" by blast
  have step: "targets \<noteq> [] \<and> bindP (foldP (collect_one fetch) targets
      \<lparr>co_root = dp_root p, co_collected = [], co_notes = [], co_added = 0\<rparr>) (\<lambda>st.
        if co_added st = 0 then ret (None, [], co_notes st)
        else bindP (liftE (serialize_proof (p\<lparr>dp_root := co_root st\<rparr>))) (\<lambda>merged.
          bindP (liftE (check_merged (digest h) payload (all_attestations (dp_root p)) merged)) (\<lambda>_.
          ret (Some merged, co_collected st, co_notes st)))) w = (Inl e, w')"
    using r assms(1) t by (auto simp: collect_from_calendars_def bindP_def split: if_splits)
  have quiet: "foldP (collect_one fetch) targets st w \<noteq> (Inl e, w')" for st
    using collecting_raises no_refusal e by (metis is_PersistenceError.elims(2) parser_error_simps(4))
  obtain st w1 where f: "foldP (collect_one fetch) targets
      \<lparr>co_root = dp_root p, co_collected = [], co_notes = [], co_added = 0\<rparr> w = (Inr st, w1)"
    using step quiet unfolding bindP_Inl_iff by blast
  note st = collect_outcome [OF assms(1) t f]
  have "serialize_proof (p\<lparr>dp_root := co_root st\<rparr>) =
      Inr (dp_header p @ wire_node (co_root st))"
    using serialize_proof_wf [of "p\<lparr>dp_root := co_root st\<rparr>"] st(1) by simp
  moreover from this f step have "\<exists>merged. serialize_proof (p\<lparr>dp_root := co_root st\<rparr>) = Inr merged \<and>
      check_merged (digest h) payload (all_attestations (dp_root p)) merged = Inl e"
    by (simp add: bindP_def split: if_splits sum.splits)
  ultimately obtain merged q where "serialize_proof (p\<lparr>dp_root := co_root st\<rparr>) = Inr merged"
    "parse_proof merged = Inr q" "\<not> located_node (dp_root p) \<subseteq> located_node (dp_root q)"
    using check_merged_raises e by blast
  with merged_proof_parses [OF assms(1) st(1)] st(2) show False by fastforce
qed

end

end
