(* ===== verification/Evolution.thy ===== *)
theory Evolution
  imports OtsClient GitRefs
begin

text \<open>
  How the files of a repository may change while the tool runs. Some set of paths, the protected
  ones, is touched by nothing but the tool's own writers; \<open>evolves\<close> relates two worlds when every
  protected path is as it was or holds what an allowed write put there. The client of
  \<open>timestamp.py\<close> stays in its temporary directory, and the proof writers write proofs only.
\<close>

section \<open>Protected paths\<close>

definition files_in :: "'w host \<Rightarrow> (path \<Rightarrow> bool) \<Rightarrow> 'w \<Rightarrow> path \<Rightarrow> bytes option" where
  "files_in h P w = (\<lambda>p. if P p then file_content p (store_of h w) else None)"

text \<open>\<open>replace\<close> says whether an existing file may be replaced, or new ones only be added.\<close>

definition evolves ::
    "'w host \<Rightarrow> (path \<Rightarrow> bool) \<Rightarrow> bool \<Rightarrow> (path \<Rightarrow> bytes \<Rightarrow> bool) \<Rightarrow> 'w \<Rightarrow> 'w \<Rightarrow> bool" where
  "evolves h P replace A w w' \<longleftrightarrow>
     (\<forall>p. P p \<longrightarrow> file_content p (store_of h w') = file_content p (store_of h w) \<or>
        (replace \<or> file_content p (store_of h w) = None) \<and>
        (\<exists>b. file_content p (store_of h w') = Some b \<and> A p b))"

interpretation evolution: world_order "evolves h P r A" for h P r A
proof unfold_locales
  fix u v w
  assume "evolves h P r A u v" "evolves h P r A v w"
  then show "evolves h P r A u w" unfolding evolves_def by (metis option.simps(3))
qed (simp add: evolves_def)

lemma files_in_eq_iff:
  "files_in h P w' = files_in h P w \<longleftrightarrow>
     (\<forall>p. P p \<longrightarrow> file_content p (store_of h w') = file_content p (store_of h w))"
  by (auto simp: files_in_def fun_eq_iff split: if_splits)

lemma keeps_evolves: "keeps (files_in h P) m \<Longrightarrow> within (evolves h P r A) m"
  by (auto simp: keeps_def within_def files_in_eq_iff evolves_def)

lemmas evolution_intros = evolution.within_pure evolution.within_bind evolution.within_catch
  evolution.within_guard evolution.within_cases evolution.within_map evolution.within_fold

section \<open>The client\<close>

text \<open>
  The client runs outside the protected paths: \<open>TemporaryDirectory\<close> is made elsewhere, and the
  program, given no protected path as an argument, changes none.
\<close>

definition confined :: "'w host \<Rightarrow> 'w ots_cli \<Rightarrow> (path \<Rightarrow> bool) \<Rightarrow> bool" where
  "confined h c P \<longleftrightarrow>
     (\<forall>w p. P p \<longrightarrow> p \<noteq> temp_dir c w \<and> \<not> str_startswith p (temp_dir c w @ ''/'')) \<and>
     (\<forall>av. (\<forall>a \<in> set av. \<not> P a) \<longrightarrow> keeps (files_in h P) (call_runner c av)) \<and>
     (\<forall>av w. (\<forall>a \<in> set av. \<not> P a) \<longrightarrow>
        files_in h P (snd (join_worker c av w)) = files_in h P w) \<and>
     (\<forall>pgid w. files_in h P (kill_group c pgid w) = files_in h P w)"

lemma terminate_confined: "confined h c P \<Longrightarrow> keeps (files_in h P) (terminate_active_child c)"
  by (auto simp: terminate_active_child_def keeps_def confined_def split: option.splits)

lemma invoke_confined:
  assumes "confined h c P" "\<forall>a \<in> set av. \<not> P a"
  shows "keeps (files_in h P) (invoke c av)"
proof -
  have j: "files_in h P (snd (join_worker c av w)) = files_in h P w" for w
    using assms by (simp add: confined_def)
  have t: "files_in h P (snd (terminate_active_child c w)) = files_in h P w" for w
    using terminate_confined [OF assms(1)] by (simp add: keeps_def)
  have "files_in h P (snd (invoke c av w)) = files_in h P w" for w
  proof (cases "ots_limit c")
    case None
    with assms show ?thesis by (auto simp: invoke_def confined_def keeps_def)
  next
    case (Some l)
    with j [of w] t show ?thesis
      by (cases "join_worker c av w")
        (auto simp: invoke_def bindP_def terminate_active_child_def split: option.splits sum.splits)
  qed
  then show ?thesis by (simp add: keeps_def)
qed

lemma under_dir: "str_startswith (path_join d n) (d @ ''/'')"
  by (simp add: path_join_def str_startswith_def)

lemma write_bytes_confined:
  assumes "lawful_store h" "\<not> P p"
  shows "keeps (files_in h P) (write_bytes h p b)"
  using assms by (auto simp: keeps_def write_bytes_def files_in_eq_iff lawful_storeD(1) write_file_def)

lemma map_of_remove_tree:
  "p \<noteq> d \<Longrightarrow> \<not> str_startswith p (d @ ''/'') \<Longrightarrow> map_of (remove_tree d s) p = map_of s p"
  unfolding remove_tree_def by (induction s) auto

lemma in_temp_dir_confined:
  assumes h: "lawful_store h" and c: "confined h c P"
    and body: "\<And>d. (\<And>p. P p \<Longrightarrow> p \<noteq> d \<and> \<not> str_startswith p (d @ ''/'')) \<Longrightarrow> keeps (files_in h P) (body d)"
  shows "keeps (files_in h P) (in_temp_dir h c body)"
  unfolding keeps_def
proof
  fix w
  let ?d = "temp_dir c w"
  have out: "p \<noteq> ?d \<and> \<not> str_startswith p (?d @ ''/'')" if "P p" for p
    using c that by (simp add: confined_def)
  let ?w1 = "set_store h (make_dir ?d (store_of h w)) w"
  obtain r w2 where b: "body ?d ?w1 = (r, w2)" by fastforce
  have k: "files_in h P w2 = files_in h P ?w1"
    using keepsD [OF body b] out by blast
  have "files_in h P ?w1 = files_in h P w"
    using out by (auto simp: files_in_eq_iff lawful_storeD(1) [OF h] make_dir_def file_content_def)
  moreover have "files_in h P (set_store h (remove_tree ?d (store_of h w2)) w2) = files_in h P w2"
    using out by (simp add: files_in_eq_iff lawful_storeD(1) [OF h] map_of_remove_tree file_content_def)
  ultimately show "files_in h P (snd (in_temp_dir h c body w)) = files_in h P w"
    using b k by (simp add: in_temp_dir_def finallyP_def bindP_def)
qed

lemma client_confined:
  assumes h: "lawful_store h" and c: "confined h c P" and n: "\<not> P (ots_command c)"
    "\<not> P ''stamp''" "\<not> P ''upgrade''" "\<not> P ''verify''" "\<not> P ''-f''"
  shows "keeps (files_in h P) (submit h c payload)" "keeps (files_in h P) (upgrade h c prf payload)"
    "keeps (files_in h P) (verify h c prf payload)"
proof -
  have out: "\<not> P (path_join d x)" if "\<And>p. P p \<Longrightarrow> p \<noteq> d \<and> \<not> str_startswith p (d @ ''/'')" for d x
    using that under_dir by blast
  have out_ots: "\<not> P (path_join d ''payload'' @ ''.ots'')"
    if "\<And>p. P p \<Longrightarrow> p \<noteq> d \<and> \<not> str_startswith p (d @ ''/'')" for d
    using out [OF that, of "''payload.ots''"] by (simp add: path_join_def)
  show "keeps (files_in h P) (submit h c payload)"
    unfolding submit_def Let_def
    by (intro in_temp_dir_confined [OF h c] keeps_intros write_bytes_confined [OF h] invoke_confined [OF c])
      (auto simp: out n)
  show "keeps (files_in h P) (upgrade h c prf payload)"
    unfolding upgrade_def Let_def
    by (intro in_temp_dir_confined [OF h c] keeps_intros write_bytes_confined [OF h] invoke_confined [OF c])
      (auto simp: out n)
  show "keeps (files_in h P) (verify h c prf payload)"
    unfolding verify_def Let_def
    by (intro in_temp_dir_confined [OF h c] keeps_intros write_bytes_confined [OF h] invoke_confined [OF c])
      (auto simp: out n)
qed

section \<open>The writers\<close>

text \<open>\<open>b\<close> is a proof that binds the commit its file is named after.\<close>

definition binds_its_name :: "'w host \<Rightarrow> path \<Rightarrow> string \<Rightarrow> string \<Rightarrow> path \<Rightarrow> bytes \<Rightarrow> bool" where
  "binds_its_name h root d fmt p b \<longleftrightarrow>
     (\<exists>cid payload. p = path_join (path_join root d) (cid @ ''.ots'') \<and>
        build_payload fmt cid = Inr payload \<and>
        validate_detached_proof (digest h) b (Some payload) = Inr ())"

lemma write_atomically_unforced:
  "write_atomically h dir n content pre False w = (Inr p, w') \<Longrightarrow>
     file_content (path_join dir n) (store_of h w) \<in> {None, Some content}"
  by (auto simp: write_atomically_def atomic_write_def Let_def read_bytes_def path_exists_def file_content_def
      split: prod.splits if_splits option.splits entry.splits)

lemma write_atomically_evolves:
  assumes h: "lawful_store h" and n: "n = m @ ''.ots'' \<or> n = m @ ''.json''"
    and A: "A (path_join dir n) content" and f: "force \<longrightarrow> r"
  shows "within (evolves h P r A) (write_atomically h dir n content pre force)"
  unfolding within_def
proof
  fix w
  obtain res w' where w': "write_atomically h dir n content pre force w = (res, w')" by fastforce
  show "evolves h P r A w (snd (write_atomically h dir n content pre force w))"
  proof (cases res)
    case (Inl e)
    with write_atomically_failed [OF h n] w' show ?thesis by (simp add: evolves_def file_content_def)
  next
    case (Inr p)
    with w' have w: "write_atomically h dir n content pre force w = (Inr p, w')" by simp
    note d = write_atomically_done [OF h n w]
    show ?thesis
      unfolding evolves_def w snd_conv
    proof (intro allI impI)
      fix q
      have "file_content q (store_of h w') = file_content q (store_of h w)" if "q \<noteq> p"
        using d that by (simp add: file_content_def)
      moreover have "r \<or> file_content p (store_of h w) \<in> {None, Some content}"
        using f d w write_atomically_unforced [of h dir n content pre w p w'] by (cases force) auto
      ultimately show "file_content q (store_of h w') = file_content q (store_of h w) \<or>
        (r \<or> file_content q (store_of h w) = None) \<and> (\<exists>b. file_content q (store_of h w') = Some b \<and> A q b)"
        using d A by (cases "q = p") auto
    qed
  qed
qed

lemma check_binding_keeps: "keeps v (check_binding h b payload m)"
  by (auto simp: check_binding_def intro!: keeps_intros)

lemma resolve_proof_dir_keeps: "keeps v (resolve_proof_dir h root d)"
  by (auto simp: resolve_proof_dir_def Let_def intro!: keeps_intros)

lemma persist_evolves:
  assumes h: "lawful_store h"
  shows "within (evolves h P True (binds_its_name h root d fmt)) (persist_upgraded_proof h root d fmt cid b)"
    and "within (evolves h P r (binds_its_name h root d fmt)) (persist_proof h root d fmt cid b)"
proof -
  let ?A = "binds_its_name h root d fmt"
  have put: "within (evolves h P r ?A) (write_atomically h (path_join root d) (cid @ ''.ots'') b pre force)"
    if "build_payload fmt cid = Inr payload" "validate_detached_proof (digest h) b (Some payload) = Inr ()"
      "force \<longrightarrow> r"
    for payload pre force r
    by (rule write_atomically_evolves [OF h]) (use that in \<open>auto simp: binds_its_name_def\<close>)
  show "within (evolves h P True ?A) (persist_upgraded_proof h root d fmt cid b)"
    unfolding persist_upgraded_proof_def
    by (rule evolution.within_bind_result evolution.within_guard evolution.within_pure
        keeps_evolves [OF check_binding_keeps] keeps_evolves [OF resolve_proof_dir_keeps]
        | clarsimp simp: check_binding_Inr_iff resolve_proof_dir_Inr_iff put)+
  show "within (evolves h P r ?A) (persist_proof h root d fmt cid b)"
    unfolding persist_proof_def
    by (rule evolution.within_bind_result evolution.within_guard evolution.within_pure
        keeps_evolves [OF check_binding_keeps] keeps_evolves [OF resolve_proof_dir_keeps]
        | clarsimp simp: check_binding_Inr_iff resolve_proof_dir_Inr_iff put)+
qed

lemma persist_manifest_evolves:
  assumes h: "lawful_store h"
    and A: "\<And>cid. json_get_str m ''source_commit'' = Some cid \<Longrightarrow>
      A (path_join (path_join root d) (cid @ ''.json'')) (text_bytes (json_dumps (JObj m) @ [newline]))"
  shows "within (evolves h P r A) (persist_manifest h root d m)"
proof -
  have put: "within (evolves h P r A) (write_atomically h (path_join root d) (cid @ ''.json'')
      (text_bytes (json_dumps (JObj m) @ [newline])) pre False)"
    if "json_get_str m ''source_commit'' = Some cid" for cid pre
    by (rule write_atomically_evolves [OF h]) (use A [OF that] in auto)
  show ?thesis
    unfolding persist_manifest_def
    by (auto split: option.split intro!: evolution.within_bind_result evolution.within_pure
        keeps_evolves [OF resolve_proof_dir_keeps] simp: resolve_proof_dir_Inr_iff put)
qed

end
