(* ===== verification/Views.thy ===== *)
theory Views
  imports GitBaseline GitObjects
begin

text \<open>
  Which operations only read. A view \<open>v\<close> of the world that the reading commands of Git leave alone
  (the refs, the index, the files) is left alone by every operation built from them; one that all
  commands leave alone (the files outside the Git directory) by every operation there is.
\<close>

section \<open>Reading and writing commands\<close>

definition writes :: "string list \<Rightarrow> bool" where
  "writes args \<longleftrightarrow> (case args of [] \<Rightarrow> False
     | c # _ \<Rightarrow> c \<in> {''add'', ''commit'', ''tag'', ''fetch'', ''push''})"

lemma writes_Cons [simp]: "writes (c # args) \<longleftrightarrow> c \<in> {''add'', ''commit'', ''tag'', ''fetch'', ''push''}"
  by (simp add: writes_def)

definition quiet_reads :: "('w \<Rightarrow> 'v) \<Rightarrow> 'w host \<Rightarrow> bool" where
  "quiet_reads v h \<longleftrightarrow>
     (\<forall>args inp. \<not> writes args \<longrightarrow> keeps v (run_git h (''git'' # args) inp)) \<and>
     (\<forall>args inp. \<not> writes args \<longrightarrow> keeps v (run_git_bytes h (''git'' # args) inp)) \<and>
     (\<forall>d w. v (sleep h d w) = v w) \<and> (\<forall>m w. v (log_warning h m w) = v w)"

definition quiet_git :: "('w \<Rightarrow> 'v) \<Rightarrow> 'w host \<Rightarrow> bool" where
  "quiet_git v h \<longleftrightarrow>
     (\<forall>args inp. keeps v (run_git h (''git'' # args) inp)) \<and>
     (\<forall>args inp. keeps v (run_git_bytes h (''git'' # args) inp)) \<and>
     (\<forall>d w. v (sleep h d w) = v w) \<and> (\<forall>m w. v (log_warning h m w) = v w)"

lemma quiet_git_reads: "quiet_git v h \<Longrightarrow> quiet_reads v h"
  by (simp add: quiet_git_def quiet_reads_def)

named_theorems quiet_intros

lemma quiet_run [quiet_intros]:
  assumes "quiet_reads v h"
  shows "\<not> writes args \<Longrightarrow> keeps v (runner_run h args inp)"
    "\<not> writes args \<Longrightarrow> keeps v (runner_run_bytes h args inp)"
    "\<not> writes args \<Longrightarrow> keeps v (git_out h args)" "\<not> writes args \<Longrightarrow> keeps v (git_stripped h args)"
    "keeps v (doP (sleep h d))" "keeps v (doP (log_warning h m))"
  using assms by (auto simp: quiet_reads_def keeps_def [of v "doP _"] git_stripped_def
      intro!: keeps_intros keeps_run keeps_run_bytes keeps_git_out)

section \<open>Reading\<close>

lemma quiet_refs [quiet_intros]:
  assumes "quiet_reads v h"
  shows "keeps v (locate_repository h cwd)" "keeps v (detect_object_format h)"
    "keeps v (verify_commit h m n)" "keeps v (is_worktree_clean h)" "keeps v (marker_files h cwd)"
    "keeps v (marker_directories h cwd start)" "keeps v (discover_remote_for_ref h r)"
    "keeps v (paths_are_committed h ps)"
proof -
  show "keeps v (paths_are_committed h ps)"
    using assms by (induction ps) (auto intro!: keeps_intros quiet_intros)
qed (use assms in \<open>auto simp: locate_repository_def detect_object_format_def is_worktree_clean_def
      verify_commit_def marker_files_def marker_directories_def discover_remote_for_ref_def Let_def
      intro!: keeps_intros quiet_intros\<close>)

lemma quiet_source_ref [quiet_intros]:
  "quiet_reads v h \<Longrightarrow> keeps v (resolve_source_ref h r)"
  "quiet_reads v h \<Longrightarrow> keeps v (assert_committable_state h cwd b)"
  by (auto simp: resolve_source_ref_def assert_committable_state_def intro!: keeps_intros quiet_intros)

lemma quiet_history [quiet_intros]:
  assumes "quiet_reads v h"
  shows "keeps v (read_message_and_trailers h c)" "keeps v (list_changed_paths h c)"
    "keeps v (get_commit_parents h c)" "keeps v (log_generated_trailer_commit_ids h s)"
    "keeps v (log_commits h s)" "keeps v (range_spec_of h m n r b)"
  using assms by (auto simp: read_message_and_trailers_def list_changed_paths_def get_commit_parents_def
      log_generated_trailer_commit_ids_def log_commits_def range_spec_of_def Let_def
      intro!: keeps_intros quiet_intros)

lemma quiet_generated [quiet_intros]:
  assumes "quiet_reads v h"
  shows "keeps v (warn_when_generated_commit_changes_outside_paths h c d)"
    "keeps v (extract_generated_commit_sources h c)"
  using assms by (auto simp: warn_when_generated_commit_changes_outside_paths_def
      extract_generated_commit_sources_def extract_trailer_values_def intro!: keeps_intros quiet_intros)

lemma quiet_claims [quiet_intros]:
  assumes "quiet_reads v h"
  shows "keeps v (enumerate_generated_proof_commit_sources h r b d)"
    "keeps v (find_generated_proof_commits_claiming_source h s r b d)"
    "keeps v (filter_pending_meaningful_commits h r b d)"
proof -
  show e: "keeps v (enumerate_generated_proof_commit_sources h r b d)"
    using assms by (auto simp: enumerate_generated_proof_commit_sources_def intro!: keeps_intros quiet_intros)
  show "keeps v (find_generated_proof_commits_claiming_source h s r b d)"
    by (auto simp: find_generated_proof_commits_claiming_source_def intro!: keeps_intros e)
  have m: "keeps v (meaningful_commits h d g cs)" for g cs
    using assms by (induction cs) (auto intro!: keeps_intros quiet_intros)
  show "keeps v (filter_pending_meaningful_commits h r b d)"
    using assms m by (auto simp: filter_pending_meaningful_commits_def intro!: keeps_intros quiet_intros)
qed

lemma quiet_trees [quiet_intros]:
  assumes "quiet_reads v h"
  shows "keeps v (read_tree_text h c p)" "keeps v (read_tree_bytes h c p)"
    "keeps v (list_tree_proof_paths h c d)" "keeps v (is_ancestor_commit h s f)"
    "keeps v (find_generated_proof_commit_ancestors h s)" "keeps v (batch_read_tree_texts h specs)"
    "keeps v (order_commits_newest_first h s ids)"
  using assms by (auto simp: read_tree_text_def read_tree_bytes_def list_tree_proof_paths_def
      is_ancestor_commit_def find_generated_proof_commit_ancestors_def batch_read_tree_texts_def
      order_commits_newest_first_def Let_def intro!: keeps_intros quiet_intros)

lemma keeps_result [keeps_intros]:
  "(\<And>e. keeps v (f e)) \<Longrightarrow> (\<And>x. keeps v (g x)) \<Longrightarrow> keeps v (case r of Inl e \<Rightarrow> f e | Inr x \<Rightarrow> g x)"
  by (cases r) simp_all

lemma quiet_evidence [quiet_intros]:
  assumes "quiet_reads v h"
  shows "keeps v (has_generated_proof_commits_in_history h s)" "keeps v (list_tree_json_manifests h c d)"
    "keeps v (validate_proof_commit_manifest_content h c m d fmt f a)"
    "keeps v (read_committed_proof_evidence h s a d fmt)"
  using assms by (auto simp: has_generated_proof_commits_in_history_def list_tree_json_manifests_def
      validate_proof_commit_manifest_content_def read_committed_proof_evidence_def
      intro!: keeps_intros quiet_intros)

lemma quiet_search:
  assumes "\<And>m. keeps v (validate m)" "\<And>ids. keeps v (order ids)"
  shows "keeps v (search_groups validate order cs)"
  using assms
proof (induction validate order cs rule: search_groups.induct)
  case (2 validate order t m rest)
  have "keeps v (first_valid validate grp ids)" for grp ids
    using 2 by (induction ids) (auto intro!: keeps_intros)
  with 2 show ?case by (auto simp: Let_def intro!: keeps_intros)
qed (auto intro: keeps_intros)

lemma quiet_tags [quiet_intros]:
  assumes "quiet_reads v h"
  shows "keeps v (enumerate_timestamp_tags h p)" "keeps v (tag_candidates h s tags)"
  using assms by (auto simp: enumerate_timestamp_tags_def tag_candidates_def intro!: keeps_intros quiet_intros)

lemma quiet_baseline [quiet_intros]:
  "quiet_reads v h \<Longrightarrow> keeps v (find_newest_relevant_baseline h s p d fmt)"
  by (auto simp: find_newest_relevant_baseline_def find_tag_baseline_def find_proof_commit_baselines_def Let_def
      intro!: keeps_intros quiet_intros quiet_search split: list.split option.split)

lemma quiet_squashable [quiet_intros]:
  assumes "quiet_reads v h"
  shows "keeps v (amend_would_drop_a_signature h c sg)" "keeps v (is_published h c)"
    "keeps v (find_squashable_upgrade_commit h d c sg)"
  using assms unfolding find_squashable_upgrade_commit_def amend_would_drop_a_signature_def is_published_def
    commit_is_signed_def
  by (auto simp: Let_def amend_would_drop_a_signature_def is_published_def
    commit_is_signed_def intro!: keeps_intros quiet_intros)

lemma quiet_inspection [quiet_intros]:
  "keeps v (resolve_proof_dir h root d)" "keeps v (inspect_recovery_artifacts h root d fmt cid)"
  "keeps v (inspect_recovery_artifacts_if_present h root d fmt cid)"
  by (auto simp: resolve_proof_dir_def inspect_recovery_artifacts_def inspect_recovery_artifacts_if_present_def Let_def
      intro!: keeps_intros)

section \<open>Writing\<close>

lemma quiet_retry_loop:
  assumes "quiet_reads v h" "keeps v before" "keeps v (runner_run h args None)"
  shows "keeps v (retry_loop h n args deadline before backoff)"
  using assms by (induction n arbitrary: backoff) (auto simp: Let_def intro!: keeps_intros quiet_intros(5,6))

lemma quiet_retry:
  assumes "quiet_reads v h" "keeps v before" "keeps v (runner_run h args None)"
  shows "keeps v (run_with_index_lock_retry h args window before)"
  using assms by (auto simp: run_with_index_lock_retry_def intro!: keeps_intros quiet_retry_loop)

text \<open>Commands that leave a view alone whatever they are, or unless they make a tag.\<close>

lemma quiet_any: "quiet_git v h \<Longrightarrow> keeps v (runner_run h args inp)"
  by (auto simp: quiet_git_def intro: keeps_run)

definition quiet_but_tags :: "('w \<Rightarrow> 'v) \<Rightarrow> 'w host \<Rightarrow> bool" where
  "quiet_but_tags v h \<longleftrightarrow> quiet_reads v h \<and>
     (\<forall>args inp. (case args of c # _ \<Rightarrow> c \<noteq> ''tag'' | [] \<Rightarrow> True) \<longrightarrow> keeps v (run_git h (''git'' # args) inp))"

lemma quiet_but_tagsD:
  assumes "quiet_but_tags v h"
  shows "quiet_reads v h" "c \<noteq> ''tag'' \<Longrightarrow> keeps v (runner_run h (c # args) inp)"
  using assms by (auto simp: quiet_but_tags_def intro!: keeps_run)

lemma quiet_git_but_tags: "quiet_git v h \<Longrightarrow> quiet_but_tags v h"
  using quiet_git_reads [of v h] by (simp add: quiet_git_def quiet_but_tags_def)

lemma quiet_proof_commit [quiet_intros]:
  assumes "quiet_but_tags v h"
  shows "keeps v (stage_paths h paths window)" "keeps v (create_generated_proof_commit h srcs d paths sg window)"
  using assms quiet_but_tagsD [OF assms]
  unfolding stage_paths_def create_generated_proof_commit_def commit_argv_def
  by (auto intro!: keeps_intros quiet_retry quiet_intros(4))

lemma quiet_upgrades [quiet_intros]:
  assumes "quiet_git v h"
  shows "keeps v (create_upgrade_commit h srcs d paths sg window)"
    "keeps v (amend_upgrade_commit h hea prev srcs d paths sg window)"
  using assms quiet_git_reads [OF assms]
  unfolding create_upgrade_commit_def amend_upgrade_commit_def check_head_def
  by (auto simp: Let_def intro!: keeps_intros quiet_run quiet_retry quiet_any)

lemma quiet_tag [quiet_intros]:
  assumes "quiet_git v h"
  shows "keeps v (create_timestamp_tag h s p t prf tr ver sg)"
proof -
  have c: "keeps v (runner_run h args None)" for args
    by (rule quiet_any [OF assms])
  show ?thesis
    unfolding create_timestamp_tag_def Let_def git_out_def git_stripped_def
    by (auto intro!: keeps_intros c)
qed

end
