(* ===== verification/UpgradePass.thy ===== *)
theory UpgradePass
  imports UpgradeFacts Evolution Views
begin

text \<open>
  An upgrade pass as a whole: what it may do to the files of the repository, and that a dry run does
  nothing to them.
\<close>

section \<open>What a pass may write\<close>

text \<open>
  What an upgrade pass runs against, seen from the protected paths: the files are a file system,
  and neither Git, the client, the calendars nor the lock touches those paths.
\<close>

definition outside_world ::
    "'w host \<Rightarrow> 'w lock_access \<Rightarrow> 'w ots_cli \<Rightarrow> 'w fetcher \<Rightarrow> (path \<Rightarrow> bool) \<Rightarrow> bool" where
  "outside_world h L c fetch P \<longleftrightarrow>
     lawful_store h \<and> confined h c P \<and> quiet_git (files_in h P) h \<and>
     (\<forall>a \<in> {ots_command c, ''stamp'', ''upgrade'', ''verify'', ''-f''}. \<not> P a) \<and>
     (\<forall>u m. keeps (files_in h P) (fetch u m)) \<and>
     (\<forall>s w. files_in h P (set_locks L s w) = files_in h P w)"

lemma outside_worldD:
  assumes "outside_world h L c fetch P"
  shows "lawful_store h" "confined h c P" "quiet_git (files_in h P) h"
    "keeps (files_in h P) (upgrade h c b payload)" "keeps (files_in h P) (terminate_active_child c)"
    "keeps (files_in h P) (fetch u m)" "files_in h P (set_locks L s w) = files_in h P w"
  using assms client_confined(2) [of h c P b payload] terminate_confined [of h c P]
  by (auto simp: outside_world_def)

lemma collect_keeps:
  assumes "\<And>u m. keeps v (fetch u m)"
  shows "keeps v (collect_from_calendars h fetch b payload)"
  using assms unfolding collect_from_calendars_def collect_one_def
  by (auto simp: Let_def intro!: keeps_intros split: sum.split option.split)

lemma upgrade_pending_keeps:
  assumes "outside_world h L c fetch P"
  shows "keeps (files_in h P) (upgrade_pending h c ca)"
  using outside_worldD [OF assms] unfolding upgrade_pending_def
  by (auto intro!: keeps_intros)

lemma process_candidate_evolves:
  assumes "outside_world h L c fetch P"
  shows "within (evolves h P True (binds_its_name h root d fmt)) (process_candidate h c fetch root d fmt ca)"
  unfolding process_candidate_def Let_def
  by (rule evolution_intros keeps_evolves [OF upgrade_pending_keeps [OF assms]]
      keeps_evolves [OF collect_keeps [OF outside_worldD(6) [OF assms]]]
      persist_evolves [OF outside_worldD(1) [OF assms]])+

lemma stored_proof_case_keeps:
  "(\<And>x. keeps v (f x)) \<Longrightarrow> (\<And>x. keeps v (g x)) \<Longrightarrow>
     keeps v (case r of Settled x \<Rightarrow> f x | Open x \<Rightarrow> g x)"
  by (cases r) simp_all

lemma read_json_eq:
  "read_json h p w = (Inr (case file_content p (store_of h w) of None \<Rightarrow> None
     | Some raw \<Rightarrow> if utf8_valid raw then json_loads h (bytes_text raw) else None), w)"
  by (simp add: read_json_def catchP_def bindP_def read_file_def read_bytes_def split: option.split)

lemma classify_stored_keeps: "keeps v (classify_stored_proof h root d n fmt)"
  by (auto simp: classify_stored_proof_def read_json_def Let_def intro!: keeps_intros)

lemma scan_one_keeps:
  assumes "quiet_reads v h"
  shows "keeps v (scan_one h cfg root fmt n sc)"
  unfolding scan_one_def
  by (intro keeps_intros stored_proof_case_keeps classify_stored_keeps quiet_intros assms)

lemma squash_target_keeps: "quiet_reads v h \<Longrightarrow> keeps v (squash_target_of h cfg)"
  unfolding squash_target_of_def by (intro keeps_intros quiet_intros)

lemma commit_upgrades_keeps: "quiet_git v h \<Longrightarrow> keeps v (commit_upgrades h cfg srcs)"
  unfolding commit_upgrades_def Let_def
  by (intro keeps_intros quiet_intros squash_target_keeps quiet_git_reads quiet_git_but_tags)

lemma upgrade_locked_evolves:
  assumes "outside_world h L c fetch P"
  shows "within (evolves h P True (binds_its_name h root (uc_proof_directory cfg) fmt))
    (upgrade_locked h c fetch cfg dry root fmt)"
proof -
  note q = outside_worldD(3) [OF assms]
  note r = quiet_git_reads [OF q]
  have one: "within (evolves h P True (binds_its_name h root (uc_proof_directory cfg) fmt))
      (upgrade_one h c fetch cfg root fmt rec ca acc)" for rec ca acc
    unfolding upgrade_one_def Let_def
    by (rule evolution_intros process_candidate_evolves [OF assms])+
  show ?thesis
    unfolding upgrade_locked_def Let_def
    by (rule evolution_intros one keeps_evolves [OF scan_one_keeps [OF r]]
        keeps_evolves [OF commit_upgrades_keeps [OF q]] keeps_evolves [OF squash_target_keeps [OF r]]
        keeps_evolves [OF quiet_source_ref(2) [OF r]] keeps_evolves [OF quiet_refs(4) [OF r]])+
qed

lemma upgrade_locked_dry:
  assumes "quiet_reads v h"
  shows "keeps v (upgrade_locked h c fetch cfg True root fmt)"
  unfolding upgrade_locked_def Let_def if_True
  by (intro keeps_intros quiet_intros scan_one_keeps squash_target_keeps assms)

lemma with_lock_keeps:
  assumes "\<And>s w. v (set_locks L s w) = v w" "keeps v body"
  shows "keeps v (with_lock L d body)"
  using assms by (auto simp: keeps_def with_lock_def split: prod.splits sum.splits) (metis snd_conv)

lemma with_lock_evolves:
  assumes "outside_world h L c fetch P" "within (evolves h P r A) body"
  shows "within (evolves h P r A) (with_lock L d body)"
proof -
  have l: "files_in h P (set_locks L s w) = files_in h P w" for s w
    by (rule outside_worldD(7) [OF assms(1)])
  then have e: "evolves h P r A u (set_locks L s w) \<longleftrightarrow> evolves h P r A u w"
    "evolves h P r A (set_locks L s w) u \<longleftrightarrow> evolves h P r A w u" for s w u
    unfolding evolves_def files_in_eq_iff by simp_all
  from assms(2) show ?thesis
    by (auto simp: within_def with_lock_def e evolution.refl split: prod.splits sum.splits) (metis e(2) snd_conv)
qed

lemma evolves_mono: "within (evolves h P r A) m \<Longrightarrow> (\<And>p b. A p b \<Longrightarrow> B p b) \<Longrightarrow> within (evolves h P r B) m"
  unfolding within_def evolves_def by meson

definition example_locks :: "file_store lock_access" where
  "example_locks = \<lparr>locks_of = (\<lambda>_. \<lparr>lock_table = (\<lambda>_. None), open_fds = [],
     flocked = (\<lambda>_. None), lock_fault = (\<lambda>_. None)\<rparr>), set_locks = (\<lambda>_ w. w)\<rparr>"

definition example_config :: upgrade_config where
  "example_config = \<lparr>uc_proof_directory = ''proofs'', uc_commit = True, uc_squash_upgrade_commits = True,
     uc_require_clean_worktree = True, uc_signs_generated_objects = False\<rparr>"

lemma not_both: "str_startswith p (a @ b # x) \<Longrightarrow> str_startswith p (a @ c # y) \<Longrightarrow> b = c"
  unfolding str_startswith_def by (metis append_take_drop_id list.inject same_append_eq append.assoc append_Cons)

lemma example_outside_world:
  "outside_world zero_host example_locks idle_client example_fetch (\<lambda>p. str_startswith p ''/repo/'')"
  unfolding outside_world_def
proof (intro conjI)
  show "lawful_store zero_host"
    unfolding zero_host_def by (rule file_host_lawful)
  show "confined zero_host idle_client (\<lambda>p. str_startswith p ''/repo/'')"
    using not_both [of _ "''/''" "CHR ''r''" "''epo/''" "CHR ''t''" "''mp/t/''"]
    by (auto simp: confined_def idle_client_def keeps_def str_startswith_def [of "''/tmp/t''"])
  show "quiet_git (files_in zero_host (\<lambda>p. str_startswith p ''/repo/'')) zero_host"
    by (simp add: quiet_git_def keeps_def zero_host_def file_host_def)
  show "\<forall>a \<in> {ots_command idle_client, ''stamp'', ''upgrade'', ''verify'', ''-f''}. \<not> str_startswith a ''/repo/''"
    by (simp add: idle_client_def str_startswith_def)
qed (simp_all add: example_fetch_def example_locks_def keeps_def)

text \<open>
  C12: what an upgrade pass can do to the files. Whatever the calendars and the client answer, and
  wherever the pass stops, every protected file is as it was before, or it is a proof in the proof
  directory that binds the commit it is named after.
\<close>

theorem upgrade_pass_writes_proofs:
  assumes "outside_world h L c fetch P" "P p"
  shows "file_content p (store_of h (snd (upgrade_proofs h L c fetch cfg dry cwd w))) = file_content p (store_of h w) \<or>
    (\<exists>root fmt cid payload b.
       file_content p (store_of h (snd (upgrade_proofs h L c fetch cfg dry cwd w))) = Some b \<and>
       p = path_join (path_join root (uc_proof_directory cfg)) (cid @ ''.ots'') \<and>
       build_payload fmt cid = Inr payload \<and> validate_detached_proof (digest h) b (Some payload) = Inr ())"
proof -
  let ?B = "\<lambda>p b. \<exists>root fmt. binds_its_name h root (uc_proof_directory cfg) fmt p b"
  note r = quiet_git_reads [OF outside_worldD(3) [OF assms(1)]]
  have "within (evolves h P True ?B) (upgrade_proofs h L c fetch cfg dry cwd)"
    unfolding upgrade_proofs_def Let_def
    by (rule evolution_intros keeps_evolves [OF quiet_refs(1) [OF r]] keeps_evolves [OF quiet_refs(2) [OF r]]
        with_lock_evolves [OF assms(1)] evolves_mono [OF upgrade_locked_evolves [OF assms(1)]] | blast)+
  then show ?thesis using assms(2) unfolding within_def evolves_def binds_its_name_def by meson
qed

lemma upgrade_pass_writes_proofs_witness:
  "let s = snd (upgrade_proofs zero_host example_locks idle_client example_fetch example_config False ''/repo''
        [(''/repo/a'', RegularFile [1])]) in
     file_content ''/repo/a'' s = Some [1] \<or>
     (\<exists>root fmt cid payload b. file_content ''/repo/a'' s = Some b \<and>
        ''/repo/a'' = path_join (path_join root (uc_proof_directory example_config)) (cid @ ''.ots'') \<and>
        build_payload fmt cid = Inr payload \<and> validate_detached_proof zero_digest b (Some payload) = Inr ())"
  using upgrade_pass_writes_proofs [OF example_outside_world, of "''/repo/a''" example_config False "''/repo''" "[(''/repo/a'', RegularFile [1])]"]
  by (simp add: Let_def zero_host_def file_host_def str_startswith_def file_content_def)

text \<open>
  A dry run only reads. Whatever the reading commands of Git leave alone (refs, the index,
  objects, files) is after a dry run as it was before, however it ends; no client is started, no
  calendar asked, no writing command run.
\<close>

theorem dry_run_changes_nothing:
  assumes "quiet_reads v h" "\<And>s w. v (set_locks L s w) = v w"
  shows "v (snd (upgrade_proofs h L c fetch cfg True cwd w)) = v w"
proof -
  have "keeps v (upgrade_proofs h L c fetch cfg True cwd)"
    unfolding upgrade_proofs_def Let_def
    by (intro keeps_intros quiet_refs [OF assms(1)] with_lock_keeps upgrade_locked_dry [OF assms(1)] assms(2))
  then show ?thesis by (simp add: keeps_def)
qed

lemma file_host_reads: "quiet_reads v (file_host loads isofmt H)"
  by (simp add: quiet_reads_def keeps_def file_host_def)

lemma dry_run_changes_nothing_witness:
  "snd (upgrade_proofs zero_host example_locks idle_client example_fetch example_config True ''/repo''
     [(''/repo/a'', RegularFile [1])]) = [(''/repo/a'', RegularFile [1])]"
  by (rule dry_run_changes_nothing [where v = "\<lambda>w. w"])
    (simp_all add: zero_host_def file_host_reads example_locks_def)

lemma persist_upgraded_done:
  assumes "lawful_store h" "persist_upgraded_proof h root d fmt cid b w = (Inr p, w')"
  shows "p = path_join (path_join root d) (cid @ ''.ots'') \<and> file_content p (store_of h w') = Some b \<and>
    (\<exists>payload. build_payload fmt cid = Inr payload \<and>
       validate_detached_proof (digest h) b (Some payload) = Inr ()) \<and>
    (\<forall>q. q \<noteq> p \<longrightarrow> file_content q (store_of h w') = file_content q (store_of h w))"
proof -
  from assms(2) obtain payload where "build_payload fmt cid = Inr payload"
    "validate_detached_proof (digest h) b (Some payload) = Inr ()"
    "write_atomically h (path_join root d) (cid @ ''.ots'') b (''.'' @ cid @ ''.'') True w = (Inr p, w')"
    by (auto simp: persist_upgraded_proof_def bindP_Inr_iff check_binding_Inr_iff resolve_proof_dir_Inr_iff)
  with write_atomically_done [OF assms(1) disjI1 [OF refl]] show ?thesis
    unfolding file_content_def by metis
qed

end
