(* ===== verification/VerifyFacts.thy ===== *)
theory VerifyFacts
  imports Verify UpgradePass
begin

text \<open>
  What the reports of \<open>verify.py\<close> mean, and that making them changes nothing.
\<close>

section \<open>Reading only\<close>

lemma git_succeeds_keeps: "quiet_reads v h \<Longrightarrow> \<not> writes args \<Longrightarrow> keeps v (git_succeeds h args)"
  by (auto simp: git_succeeds_def intro!: keeps_intros quiet_intros)

lemma source_commit_status_keeps: "quiet_reads v h \<Longrightarrow> keeps v (source_commit_status h s f)"
  by (auto simp: source_commit_status_def intro!: keeps_intros git_succeeds_keeps)

lemma read_json_keeps: "keeps v (read_json h p)"
  by (auto simp: read_json_def intro!: keeps_intros)

lemma validate_single_keeps:
  assumes "quiet_reads v h"
  shows "keeps v (validate_single_proof h root d n frozen tagged)"
  unfolding validate_single_proof_def validate_against_source_def Let_def
  by (auto intro!: keeps_intros read_json_keeps source_commit_status_keeps [OF assms])

lemma validate_proofs_keeps:
  assumes "quiet_reads v h"
  shows "keeps v (validate_proofs h cwd cfg ds)"
  using assms unfolding validate_proofs_def validate_directory_def discover_directories_def Let_def
  by (auto intro!: keeps_intros quiet_intros validate_single_keeps)

lemma verify_one_keeps:
  assumes "\<And>b m. keeps v (client b m)"
  shows "keeps v (verify_one h client root r)"
  unfolding verify_one_def by (auto intro!: keeps_intros assms)

text \<open>
  \<open>validate\<close> and \<open>verify\<close> only read. Whatever the reading commands of Git leave alone, and the
  client in the case of \<open>verify\<close>, is as it was before, however they end.
\<close>

theorem verification_only_reads:
  assumes "quiet_reads v h" "\<And>b m. keeps v (client b m)"
  shows "v (snd (validate_proofs h cwd cfg ds w)) = v w \<and>
    v (snd (verify_proofs h client cwd cfg ds w)) = v w"
proof -
  have "keeps v (verify_proofs h client cwd cfg ds)"
    using assms unfolding verify_proofs_def
    by (auto intro!: keeps_intros quiet_intros validate_proofs_keeps verify_one_keeps)
  with validate_proofs_keeps [OF assms(1)] show ?thesis by (simp add: keeps_def)
qed

lemma verification_only_reads_witness:
  "snd (verify_proofs zero_host (\<lambda>_ _. ret \<lparr>vt_verified = True, vt_detail = []\<rparr>) ''/repo'' default_git None
     [(''/repo/a'', RegularFile [1])]) = [(''/repo/a'', RegularFile [1])]"
  using verification_only_reads [of "\<lambda>w. w" zero_host "\<lambda>_ _. ret \<lparr>vt_verified = True, vt_detail = []\<rparr>"
      "''/repo''" default_git None "[(''/repo/a'', RegularFile [1])]"]
  by (simp add: zero_host_def file_host_reads keeps_def)

section \<open>The verdict on one proof\<close>

lemma git_succeeds_fixed:
  assumes "fixed_git h g"
  shows "git_succeeds h args w = (Inr (answer_code g args = 0), w)"
  using assms by (cases "g args None")
    (simp add: git_succeeds_def catchP_def bindP_def runner_run_def fixed_git_def answer_code_def Let_def)

definition verdict :: "answers \<Rightarrow> commit_id \<Rightarrow> commit_id \<Rightarrow> bool \<Rightarrow> proof_state" where
  "verdict g source frozen bitcoin =
     (if answer_code g [''rev-parse'', ''--verify'', source @ ''^{commit}''] \<noteq> 0 then UNKNOWN_SOURCE
      else if \<not> ancestor_in g source frozen then ORPHANED
      else if bitcoin then VALID else PENDING_ATTESTATION)"

lemma source_commit_status_fixed:
  assumes "fixed_git h g"
  shows "source_commit_status h s frozen w =
    (Inr (if answer_code g [''rev-parse'', ''--verify'', s @ ''^{commit}''] \<noteq> 0 then UNKNOWN_SOURCE
      else if ancestor_in g s frozen then VALID else ORPHANED), w)"
  by (simp add: source_commit_status_def bindP_def git_succeeds_fixed [OF assms] ancestor_in_def)

text \<open>What the manifest at a path says, and that the file at a path is a proof for it.\<close>

definition manifest_names :: "'w host \<Rightarrow> path \<Rightarrow> 'w \<Rightarrow> commit_id \<Rightarrow> string \<Rightarrow> bool" where
  "manifest_names h p w source fmt \<longleftrightarrow>
     (\<exists>raw m. file_content p (store_of h w) = Some raw \<and> utf8_valid raw \<and>
        json_loads h (bytes_text raw) = Some (JObj m) \<and> json_get_str m ''source_commit'' = Some source \<and>
        json_get_str m ''git_object_format'' = Some fmt)"

definition binding_file :: "'w host \<Rightarrow> path \<Rightarrow> 'w \<Rightarrow> commit_id \<Rightarrow> string \<Rightarrow> string \<Rightarrow> bool" where
  "binding_file h p w source fmt attestation \<longleftrightarrow>
     (\<exists>b payload. file_content p (store_of h w) = Some b \<and> build_payload fmt source = Inr payload \<and>
        validate_detached_proof (digest h) b (Some payload) = Inr () \<and> classify_detached_proof b = Inr attestation)"

definition accepted_proof ::
    "'w host \<Rightarrow> path \<Rightarrow> path \<Rightarrow> string \<Rightarrow> 'w \<Rightarrow> commit_id \<Rightarrow> string \<Rightarrow> string \<Rightarrow> bool" where
  "accepted_proof h root d n w source fmt attestation \<longleftrightarrow>
     manifest_names h (path_join (dir_under root d) (stem n @ ''.json'')) w source fmt \<and>
     binding_file h (path_join root (rel_path d n)) w source fmt attestation"

lemma manifest_claim_Inr:
  "manifest_claim j = Inr (source, fmt) \<longleftrightarrow> (\<exists>m. j = Some (JObj m) \<and>
     json_get_str m ''source_commit'' = Some source \<and> json_get_str m ''git_object_format'' = Some fmt)"
  by (auto simp: manifest_claim_def split: option.splits json.splits)

lemma classify_error:
  assumes "classify_detached_proof b = Inl e"
  shows "is_ValueError e"
proof -
  have "is_ProofParseError e" if "parse_timestamp_tree b off = Inl e" for off
    using that parse_timestamp_fuel [of b off] parse_node_raises(1) [of "parse_fuel b" b off 0]
    by (auto simp: parse_timestamp_tree_eq forget_def scan_error_def parse_timestamp_def parser_error_def
        split: sum.splits if_splits)
  with assms show ?thesis
    by (auto simp: classify_detached_proof_def guardE_def Let_def bindE_Inl_iff split: if_splits option.splits)
qed

lemma against_source_fixed:
  assumes g: "fixed_git h g"
  shows "\<exists>r. validate_against_source h root rel source fmt frozen tagged w = (Inr r, w) \<and> vr_proof_path r = rel \<and>
    (vr_state r = INVALID \<longleftrightarrow> \<not> (\<exists>attestation. binding_file h (path_join root rel) w source fmt attestation)) \<and>
    (\<forall>attestation. binding_file h (path_join root rel) w source fmt attestation \<longrightarrow>
       vr_source_commit_id r = source \<and> vr_object_format r = fmt \<and>
       vr_has_bitcoin_attestation r = (attestation = ''valid'') \<and>
       vr_state r = verdict g source frozen (attestation = ''valid'') \<and>
       (vr_has_timestamp_tag r \<longleftrightarrow> source \<in> set tagged))"
proof (cases "build_payload fmt source")
  case (Inl e)
  then show ?thesis
    by (simp add: validate_against_source_def invalid_proof_def binding_file_def)
next
  case (Inr payload)
  let ?read = "bindP (read_file h (path_join root rel)) (\<lambda>data.
      bindP (liftE (validate_detached_proof (digest h) data (Some payload))) (\<lambda>_.
      bindP (liftE (classify_detached_proof data)) (\<lambda>s. ret (Some s))))"
  show ?thesis
  proof (cases "\<exists>attestation. binding_file h (path_join root rel) w source fmt attestation")
    case True
    then obtain b a where b: "file_content (path_join root rel) (store_of h w) = Some b"
      "validate_detached_proof (digest h) b (Some payload) = Inr ()" "classify_detached_proof b = Inr a"
      using Inr by (auto simp: binding_file_def)
    then have "?read w = (Inr (Some a), w)"
      by (simp add: bindP_def read_file_def read_bytes_def)
    then show ?thesis
      using b Inr by (auto simp: validate_against_source_def bindP_def catchP_def source_commit_status_fixed [OF g]
          binding_file_def verdict_def final_state_def Let_def)
  next
    case False
    have "\<exists>e. ?read w = (Inl e, w) \<and> (is_OSError e \<or> is_ValueError e)"
    proof (cases "file_content (path_join root rel) (store_of h w)")
      case None
      then show ?thesis by (simp add: bindP_def read_file_def read_bytes_def)
    next
      case (Some b)
      then have "?read w = (case validate_detached_proof (digest h) b (Some payload) of Inl e \<Rightarrow> (Inl e, w)
          | Inr _ \<Rightarrow> (case classify_detached_proof b of Inl e \<Rightarrow> (Inl e, w) | Inr a \<Rightarrow> (Inr (Some a), w)))"
        by (simp add: bindP_def read_file_def read_bytes_def liftE_def split: sum.split)
      with False Some Inr show ?thesis
        by (auto simp: binding_file_def dest: classify_error validate_error split: sum.splits)
    qed
    then show ?thesis
      using False Inr by (auto simp: validate_against_source_def bindP_def catchP_def invalid_proof_def)
  qed
qed

text \<open>
  C22: the validation of a stored proof, on every path. On a repository that does not change
  meanwhile it always returns a report on this file and writes nothing. The report is \<open>invalid\<close>
  exactly when there is no readable manifest beside the proof that names a commit and an object format such that the
  file is a well-formed proof of the canonical payload of that commit. Otherwise it is about that
  commit: its state says whether the commit exists, is an ancestor of the source, and whether the proof has a
  Bitcoin attestation, in this order, and it counts as tagged exactly when a tag names the commit.
\<close>

theorem validated_proof_verdict:
  assumes g: "fixed_git h g"
  shows "\<exists>r. validate_single_proof h root d n frozen tagged w = (Inr r, w) \<and> vr_proof_path r = rel_path d n \<and>
    (vr_state r = INVALID \<longleftrightarrow> \<not> (\<exists>source fmt attestation. accepted_proof h root d n w source fmt attestation)) \<and>
    (\<forall>source fmt attestation. accepted_proof h root d n w source fmt attestation \<longrightarrow>
       vr_source_commit_id r = source \<and> vr_object_format r = fmt \<and>
       vr_has_bitcoin_attestation r = (attestation = ''valid'') \<and>
       vr_state r = verdict g source frozen (attestation = ''valid'') \<and>
       (vr_has_timestamp_tag r \<longleftrightarrow> source \<in> set tagged))"
proof -
  let ?m = "path_join (dir_under root d) (stem n @ ''.json'')"
  let ?j = "case file_content ?m (store_of h w) of None \<Rightarrow> None
     | Some raw \<Rightarrow> if utf8_valid raw then json_loads h (bytes_text raw) else None"
  have names: "manifest_names h ?m w source fmt \<longleftrightarrow> manifest_claim ?j = Inr (source, fmt)" for source fmt
    by (auto simp: manifest_names_def manifest_claim_Inr split: option.splits if_splits)
  have single: "validate_single_proof h root d n frozen tagged w =
      (case manifest_claim ?j of
         Inl (source, reason) \<Rightarrow>
           if is_file ?m (store_of h w) then (Inr (invalid_proof (rel_path d n) source reason), w)
           else (Inr (invalid_proof (rel_path d n) [] (''manifest missing: '' @ stem n @ ''.json'')), w)
       | Inr (source, fmt) \<Rightarrow> validate_against_source h root (rel_path d n) source fmt frozen tagged w)"
    by (auto simp: validate_single_proof_def Let_def bindP_def read_json_eq is_file_def manifest_claim_def
        split: sum.split option.split)
  show ?thesis
  proof (cases "manifest_claim ?j")
    case (Inl c)
    then show ?thesis
      unfolding accepted_proof_def names single by (cases c) (simp add: invalid_proof_def)
  next
    case (Inr c)
    obtain source fmt where "c = (source, fmt)" by (cases c)
    with Inr against_source_fixed [OF g, of root "rel_path d n" source fmt frozen tagged w] show ?thesis
      unfolding accepted_proof_def names single by auto
  qed
qed

definition example_validation_host :: "file_store host" where
  "example_validation_host = zero_host\<lparr>run_git := (\<lambda>_ _ w. (Inr (0, [], []), w)),
     json_loads := (\<lambda>_. Some (JObj [(''source_commit'', JStr example_commit),
       (''git_object_format'', JStr ''sha1'')]))\<rparr>"

definition example_validation_files :: file_store where
  "example_validation_files = [(''/repo/proofs'', Directory), (''/repo/proofs/x.ots'', RegularFile completed_proof),
     (''/repo/proofs/x.json'', RegularFile [])]"

lemma example_accepted:
  "accepted_proof example_validation_host ''/repo'' ''proofs'' ''x.ots'' example_validation_files
     example_commit ''sha1'' ''valid''"
proof -
  have "case build_payload ''sha1'' example_commit of Inr p \<Rightarrow>
        validate_detached_proof zero_digest completed_proof (Some p) = Inr () | Inl _ \<Rightarrow> False"
    and "classify_detached_proof completed_proof = Inr ''valid''"
    and "stem ''x.ots'' = ''x''" and "utf8_valid []" by code_simp+
  then show ?thesis
    by (auto simp: accepted_proof_def manifest_names_def binding_file_def example_validation_files_def path_join_def
        dir_under_def rel_path_def example_validation_host_def zero_host_def file_host_def file_content_def
        json_get_str_def json_get_def split: sum.splits)
qed

lemma validated_proof_verdict_witness:
  "\<exists>r. validate_single_proof example_validation_host ''/repo'' ''proofs'' ''x.ots'' ''c'' [] example_validation_files =
       (Inr r, example_validation_files) \<and>
     vr_source_commit_id r = example_commit \<and> vr_state r = VALID"
proof -
  have "fixed_git example_validation_host (\<lambda>_ _. (0, [], []))"
    by (simp add: fixed_git_def example_validation_host_def)
  moreover have "verdict (\<lambda>_ _. (0, [], [])) example_commit ''c'' True = VALID"
    by (simp add: verdict_def ancestor_in_def answer_code_def)
  ultimately show ?thesis
    using validated_proof_verdict [of example_validation_host "\<lambda>_ _. (0, [], [])" "''/repo''" "''proofs''" "''x.ots''"
        "''c''" "[]" example_validation_files] example_accepted by fastforce
qed

section \<open>The verdict of the client\<close>

lemma mapP_member:
  "mapP f xs w = (Inr ys, w') \<Longrightarrow> y \<in> set ys \<Longrightarrow> \<exists>x \<in> set xs. \<exists>w1 w2. f x w1 = (Inr y, w2)"
  by (induction xs arbitrary: w ys) (fastforce simp: bindP_Inr_iff)+

lemma verify_confirmed:
  assumes "lawful_store h" "verify h c b payload w = (Inr a, w')" "vt_verified a"
  shows "validate_detached_proof (digest h) b (Some payload) = Inr () \<and>
    (\<exists>d u u' out err. file_content (path_join d ''payload'') (store_of h u) = Some payload \<and>
       file_content (path_join d ''proof.ots'') (store_of h u) = Some b \<and>
       invoke c [ots_command c, ''verify'', ''-f'', path_join d ''payload'', path_join d ''proof.ots''] u =
         (Inr (0, out, err), u'))"
proof -
  have paths: "path_join d ''payload'' \<noteq> path_join d ''proof.ots''" for d by (simp add: path_join_def)
  from assms(2,3) obtain d w1 w2 out err where v: "validate_detached_proof (digest h) b (Some payload) = Inr ()" and
    run: "bindP (write_bytes h (path_join d ''payload'') payload) (\<lambda>_.
      bindP (write_bytes h (path_join d ''proof.ots'') b) (\<lambda>_.
      catchP (invoke c [ots_command c, ''verify'', ''-f'', path_join d ''payload'', path_join d ''proof.ots'']) is_OSError
        (\<lambda>_. raiseP (VerificationError 127 (encode_ascii ''OpenTimestamps client not found''))))) w1 =
      (Inr (0, out, err), w2)"
    unfolding verify_def by (auto simp: bindP_Inr_iff catchP_Inr_iff Let_def dest!: in_temp_dir_Inr)
  let ?u1 = "set_store h (write_file (path_join d ''payload'') payload (store_of h w1)) w1"
  let ?u = "set_store h (write_file (path_join d ''proof.ots'') b (store_of h ?u1)) ?u1"
  have "invoke c [ots_command c, ''verify'', ''-f'', path_join d ''payload'', path_join d ''proof.ots''] ?u =
      (Inr (0, out, err), w2)"
    using run by (auto simp: bindP_Inr_iff catchP_Inr_iff write_bytes_def)
  moreover have "file_content (path_join d ''payload'') (store_of h ?u) = Some payload"
    "file_content (path_join d ''proof.ots'') (store_of h ?u) = Some b"
    using paths by (simp_all add: lawful_storeD(1) [OF assms(1)] write_file_def)
  ultimately show ?thesis using v by blast
qed

text \<open>
  The client confirmed these bytes for this commit: they bind its canonical payload, and the program,
  given exactly these bytes and that payload as files, exited with success.
\<close>

definition confirmed_by :: "'w host \<Rightarrow> 'w ots_cli \<Rightarrow> bytes \<Rightarrow> commit_id \<Rightarrow> bool" where
  "confirmed_by h c b source \<longleftrightarrow> (\<exists>fmt payload d u u' out err.
     build_payload fmt source = Inr payload \<and>
     validate_detached_proof (digest h) b (Some payload) = Inr () \<and>
     file_content (path_join d ''payload'') (store_of h u) = Some payload \<and>
     file_content (path_join d ''proof.ots'') (store_of h u) = Some b \<and>
     invoke c [ots_command c, ''verify'', ''-f'', path_join d ''payload'', path_join d ''proof.ots''] u =
       (Inr (0, out, err), u'))"

lemma mapP_member_kept:
  assumes "mapP f xs w = (Inr ys, w')" "y \<in> set ys" "\<And>x. keeps v (f x)"
  shows "\<exists>x \<in> set xs. \<exists>w1 w2. f x w1 = (Inr y, w2) \<and> v w1 = v w"
  using assms(1,2)
proof (induction xs arbitrary: w ys)
  case (Cons x xs)
  then obtain z w1 zs where x: "f x w = (Inr z, w1)" and xs: "mapP f xs w1 = (Inr zs, w')" and ys: "ys = z # zs"
    by (auto simp: bindP_Inr_iff)
  have "v w1 = v w" by (rule keepsD [OF assms(3) x])
  with x Cons.IH [OF xs] Cons.prems(2) ys show ?case by fastforce
qed simp

text \<open>
  What \<open>verified\<close> means. The stored proof of the report was confirmed for the commit of the
  report, with the bytes it had when the verification began as far as its file is one that nothing of
  the verification changes; validation had found the proof neither invalid nor without a Bitcoin attestation.
\<close>

theorem verified_means_confirmed:
  assumes h: "lawful_store h" "quiet_reads (files_in h P) h" "\<And>b m. keeps (files_in h P) (verify h c b m)"
    and r: "verify_proofs h (verify h c) cwd cfg ds w = (Inr rs, w')" "r \<in> set rs" "vf_state r = VERIFIED"
  shows "vf_validation_state r \<noteq> INVALID \<and>
    (\<exists>layout u u' b. locate_repository h cwd u = (Inr layout, u') \<and> confirmed_by h c b (vf_source_commit_id r) \<and>
       (P (path_join (worktree_root layout) (vf_proof_path r)) \<longrightarrow>
          file_content (path_join (worktree_root layout) (vf_proof_path r)) (store_of h w) = Some b))"
proof -
  let ?v = "files_in h P"
  from r(1,2) obtain vs w1 layout w2 where vs: "validate_proofs h cwd cfg ds w = (Inr vs, w1)"
    and l: "locate_repository h cwd w1 = (Inr layout, w2)"
    and m: "mapP (verify_one h (verify h c) (worktree_root layout)) vs w2 = (Inr rs, w')"
    by (auto simp: verify_proofs_def bindP_Inr_iff split: if_splits)
  obtain v w3 w4 where o: "verify_one h (verify h c) (worktree_root layout) v w3 = (Inr r, w4)" and "?v w3 = ?v w2"
    using mapP_member_kept [OF m r(2), of ?v] verify_one_keeps [of ?v "verify h c" h] h(3) by blast
  moreover have "?v w2 = ?v w1" by (rule keepsD [OF quiet_refs(1) [OF h(2)] l])
  moreover have "?v w1 = ?v w" by (rule keepsD [OF validate_proofs_keeps [OF h(2)] vs])
  ultimately have same: "P p \<longrightarrow> file_content p (store_of h w3) = file_content p (store_of h w)" for p
    by (simp add: files_in_eq_iff)
  from o r(3) obtain b payload a u where v: "vr_state v \<noteq> INVALID" "vf_validation_state r = vr_state v"
      "vf_proof_path r = vr_proof_path v" "vf_source_commit_id r = vr_source_commit_id v"
    and b: "file_content (path_join (worktree_root layout) (vr_proof_path v)) (store_of h w3) = Some b"
      "build_payload (vr_object_format v) (vr_source_commit_id v) = Inr payload"
    and a: "verify h c b payload u = (Inr a, w4)" "vt_verified a"
    by (auto simp: verify_one_def bindP_Inr_iff catchP_Inr_iff chain_result_def read_file_def read_bytes_def
        split: if_splits option.splits sum.splits)
  have "confirmed_by h c b (vf_source_commit_id r)"
    using verify_confirmed [OF h(1) a] b(2) v(4) unfolding confirmed_by_def by metis
  with l v b(1) same show ?thesis by metis
qed

definition confirming_client :: "file_store ots_cli" where
  "confirming_client = idle_client\<lparr>call_runner := (\<lambda>_ w. (Inr (0, [], []), w))\<rparr>"

definition example_verifying_host :: "file_store host" where
  "example_verifying_host = example_validation_host\<lparr>run_git := (\<lambda>_ _ w. (Inr (0, ''/repo'', []), w))\<rparr>"

lemma example_verification:
  "fst (verify_proofs example_verifying_host (verify example_verifying_host confirming_client) ''/repo'' default_git
     (Some [''proofs'']) example_validation_files) =
   Inr [\<lparr>vf_proof_path = ''proofs/x.ots'', vf_source_commit_id = example_commit, vf_validation_state = VALID,
     vf_state = VERIFIED, vf_reason = ''Bitcoin attestation confirmed by the configured node''\<rparr>]"
  by code_simp

text \<open>Its program leaves everything alone, so that a verification changes nothing outside its temporary directory.\<close>

lemma temp_dir_only:
  assumes "lawful_store h" "\<And>p w. P p \<Longrightarrow> p \<noteq> temp_dir c w \<and> \<not> str_startswith p (temp_dir c w @ ''/'')"
    and "\<And>av w. snd (call_runner c av w) = w" "\<And>av w. snd (join_worker c av w) = w"
    and "\<And>pgid w. kill_group c pgid w = w"
  shows "keeps (files_in h P) (verify h c b m)"
proof -
  have c: "confined h c P" using assms(2-5) by (auto simp: confined_def keeps_def)
  have t: "snd (terminate_active_child c w) = w" for w
    using assms(5) by (simp add: terminate_active_child_def split: option.split)
  have "snd (invoke c av w) = w" for av w
    using assms(3) [of av w] assms(4) [of av w] t [of "snd (join_worker c av w)"]
    by (auto simp: invoke_def bindP_def terminate_active_child_def split: option.split prod.split)
  then have "keeps (files_in h P) (invoke c av)" for av by (simp add: keeps_def)
  moreover have "\<not> P (path_join d x)" if "\<And>p. P p \<Longrightarrow> p \<noteq> d \<and> \<not> str_startswith p (d @ ''/'')" for d x
    using that under_dir by blast
  ultimately show ?thesis
    unfolding verify_def Let_def
    by (intro keeps_intros in_temp_dir_confined [OF assms(1) c] write_bytes_confined [OF assms(1)]) auto
qed

lemma outside_repo: "str_startswith p ''/repo/'' \<Longrightarrow> p \<noteq> ''/tmp/t'' \<and> \<not> str_startswith p ''/tmp/t/''"
  using not_both [of p "''/''" "CHR ''r''" "''epo/''" "CHR ''t''" "''mp/t/''"]
  by (auto simp: str_startswith_def [of "''/tmp/t''"])

lemma example_verifying:
  "lawful_store example_verifying_host" "quiet_reads v example_verifying_host"
  "keeps (files_in example_verifying_host (\<lambda>p. str_startswith p ''/repo/''))
     (verify example_verifying_host confirming_client b m)"
proof -
  show l: "lawful_store example_verifying_host"
    using file_host_lawful by (simp add: example_verifying_host_def example_validation_host_def zero_host_def lawful_store_def)
  show "quiet_reads v example_verifying_host"
    by (simp add: quiet_reads_def keeps_def example_verifying_host_def example_validation_host_def zero_host_def file_host_def)
  show "keeps (files_in example_verifying_host (\<lambda>p. str_startswith p ''/repo/''))
     (verify example_verifying_host confirming_client b m)"
    by (rule temp_dir_only [OF l]) (use outside_repo in \<open>auto simp: confirming_client_def idle_client_def\<close>)
qed

lemma verified_means_confirmed_witness:
  "\<exists>b. confirmed_by example_verifying_host confirming_client b example_commit"
proof -
  obtain w' where "verify_proofs example_verifying_host (verify example_verifying_host confirming_client) ''/repo''
      default_git (Some [''proofs'']) example_validation_files =
    (Inr [\<lparr>vf_proof_path = ''proofs/x.ots'', vf_source_commit_id = example_commit, vf_validation_state = VALID,
       vf_state = VERIFIED, vf_reason = ''Bitcoin attestation confirmed by the configured node''\<rparr>], w')"
    using example_verification by (metis prod.collapse)
  from verified_means_confirmed [OF example_verifying this] show ?thesis by auto
qed

end
