(* ===== verification/RepairFacts.thy ===== *)
theory RepairFacts
  imports Repair VerifyFacts
begin

text \<open>
  What \<open>repair\<close> writes: tags that say what the stored manifests say, and nothing in a dry run.
\<close>

lemma source_is_on_lineage_keeps: "quiet_reads v h \<Longrightarrow> keeps v (source_is_on_lineage h s f)"
  by (auto simp: source_is_on_lineage_def intro!: keeps_intros git_succeeds_keeps)

lemma try_recover_keeps: "keeps v (try_recover h root d fmt cid)"
  by (auto simp: try_recover_def intro!: keeps_intros quiet_intros)

lemma repair_one_dry:
  "quiet_reads v h \<Longrightarrow> keeps v (repair_one h version cfg root d True fmt frozen tagged s)"
  unfolding repair_one_def Let_def
  by (auto intro!: keeps_intros source_is_on_lineage_keeps try_recover_keeps)

lemma repair_locked_dry:
  "quiet_reads v h \<Longrightarrow> keeps v (repair_locked h version cfg root d True fmt)"
  unfolding repair_locked_def repair_file_def
  by (auto intro!: keeps_intros quiet_intros repair_one_dry)

text \<open>
  A dry run of \<open>repair\<close> only reads: whatever the reading commands of Git and the lock leave alone
  is as it was before, so that no tag is created.
\<close>

theorem repair_dry_run_reads:
  assumes "quiet_reads v h" "\<And>s w. v (set_locks L s w) = v w"
  shows "v (snd (repair_missing_tags h L version cfg proof_cfg True cwd w)) = v w"
proof -
  have "keeps v (repair_missing_tags h L version cfg proof_cfg True cwd)"
    unfolding repair_missing_tags_def Let_def
    by (intro keeps_intros quiet_intros with_lock_keeps repair_locked_dry assms)
  then show ?thesis by (simp add: keeps_def)
qed

lemma repair_dry_run_reads_witness:
  "snd (repair_missing_tags zero_host example_locks ''1.0'' default_git default_proof True ''/repo''
     [(''/repo/a'', RegularFile [1])]) = [(''/repo/a'', RegularFile [1])]"
  by (rule repair_dry_run_reads [where v = "\<lambda>w. w"])
    (simp_all add: zero_host_def file_host_reads example_locks_def)

lemma try_recover_Some:
  assumes "try_recover h root d fmt cid w = (Inr (Some e), w')"
  shows "w' = w \<and> ev_source_commit_id e = cid \<and> ev_proof_name e = cid @ ''.ots'' \<and> (\<exists>b payload raw m.
    file_content (path_join (path_join root d) (cid @ ''.ots'')) (store_of h w) = Some b \<and>
    build_payload fmt cid = Inr payload \<and> validate_detached_proof (digest h) b (Some payload) = Inr () \<and>
    file_content (path_join (path_join root d) (cid @ ''.json'')) (store_of h w) = Some raw \<and>
    load_manifest h raw = Inr m \<and>
    validate_recovery_manifest (fromisoformat h) m cid fmt = Inr (ev_submitted_at e, ev_triggers e))"
  using assms
  by (auto simp: try_recover_def bindP_Inr_iff catchP_Inr_iff inspect_recovery_artifacts_def Let_def
      resolve_proof_dir_def read_file_def read_bytes_def as_evidence_def validate_recovery_manifest_def
      bindE_Inr_iff guardE_def json_get_str_def
      split: if_split_asm option.split_asm)

lemma source_is_on_lineage_None:
  "source_is_on_lineage h s frozen w = (Inr None, w2) \<longleftrightarrow>
     (\<exists>w1. git_succeeds h [''rev-parse'', ''--verify'', s @ ''^{commit}''] w = (Inr True, w1) \<and>
        git_succeeds h [''merge-base'', ''--is-ancestor'', s, frozen] w1 = (Inr True, w2))"
  by (auto simp: source_is_on_lineage_def bindP_Inr_iff split: if_splits)

text \<open>
  C27: what \<open>repair\<close> does with one proof. A tag is made only outside a dry run, for a commit no tag
  names, that Git says is in the repository and an ancestor of the source, and whose stored proof binds its
  payload; its time and triggers are those of the stored
  manifest, never the present. In every other case nothing that reading leaves alone is changed.
\<close>

theorem repair_reconstructs:
  assumes q: "quiet_reads v h" "quiet_reads (store_of h) h"
    and r: "repair_one h version cfg root d dry fmt frozen tagged s w = (Inr r, w')"
  shows "if rr_action r = TAGGED
    then \<not> dry \<and> s \<notin> set tagged \<and> (\<exists>b payload raw m t ts w1 w2 name.
      git_succeeds h [''rev-parse'', ''--verify'', s @ ''^{commit}''] w = (Inr True, w1) \<and>
      git_succeeds h [''merge-base'', ''--is-ancestor'', s, frozen] w1 = (Inr True, w2) \<and>
      file_content (path_join (path_join root d) (s @ ''.ots'')) (store_of h w) = Some b \<and>
      build_payload fmt s = Inr payload \<and> validate_detached_proof (digest h) b (Some payload) = Inr () \<and>
      file_content (path_join (path_join root d) (s @ ''.json'')) (store_of h w) = Some raw \<and>
      load_manifest h raw = Inr m \<and> validate_recovery_manifest (fromisoformat h) m s fmt = Inr (t, ts) \<and>
      create_timestamp_tag h s (gc_tag_prefix cfg) t (d @ ''/'' @ s @ ''.ots'') ts version
        (signs_generated_objects cfg) w2 = (Inr name, w') \<and> rr_tag_name r = Some name)
    else v w' = v w \<and> rr_tag_name r = None"
proof -
  have a: "v w1 = v w \<and> store_of h w1 = store_of h w \<and> skip \<noteq> Some TAGGED"
    if "source_is_on_lineage h s frozen w = (Inr skip, w1)" for skip w1
  proof (intro conjI)
    show "v w1 = v w" by (rule keepsD [OF source_is_on_lineage_keeps [OF q(1)] that])
    show "store_of h w1 = store_of h w" by (rule keepsD [OF source_is_on_lineage_keeps [OF q(2)] that])
    show "skip \<noteq> Some TAGGED"
      using that by (auto simp: source_is_on_lineage_def bindP_Inr_iff split: if_splits)
  qed
  have k: "w2 = w1" if "try_recover h root d fmt s w1 = (Inr e, w2)" for e w1 w2
    by (rule keepsD [OF try_recover_keeps [where v = "\<lambda>w. w"] that])
  show ?thesis
  proof (cases "s \<in> set tagged")
    case True
    with r show ?thesis by (auto simp: repair_one_def Let_def)
  next
    case False
    show ?thesis
    proof (cases "rr_action r = TAGGED")
      case True
      with r [unfolded repair_one_def Let_def if_not_P [OF False] bindP_option_Inr_iff] a
      obtain w2 w3 e name where l: "source_is_on_lineage h s frozen w = (Inr None, w2)" and
        e: "try_recover h root d fmt s w2 = (Inr (Some e), w3)" and
        n: "\<not> dry" "create_timestamp_tag h s (gc_tag_prefix cfg) (ev_submitted_at e)
          (d @ ''/'' @ ev_proof_name e) (ev_triggers e) version (signs_generated_objects cfg) w3 = (Inr name, w')"
          "rr_tag_name r = Some name"
        by (auto simp: bindP_Inr_iff split: if_split_asm)
      have w3: "w3 = w2" by (rule k [OF e])
      from l obtain w1 where
        "git_succeeds h [''rev-parse'', ''--verify'', s @ ''^{commit}''] w = (Inr True, w1)"
        "git_succeeds h [''merge-base'', ''--is-ancestor'', s, frozen] w1 = (Inr True, w2)"
        by (auto simp: source_is_on_lineage_None)
      with True False n [unfolded w3] try_recover_Some [OF e] a [OF l] show ?thesis by (auto split del: if_split)
    next
      case other: False
      from r [unfolded repair_one_def Let_def if_not_P [OF False] bindP_option_Inr_iff] show ?thesis
        by (elim disjE exE conjE)
          (use other in \<open>auto simp: bindP_Inr_iff split: if_split_asm dest!: a k\<close>)
    qed
  qed
qed

text \<open>A commit that is stored and lacks its tag.\<close>

definition untagged_host :: "file_store host" where
  "untagged_host = example_host\<lparr>run_git := (\<lambda>av _ w.
     (Inr (if ''--verify'' \<in> set av \<and> list_ex (\<lambda>a. str_startswith a ''refs/tags/'') av then (1, [], []) else (0, [], [])), w))\<rparr>"

definition stored_artifacts :: file_store where
  "stored_artifacts = [(''r/d'', Directory), (''r/d/'' @ example_commit @ ''.ots'', RegularFile stored_proof),
     (''r/d/'' @ example_commit @ ''.json'', RegularFile [])]"

lemma untagged_host_reads: "quiet_reads v untagged_host"
  by (simp add: quiet_reads_def keeps_def untagged_host_def example_host_def file_host_def)

lemma example_repair:
  "case repair_one untagged_host ''1.0'' default_git ''r'' ''d'' False ''sha1'' ''c'' [] example_commit stored_artifacts of
     (Inr r, w') \<Rightarrow> rr_action r = TAGGED | _ \<Rightarrow> False"
  by code_simp

lemma repair_reconstructs_witness:
  "\<exists>raw m t ts w1 w2. git_succeeds untagged_host [''merge-base'', ''--is-ancestor'', example_commit, ''c''] w1 =
       (Inr True, w2) \<and>
     file_content (path_join (path_join ''r'' ''d'') (example_commit @ ''.json''))
       (store_of untagged_host stored_artifacts) = Some raw \<and>
     load_manifest untagged_host raw = Inr m \<and>
     validate_recovery_manifest (fromisoformat untagged_host) m example_commit ''sha1'' = Inr (t, ts)"
proof -
  obtain r w' where "repair_one untagged_host ''1.0'' default_git ''r'' ''d'' False ''sha1'' ''c'' [] example_commit
      stored_artifacts = (Inr r, w')" "rr_action r = TAGGED"
    using example_repair by (auto split: prod.splits sum.splits)
  with repair_reconstructs [OF untagged_host_reads untagged_host_reads this(1)] show ?thesis by auto
qed

end
