(* ===== verification/OrchestrationFacts.thy ===== *)
theory OrchestrationFacts
  imports Orchestration RepairFacts
begin

text \<open>
  What a run of \<open>orchestration.py\<close> does to the repository, and what decides it: the snapshot only
  reads; a run adds proofs and manifests and changes no file; work that was left unrecorded is
  finished with the evidence on disk, not with the present.
\<close>

section \<open>The snapshot\<close>

text \<open>
  The snapshot, on which \<open>status\<close> and dry runs rest, only reads.
\<close>

theorem snapshot_only_reads:
  assumes "quiet_reads v h"
  shows "v (snd (build_snapshot h cwd cfg now w)) = v w"
proof -
  have "keeps v (build_snapshot h cwd cfg now)"
    using assms unfolding build_snapshot_def Let_def by (auto intro!: keeps_intros quiet_intros)
  then show ?thesis by (simp add: keeps_def)
qed

lemma snapshot_only_reads_witness:
  "snd (build_snapshot zero_host ''/repo'' default_config 0 [(''/repo/a'', RegularFile [1])]) =
     [(''/repo/a'', RegularFile [1])]"
  by (rule snapshot_only_reads [where v = "\<lambda>w. w"]) (simp add: zero_host_def file_host_reads)

section \<open>Reading parts of a run\<close>

lemma recover_worktree_keeps: "keeps v (recover_worktree x cid)"
  by (simp add: recover_worktree_def try_recover_keeps)

lemma run_reads [quiet_intros]:
  assumes "quiet_reads v (rc_host x)"
  shows "keeps v (committed_evidence x cid)" "keeps v (in_flight_one x ex tagged committed n acc)"
    "keeps v (in_flight_sources x ex)" "keeps v (claiming_proof_commits x s b cache)" "keeps v (diagnose x s cl)"
proof -
  show e: "keeps v (committed_evidence x cid)" for cid
    using assms by (auto simp: committed_evidence_def intro!: quiet_intros)
  show o: "keeps v (in_flight_one x ex tagged committed n acc)" for ex tagged committed n acc
    using assms unfolding in_flight_one_def Let_def
    by (auto intro!: keeps_intros quiet_intros recover_worktree_keeps)
  show "keeps v (in_flight_sources x ex)"
    using assms unfolding in_flight_sources_def Let_def by (auto intro!: keeps_intros quiet_intros o)
  show "keeps v (claiming_proof_commits x s b cache)"
    using assms unfolding claiming_proof_commits_def by (auto intro!: keeps_intros quiet_intros)
  show "keeps v (diagnose x s cl)"
    using assms unfolding diagnose_def Let_def by (auto intro!: keeps_intros quiet_intros)
qed

section \<open>Effects on the files\<close>

text \<open>What a run may add: a proof under the name of the commit it binds, or a manifest the run built.\<close>

definition run_adds :: "'w run_context \<Rightarrow> path \<Rightarrow> bytes \<Rightarrow> bool" where
  "run_adds x p b \<longleftrightarrow>
     binds_its_name (rc_host x) (snap_root x) (snap_directory x) (snap_format x) p b \<or>
     (\<exists>cid m. p = path_join (path_join (snap_root x) (snap_directory x)) (cid @ ''.json'') \<and>
        build_manifest (snap_format x) cid (cid @ ''.ots'') (display_ref (sn_source (rc_snapshot x))) (rc_now x)
          (de_triggers (sn_decision (rc_snapshot x))) = Inr m \<and>
        b = text_bytes (json_dumps (JObj m) @ [newline]))"

definition run_world :: "'w lock_access \<Rightarrow> 'w run_context \<Rightarrow> (path \<Rightarrow> bool) \<Rightarrow> bool" where
  "run_world L x P \<longleftrightarrow> outside_world (rc_host x) L (run_client x) (\<lambda>_ _. ret (None, [])) P \<and>
     rc_collaborators x = no_collaborators"

lemma default_persist_evolves:
  assumes "lawful_store (rc_host x)"
  shows "within (evolves (rc_host x) P False (run_adds x)) (default_persist x cid b)"
proof -
  have m: "within (evolves (rc_host x) P False (run_adds x)) (persist_manifest (rc_host x) (snap_root x) (snap_directory x) m)"
    if "build_manifest (snap_format x) cid (cid @ ''.ots'') (display_ref (sn_source (rc_snapshot x))) (rc_now x)
      (de_triggers (sn_decision (rc_snapshot x))) = Inr m" for m
    using that build_manifest_get(2) [OF that]
    by (intro persist_manifest_evolves [OF assms]) (auto simp: run_adds_def json_get_str_def)
  have p: "within (evolves (rc_host x) P False (run_adds x))
      (persist_proof (rc_host x) (snap_root x) (snap_directory x) (snap_format x) cid b)"
    by (rule evolves_mono [OF persist_evolves(2) [OF assms]]) (simp add: run_adds_def)
  show ?thesis
    unfolding default_persist_def
    by (rule evolution.within_bind_result evolution.within_pure p | clarsimp simp: m)+
qed

lemma make_directories_keeps:
  assumes "lawful_store h"
  shows "keeps (files_in h P) (make_directories h p segs)"
proof -
  have one: "keeps (files_in h P) (make_directory h p)" for p
  proof -
    have "file_content q (make_dir p s) = file_content q s" if "map_of s p = None" for q s
      using that by (simp add: make_dir_def file_content_def)
    then have "files_in h P (snd (make_directory h p w)) = files_in h P w" for w
      by (auto simp: make_directory_def bindP_def stat_path_def stat_entry_def files_in_eq_iff
          lawful_storeD(1) [OF assms] split: option.splits entry.splits)
    then show ?thesis by (simp add: keeps_def)
  qed
  show ?thesis by (induction segs arbitrary: p) (auto intro!: keeps_intros one)
qed

lemma run_defaults:
  assumes "rc_collaborators x = no_collaborators"
  shows "run_submit x = default_submit x" "run_persist x = default_persist x" "run_tag x r = default_tag x r"
    "run_commit x = default_commit x" "\<not> simulated x"
  using assms by (simp_all add: run_submit_def run_persist_def run_tag_def run_commit_def simulated_def no_collaborators_def)

lemma run_worldD:
  assumes "run_world L x P"
  shows "lawful_store (rc_host x)" "quiet_git (files_in (rc_host x) P) (rc_host x)"
    "quiet_reads (files_in (rc_host x) P) (rc_host x)"
    "outside_world (rc_host x) L (run_client x) (\<lambda>_ _. ret (None, [])) P"
    "rc_collaborators x = no_collaborators"
    "keeps (files_in (rc_host x) P) (submit (rc_host x) (run_client x) payload)"
    "keeps (files_in (rc_host x) P) (terminate_active_child (run_client x))"
proof -
  show o: "outside_world (rc_host x) L (run_client x) (\<lambda>_ _. ret (None, [])) P"
    and "rc_collaborators x = no_collaborators"
    using assms by (simp_all add: run_world_def)
  show "lawful_store (rc_host x)" and q: "quiet_git (files_in (rc_host x) P) (rc_host x)"
    and "keeps (files_in (rc_host x) P) (terminate_active_child (run_client x))"
    by (rule outside_worldD [OF o])+
  show "quiet_reads (files_in (rc_host x) P) (rc_host x)" by (rule quiet_git_reads [OF q])
  show "keeps (files_in (rc_host x) P) (submit (rc_host x) (run_client x) payload)"
    using o by (intro client_confined(1)) (auto simp: outside_world_def)
qed

lemma run_steps_keep:
  assumes "run_world L x P"
  shows "keeps (files_in (rc_host x) P) (default_submit x cid payload)"
    "keeps (files_in (rc_host x) P) (default_tag x r cid)"
    "keeps (files_in (rc_host x) P) (default_commit x ids)"
proof -
  note q = run_worldD [OF assms]
  show "keeps (files_in (rc_host x) P) (default_submit x cid payload)"
    unfolding default_submit_def by (auto intro!: keeps_intros q(6,7))
  show "keeps (files_in (rc_host x) P) (default_tag x r cid)"
    unfolding default_tag_def by (auto simp: Let_def split: option.split intro!: keeps_intros quiet_tag q(2))
  show "keeps (files_in (rc_host x) P) (default_commit x ids)"
    unfolding default_commit_def Let_def by (auto intro!: keeps_intros quiet_proof_commit quiet_git_but_tags q(2))
qed

lemma run_idle_keeps:
  assumes "run_world L x P"
  shows "keeps (files_in (rc_host x) P) (run_idle x)"
proof -
  note q = run_worldD [OF assms]
  have c: "keeps (files_in (rc_host x) P) (complete_one x tagged s st)" for tagged s st
    unfolding complete_one_def Let_def run_defaults [OF q(5)]
    by (auto intro!: keeps_intros run_reads recover_worktree_keeps run_steps_keep [OF assms] q(3))
  show ?thesis
    unfolding run_idle_def commit_baseline_def complete_tags_def run_defaults [OF q(5)]
    by (auto intro!: keeps_intros c quiet_intros recover_worktree_keeps run_steps_keep [OF assms] q(3))
qed

lemma stamp_one_evolves:
  assumes "run_world L x P"
  shows "within (evolves (rc_host x) P False (run_adds x)) (stamp_one x cid acc)"
proof -
  note q = run_worldD [OF assms]
  show ?thesis
    unfolding stamp_one_def Let_def run_defaults [OF q(5)]
    by (rule evolution_intros keeps_evolves [OF quiet_inspection(3)] keeps_evolves [OF quiet_claims(2) [OF q(3)]]
        keeps_evolves [OF run_steps_keep(1) [OF assms]] default_persist_evolves [OF q(1)])+
qed

lemma run_stamping_evolves:
  assumes "run_world L x P"
  shows "within (evolves (rc_host x) P False (run_adds x)) (run_stamping x r fl)"
proof -
  note q = run_worldD [OF assms]
  have c: "keeps (files_in (rc_host x) P) (record_commit x ids)" for ids
    unfolding record_commit_def run_defaults [OF q(5)]
    by (auto intro!: keeps_intros quiet_intros run_steps_keep [OF assms] q(3))
  show ?thesis
    unfolding run_stamping_def Let_def run_defaults [OF q(5)]
    by (rule evolution_intros keeps_evolves [OF make_directories_keeps [OF q(1)]] stamp_one_evolves [OF assms]
        keeps_evolves [OF c] keeps_evolves [OF run_steps_keep(2) [OF assms]])+
qed

text \<open>
  C7: a run only adds. Wherever it stops, every protected file that was there is unchanged, and a new
  one is a proof in the proof directory that binds the commit it is named after, or a manifest that
  the run built for its own time and triggers.
\<close>

theorem run_only_adds:
  assumes "run_world L x P" "P p"
  shows "file_content p (store_of (rc_host x) (snd (run_timestamping L x w))) = file_content p (store_of (rc_host x) w) \<or>
    file_content p (store_of (rc_host x) w) = None \<and>
    (\<exists>b. file_content p (store_of (rc_host x) (snd (run_timestamping L x w))) = Some b \<and> run_adds x p b)"
proof -
  note q = run_worldD [OF assms(1)]
  have "within (evolves (rc_host x) P False (run_adds x)) (run_timestamping L x)"
    unfolding run_timestamping_def run_locked_def
    by (rule evolution_intros with_lock_evolves [OF q(4)] keeps_evolves [OF quiet_source_ref(2) [OF q(3)]]
        keeps_evolves [OF quiet_refs(4) [OF q(3)]] keeps_evolves [OF run_reads(3) [OF q(3)]]
        keeps_evolves [OF run_idle_keeps [OF assms(1)]] run_stamping_evolves [OF assms(1)])+
  with assms(2) show ?thesis unfolding within_def evolves_def by auto
qed

text \<open>A run that finds a stranded submission, commits it and tags it.\<close>

definition stranded_snapshot :: repository_snapshot where
  "stranded_snapshot = \<lparr>sn_config = default_config\<lparr>cf_proof := default_proof\<lparr>pr_directory := ''d''\<rparr>\<rparr>,
     sn_layout = \<lparr>worktree_root = ''r'', common_git_dir = ''g'', is_bare = False\<rparr>,
     sn_source = \<lparr>resolved_commit_id = ''c'', display_ref = ''HEAD''\<rparr>, sn_object_format = ''sha1'',
     sn_baseline = \<lparr>lb_baseline = None, lb_has_abandoned_tags = False\<rparr>, sn_pending = [],
     sn_policy_state = policy_state_of 0 \<lparr>lb_baseline = None, lb_has_abandoned_tags = False\<rparr> [],
     sn_decision = no_decision\<rparr>"

definition stranded_run :: "file_store run_context" where
  "stranded_run = \<lparr>rc_host = untagged_host, rc_client = idle_client, rc_version = ''1.0'',
     rc_snapshot = stranded_snapshot, rc_now = hours 5, rc_collaborators = no_collaborators\<rparr>"

lemma stranded_run_succeeds:
  "case run_timestamping example_locks stranded_run stored_artifacts of
     (Inr o', w) \<Rightarrow> ro_timestamped o' = [] \<and> ro_tagged o' = [example_commit] \<and>
       ro_committed o' = [example_commit] \<and> w = stored_artifacts
   | _ \<Rightarrow> False"
  by code_simp

lemma stranded_world: "run_world example_locks stranded_run (\<lambda>p. str_startswith p ''r/'')"
  unfolding run_world_def outside_world_def
proof (intro conjI)
  show "lawful_store (rc_host stranded_run)"
    using example_host_lawful by (simp add: stranded_run_def untagged_host_def lawful_store_def)
  show "confined (rc_host stranded_run) (run_client stranded_run) (\<lambda>p. str_startswith p ''r/'')"
    using not_both [of _ "[]" "CHR ''r''" "''/''" "CHR ''/''" "''tmp/t/''"]
    by (auto simp: confined_def stranded_run_def run_client_def idle_client_def keeps_def
        str_startswith_def [of "''/tmp/t''"])
  show "quiet_git (files_in (rc_host stranded_run) (\<lambda>p. str_startswith p ''r/'')) (rc_host stranded_run)"
    by (simp add: quiet_git_def keeps_def stranded_run_def untagged_host_def example_host_def file_host_def)
qed (simp_all add: stranded_run_def run_client_def stranded_snapshot_def default_config_def str_startswith_def
    keeps_def example_locks_def)

lemma run_only_adds_witness:
  "file_content ''r/d/a'' (store_of (rc_host stranded_run)
     (snd (run_timestamping example_locks stranded_run ((''r/d/a'', RegularFile [1]) # stored_artifacts)))) = Some [1]"
  using run_only_adds [OF stranded_world, of "''r/d/a''" "(''r/d/a'', RegularFile [1]) # stored_artifacts"]
  by (simp add: str_startswith_def file_content_def stranded_run_def untagged_host_def example_host_def file_host_def)

section \<open>Finishing earlier work\<close>

text \<open>The same run at another time, with another client and other triggers.\<close>

definition elsewhere :: "instant \<Rightarrow> 'w ots_cli \<Rightarrow> string list \<Rightarrow> 'w run_context \<Rightarrow> 'w run_context" where
  "elsewhere t c triggers x =
     x\<lparr>rc_now := t, rc_client := c,
       rc_snapshot := (rc_snapshot x)\<lparr>sn_decision := (sn_decision (rc_snapshot x))\<lparr>de_triggers := triggers\<rparr>\<rparr>\<rparr>"

lemma elsewhere_simps [simp]:
  "rc_host (elsewhere t c tr x) = rc_host x" "rc_collaborators (elsewhere t c tr x) = rc_collaborators x"
  "rc_version (elsewhere t c tr x) = rc_version x"
  "snap_root (elsewhere t c tr x) = snap_root x" "snap_directory (elsewhere t c tr x) = snap_directory x"
  "snap_format (elsewhere t c tr x) = snap_format x" "snap_source (elsewhere t c tr x) = snap_source x"
  "snap_git (elsewhere t c tr x) = snap_git x" "snap_commits (elsewhere t c tr x) = snap_commits x"
  "index_lock_retry_window (elsewhere t c tr x) = index_lock_retry_window x"
  "selected_ids (elsewhere t c tr x) = selected_ids x" "simulated (elsewhere t c tr x) = simulated x"
  "sn_baseline (rc_snapshot (elsewhere t c tr x)) = sn_baseline (rc_snapshot x)"
  "sn_pending (rc_snapshot (elsewhere t c tr x)) = sn_pending (rc_snapshot x)"
  "sn_layout (rc_snapshot (elsewhere t c tr x)) = sn_layout (rc_snapshot x)"
  by (simp_all add: elsewhere_def snap_root_def snap_directory_def snap_format_def snap_source_def snap_git_def
      snap_commits_def index_lock_retry_window_def selected_ids_def simulated_def)

lemma elsewhere_parts [simp]:
  shows elsewhere_recover: "recover_worktree (elsewhere t c tr x) = recover_worktree x"
    and elsewhere_committed: "committed_evidence (elsewhere t c tr x) = committed_evidence x"
    and elsewhere_claiming: "claiming_proof_commits (elsewhere t c tr x) = claiming_proof_commits x"
    and elsewhere_diagnose: "diagnose (elsewhere t c tr x) = diagnose x"
    and elsewhere_search: "search_baseline_of (elsewhere t c tr x) = search_baseline_of x"
    and elsewhere_sources: "sources_to_check (elsewhere t c tr x) = sources_to_check x"
  by (unfold recover_worktree_def committed_evidence_def claiming_proof_commits_def diagnose_def
      search_baseline_of_def sources_to_check_def elsewhere_simps) (rule refl)+

lemma elsewhere_in_flight [simp]: "in_flight_sources (elsewhere t c tr x) = in_flight_sources x"
proof -
  have o: "in_flight_one (elsewhere t c tr x) = in_flight_one x"
    by (intro ext) (unfold in_flight_one_def elsewhere_simps elsewhere_parts, rule refl)
  show ?thesis
    by (intro ext) (unfold in_flight_sources_def elsewhere_simps o, rule refl)
qed

lemma elsewhere_commit [simp]: "run_commit (elsewhere t c tr x) = run_commit x"
proof -
  have d: "default_commit (elsewhere t c tr x) = default_commit x"
    by (intro ext) (unfold default_commit_def elsewhere_simps, rule refl)
  show ?thesis by (unfold run_commit_def elsewhere_simps d, rule refl)
qed

lemma elsewhere_tag: "r cid \<noteq> None \<Longrightarrow> run_tag (elsewhere t c tr x) r cid = run_tag x r cid"
  by (auto simp: run_tag_def default_tag_def split: option.split)

lemma elsewhere_idle: "run_idle (elsewhere t c tr x) = run_idle x"
proof -
  have t: "run_tag (elsewhere t c tr x) [s \<mapsto> e] s = run_tag x [s \<mapsto> e] s" for s e
    by (rule elsewhere_tag) simp
  have "complete_one (elsewhere t c tr x) = complete_one x"
    by (intro ext) (unfold complete_one_def elsewhere_simps elsewhere_parts t, rule refl)
  then show ?thesis
    unfolding run_idle_def commit_baseline_def complete_tags_def elsewhere_simps elsewhere_parts elsewhere_commit
    by simp
qed

lemma mapP_cong: "(\<And>y. y \<in> set ys \<Longrightarrow> f y = g y) \<Longrightarrow> mapP f ys = mapP g ys"
  by (induction ys) auto

lemma elsewhere_stamping:
  assumes "fl \<noteq> [] \<or> selected_ids x = []" "set fl \<subseteq> dom r"
  shows "run_stamping (elsewhere t c tr x) r fl = run_stamping x r fl"
proof -
  have "mapP (run_tag (elsewhere t c tr x) r) fl = mapP (run_tag x r) fl"
    using assms(2) by (intro mapP_cong elsewhere_tag) auto
  moreover have "record_commit (elsewhere t c tr x) = record_commit x"
    by (intro ext) (unfold record_commit_def elsewhere_simps elsewhere_commit, rule refl)
  ultimately show ?thesis
    using assms(1) by (auto simp: run_stamping_def Let_def)
qed

lemma order_commits_set:
  "order_commits_newest_first h s ids w = (Inr os, w') \<Longrightarrow> set os = set ids"
  by (auto simp: order_commits_newest_first_def bindP_Inr_iff catchP_Inr_iff)

lemma in_flight_fold:
  assumes "foldP (in_flight_one x ex tagged committed) names (r, fl) w = (Inr (r', fl'), w')" "set fl \<subseteq> dom r"
  shows "set fl' \<subseteq> dom r'"
  using assms
proof (induction names arbitrary: r fl w)
  case (Cons n names)
  from Cons.prems(1) obtain r1 fl1 w1 where
    s: "in_flight_one x ex tagged committed n (r, fl) w = (Inr (r1, fl1), w1)" and
    f: "foldP (in_flight_one x ex tagged committed) names (r1, fl1) w1 = (Inr (r', fl'), w')"
    by (auto simp: bindP_Inr_iff)
  have "r1 = r \<and> fl1 = fl \<or> (\<exists>s e. r1 = r(s \<mapsto> e) \<and> fl1 = fl @ [s])"
    using s by (auto simp: in_flight_one_def Let_def bindP_Inr_iff split: if_splits option.splits)
  with Cons.prems(2) have "set fl1 \<subseteq> dom r1" by auto
  with Cons.IH [OF f] show ?case .
qed simp

lemma in_flight_recovered:
  "in_flight_sources x ex w = (Inr (r, fl), w') \<Longrightarrow> set fl \<subseteq> dom r"
  by (auto simp: in_flight_sources_def Let_def bindP_Inr_iff split: if_splits dest!: in_flight_fold order_commits_set)

text \<open>
  C15: work left by an earlier run is finished with what that run recorded. When the policy selects no
  commit, the run does not depend on the present, on the client, or on the triggers of the decision:
  what it commits and tags comes from the evidence it found alone, and nothing is submitted.
\<close>

theorem recovery_ignores_present:
  assumes "selected_ids x = []"
  shows "run_timestamping L (elsewhere t c triggers x) = run_timestamping L x"
proof -
  have "run_locked (elsewhere t c triggers x) w = run_locked x w" for w
    unfolding run_locked_def elsewhere_simps elsewhere_in_flight
    by (intro bindP_cong refl) (auto simp: elsewhere_idle assms elsewhere_stamping dest!: in_flight_recovered split: if_splits)
  then have "run_locked (elsewhere t c triggers x) = run_locked x" by (rule ext)
  then show ?thesis by (simp add: run_timestamping_def)
qed

lemma recovery_ignores_present_witness:
  "run_timestamping example_locks (elsewhere (hours 9) idle_client [''max_age''] stranded_run) =
   run_timestamping example_locks stranded_run"
  by (rule recovery_ignores_present)
    (simp add: selected_ids_def stranded_run_def stranded_snapshot_def no_decision_def)

end
