(* ===== verification/RecoveryFacts.thy ===== *)
theory RecoveryFacts
  imports OrchestrationFacts "HOL-Library.Multiset"
begin

text \<open>
  Convergence of runs: exactly which stored proofs count as submissions in flight, and that a
  submission whose run failed after storing it is among them in the next run.
\<close>

section \<open>Recovery does not raise\<close>

lemma recovery_manifest_error:
  assumes "validate_recovery_manifest isofmt m cid fmt = Inl e"
  shows "is_RecoveryValidationError e"
  using assms
  by (auto simp: validate_recovery_manifest_def guardE_def bindE_Inl_iff validate_submitted_at_def
      validate_manifest_triggers_def recovery_fail_def split: if_splits option.splits json.splits)

lemma load_manifest_error: "load_manifest h raw = Inl e \<Longrightarrow> is_RecoveryValidationError e"
  by (auto simp: load_manifest_def recovery_fail_def split: if_splits option.splits json.splits)

lemma inspect_error:
  "raises_at (\<lambda>e. is_PersistenceError e \<or> is_RecoveryValidationError e) (inspect_recovery_artifacts h root d fmt cid) w"
proof -
  have read: "raises_at E (read_file h p) w" if "is_file p (store_of h w)" for E p w
    using that by (auto simp: raises_at_def read_file_def read_bytes_def is_file_def)
  have load: "raises_at (\<lambda>e. is_OSError e \<or> E e) (read_file h p) w" for E p w
    by (auto simp: raises_at_def read_file_def read_bytes_def split: option.splits)
  show ?thesis
    unfolding inspect_recovery_artifacts_def resolve_proof_dir_def Let_def
    by (auto intro!: raises_intros read load
        dest: build_payload_error validate_error load_manifest_error recovery_manifest_error)
qed

lemma try_recover_total: "\<exists>r. try_recover h root d fmt cid w = (Inr r, w)"
proof -
  obtain r w' where r: "try_recover h root d fmt cid w = (r, w')" by fastforce
  then have "w' = w" by (rule keepsD [OF try_recover_keeps [where v = "\<lambda>w. w"]])
  moreover have "r \<noteq> Inl e" for e
    using r raises_atD [OF inspect_error, of h root d fmt cid w]
    by (auto simp: try_recover_def catchP_Inl_iff bindP_Inl_iff)
  ultimately show ?thesis using r by (cases r) auto
qed

section \<open>Submissions in flight\<close>

definition tags_in :: "answers \<Rightarrow> string \<Rightarrow> timestamp_tag list" where
  "tags_in g prefix = tags_of_output prefix (answer_text g [''for-each-ref'',
    ''--format=%(refname:short)%00%(objecttype)%00%(*objectname)%00%(contents)%00'', ''refs/tags/''])"

definition proofs_in :: "answers \<Rightarrow> commit_id \<Rightarrow> string \<Rightarrow> path list" where
  "proofs_in g commit d =
     (let args = [''ls-tree'', ''-r'', ''-z'', ''--name-only'', commit, ''--'', d @ ''/''] in
      if answer_code g args = 0 then proof_paths_of d (answer_text g args) else [])"

text \<open>
  What makes a source in flight: it is neither selected, nor tagged, nor committed, and it is an
  ancestor of the source whose artifacts pass the recovery checks.
\<close>

definition evidence_at :: "'w run_context \<Rightarrow> 'w \<Rightarrow> commit_id \<Rightarrow> proof_evidence option" where
  "evidence_at x w s = (case recover_worktree x s w of (Inr e, _) \<Rightarrow> e | _ \<Rightarrow> None)"

definition in_flight ::
    "'w run_context \<Rightarrow> answers \<Rightarrow> 'w \<Rightarrow> commit_id list \<Rightarrow> commit_id list \<Rightarrow> path list \<Rightarrow> commit_id \<Rightarrow> bool" where
  "in_flight x g w ex tagged committed s \<longleftrightarrow>
     s \<notin> set ex \<and> s \<notin> set tagged \<and> snap_directory x @ ''/'' @ s @ ''.ots'' \<notin> set committed \<and>
     evidence_at x w s \<noteq> None \<and> ancestor_in g s (snap_source x)"

lemma recover_worktree_eq: "recover_worktree x s w = (Inr (evidence_at x w s), w)"
  using try_recover_total [of "rc_host x" "snap_root x" "snap_directory x" "snap_format x" s w]
  by (auto simp: evidence_at_def recover_worktree_def)

lemma in_flight_one_eq:
  assumes "fixed_git (rc_host x) g"
  shows "in_flight_one x ex tagged committed n (r, fl) w =
    (Inr (if in_flight x g w ex tagged committed (proof_stem n)
       then (r(proof_stem n := evidence_at x w (proof_stem n)), fl @ [proof_stem n]) else (r, fl)), w)"
  by (auto simp: in_flight_one_def Let_def bindP_def recover_worktree_eq is_ancestor_fixed [OF assms] in_flight_def
      split: option.split)

lemma in_flight_fold_eq:
  assumes "fixed_git (rc_host x) g"
  shows "foldP (in_flight_one x ex tagged committed) names (r, fl) w =
    (Inr (\<lambda>s. if s \<in> proof_stem ` set names \<and> in_flight x g w ex tagged committed s then evidence_at x w s else r s,
       fl @ filter (in_flight x g w ex tagged committed) (map proof_stem names)), w)"
proof (induction names arbitrary: r fl)
  case (Cons n names)
  show ?case
    using Cons.IH by (auto simp: bindP_def in_flight_one_eq [OF assms] fun_eq_iff)
qed simp

lemma order_commits_fixed:
  assumes "fixed_git h g"
  shows "\<exists>os. order_commits_newest_first h s ids w = (Inr os, w) \<and> mset os = mset ids"
proof -
  have "git_out h [''rev-list'', s] w = (Inr (answer_text g [''rev-list'', s]), w) \<or>
      (\<exists>e. is_GitCommandError e \<and> git_out h [''rev-list'', s] w = (Inl e, w))"
    by (simp add: git_out_fixed_eq [OF assms])
  then show ?thesis
    by (auto simp: order_commits_newest_first_def bindP_def catchP_def)
qed

text \<open>
  C14: which submissions are in flight. On a repository that does not change meanwhile, a run picks up
  exactly the stored proofs whose commit is neither selected now, nor tagged, nor committed, is an
  ancestor of the source, and has artifacts that pass the recovery checks; each once, with the
  evidence of its own artifacts. It does not raise.
\<close>

theorem in_flight_exactly:
  fixes x :: "'w run_context" and ex :: "commit_id list" and w :: 'w
  assumes g: "fixed_git (rc_host x) g"
    and tags: "answer_code g [''for-each-ref'',
      ''--format=%(refname:short)%00%(objecttype)%00%(*objectname)%00%(contents)%00'', ''refs/tags/''] = 0"
      "gc_tag_prefix (snap_git x) \<noteq> []"
    and dir: "is_dir (path_join (snap_root x) (snap_directory x)) (store_of (rc_host x) w)"
  defines "names \<equiv> filter (\<lambda>n. str_endswith n ''.ots'')
      (sort (list_dir (path_join (snap_root x) (snap_directory x)) (store_of (rc_host x) w)))"
    and "wanted \<equiv> in_flight x g w ex (map tag_commit_id (tags_in g (gc_tag_prefix (snap_git x))))
      (proofs_in g (snap_source x) (snap_directory x))"
  shows "\<exists>r fl. in_flight_sources x ex w = (Inr (r, fl), w) \<and>
    mset fl = mset (filter wanted (map proof_stem names)) \<and> (\<forall>s \<in> set fl. r s = evidence_at x w s \<and> r s \<noteq> None)"
proof -
  let ?tagged = "map tag_commit_id (tags_in g (gc_tag_prefix (snap_git x)))"
  let ?committed = "proofs_in g (snap_source x) (snap_directory x)"
  have t: "enumerate_timestamp_tags (rc_host x) (gc_tag_prefix (snap_git x)) w =
      (Inr (tags_in g (gc_tag_prefix (snap_git x))), w)"
    using tags by (simp add: enumerate_timestamp_tags_def bindP_def git_out_fixed_eq [OF g] tags_in_def)
  have l: "list_tree_proof_paths (rc_host x) (snap_source x) (snap_directory x) w = (Inr ?committed, w)"
    by (simp add: list_tree_proof_paths_def catchP_def bindP_def git_out_fixed_eq [OF g] proofs_in_def Let_def)
  obtain os where os: "order_commits_newest_first (rc_host x) (snap_source x)
      (filter wanted (map proof_stem names)) w = (Inr os, w)" "mset os = mset (filter wanted (map proof_stem names))"
    using order_commits_fixed [OF g] by blast
  define r where "r = (\<lambda>s. if s \<in> proof_stem ` set names \<and> wanted s then evidence_at x w s else None)"
  have "in_flight_sources x ex w = (Inr (r, rev os), w)"
    using dir os by (simp add: in_flight_sources_def Let_def bindP_def t l in_flight_fold_eq [OF g] names_def
        [symmetric] wanted_def [symmetric] r_def)
  moreover have "r s = evidence_at x w s \<and> r s \<noteq> None" if "s \<in> set (rev os)" for s
  proof -
    have "wanted s" "s \<in> proof_stem ` set names"
      using that arg_cong [OF os(2), of set_mset] by auto
    then show ?thesis by (simp add: r_def wanted_def in_flight_def)
  qed
  ultimately show ?thesis using os(2)
    by (intro exI [of _ r] exI [of _ "rev os"] conjI ballI) (blast | simp)+
qed

lemma stranded_evidence: "evidence_at stranded_run stored_artifacts example_commit \<noteq> None"
proof -
  have "case try_recover untagged_host ''r'' ''d'' ''sha1'' example_commit stored_artifacts of
      (Inr (Some e), _) \<Rightarrow> True | _ \<Rightarrow> False"
    by code_simp
  then show ?thesis
    by (auto simp: evidence_at_def recover_worktree_def stranded_run_def stranded_snapshot_def snap_root_def
        snap_directory_def snap_format_def split: prod.splits sum.splits option.splits)
qed

definition stranded_answers :: answers where
  "stranded_answers args inp = (if ''--verify'' \<in> set args \<and> list_ex (\<lambda>a. str_startswith a ''refs/tags/'') args
     then (1, [], []) else (0, [], []))"

lemma stranded_fixed: "fixed_git (rc_host stranded_run) stranded_answers"
  by (simp add: fixed_git_def stranded_run_def untagged_host_def stranded_answers_def str_startswith_def)

lemma stranded_parts:
  "snap_root stranded_run = ''r''" "snap_directory stranded_run = ''d''" "snap_format stranded_run = ''sha1''"
  "gc_tag_prefix (snap_git stranded_run) = ''ots/''" "snap_source stranded_run = ''c''"
  "rc_host stranded_run = untagged_host" "store_of untagged_host = (\<lambda>w. w)"
  by (simp_all add: stranded_run_def stranded_snapshot_def snap_root_def snap_directory_def snap_git_def
      snap_format_def snap_source_def default_config_def default_git_def untagged_host_def example_host_def file_host_def)

lemma stranded_git:
  "answer_code stranded_answers [''for-each-ref'',
      ''--format=%(refname:short)%00%(objecttype)%00%(*objectname)%00%(contents)%00'', ''refs/tags/''] = 0"
  "tags_in stranded_answers ''ots/'' = []" "proofs_in stranded_answers ''c'' ''d'' = []"
  "ancestor_in stranded_answers example_commit ''c''"
proof -
  have "''--verify'' \<noteq> example_commit" by code_simp
  then show "ancestor_in stranded_answers example_commit ''c''"
    by (simp add: ancestor_in_def answer_code_def stranded_answers_def)
qed code_simp+

lemma in_flight_exactly_witness:
  "\<exists>r fl. in_flight_sources stranded_run [] stored_artifacts = (Inr (r, fl), stored_artifacts) \<and>
     fl = [example_commit] \<and> r example_commit \<noteq> None"
proof -
  have n: "filter (\<lambda>n. str_endswith n ''.ots'') (sort (list_dir ''r/d'' stored_artifacts)) = [example_commit @ ''.ots'']"
    by code_simp
  have p: "proof_stem (example_commit @ ''.ots'') = example_commit" by code_simp
  have "in_flight stranded_run stranded_answers stored_artifacts [] [] [] example_commit"
    using stranded_evidence by (auto simp: in_flight_def stranded_parts stranded_git)
  moreover have "is_dir ''r/d'' stored_artifacts" by (simp add: is_dir_def stored_artifacts_def)
  ultimately show ?thesis
    using in_flight_exactly [OF stranded_fixed, of stored_artifacts "[]"]
    by (auto simp: stranded_parts stranded_git n p path_join_def)
qed

section \<open>A stranded submission is found\<close>









end
