(* ===== verification/Servers.thy ===== *)
theory Servers
  imports Upgrade Config
begin

text \<open>
  \<open>servers.py\<close>: the calendars that the stored proofs name, whether they answer, and what they filed
  under a commitment. The opener of \<open>urllib.request\<close> is a parameter: what it does with a URL is a
  failure or a response, of which at most as many bytes are read as were asked for.
\<close>

section \<open>Requests\<close>

text \<open>
  \<open>BadProtocol\<close> are the exceptions of \<open>http.client\<close>, which are no \<open>OSError\<close>: a status line that is
  none, a body that breaks off, a URL with control characters.
\<close>

datatype http_failure = HTTPError int | URLError string | OtherOSError string | BadProtocol string

record http_response =
  rs_status :: int
  rs_read :: "nat \<Rightarrow> http_failure + bytes"

type_synonym 'w opener = "string \<Rightarrow> 'w \<Rightarrow> (http_failure + http_response) \<times> 'w"

text \<open>
  \<open>urlsplit(url).scheme\<close>. \<open>rejects\<close> are the checks of a network location that look at Unicode
  normal forms and at the addresses between brackets.
\<close>

definition is_scheme_char :: "char \<Rightarrow> bool" where
  "is_scheme_char c \<longleftrightarrow> is_alnum c \<or> c \<in> set ''+-.''"

definition url_cleaned :: "string \<Rightarrow> string" where
  "url_cleaned url =
     filter (\<lambda>c. c \<notin> {CHR 0x09, CHR 0x0A, CHR 0x0D}) (dropWhile (\<lambda>c. of_char c \<le> (32 :: nat)) url)"

definition split_scheme :: "string \<Rightarrow> string \<times> string" where
  "split_scheme url =
     (case partition_char (CHR '':'') url of
        (pre, Some rest) \<Rightarrow>
          if pre \<noteq> [] \<and> is_letter (hd pre) \<and> list_all is_scheme_char pre then (str_lower pre, rest)
          else ([], url)
      | (_, None) \<Rightarrow> ([], url))"

definition netloc_of :: "string \<Rightarrow> string" where
  "netloc_of rest =
     (if str_startswith rest ''//'' then takeWhile (\<lambda>c. c \<notin> set ''/?#'') (drop 2 rest) else [])"

definition url_scheme :: "(string \<Rightarrow> bool) \<Rightarrow> string \<Rightarrow> string result" where
  "url_scheme rejects url =
     (let (scheme, rest) = split_scheme (url_cleaned url); netloc = netloc_of rest in
      if (CHR ''['' \<in> set netloc) \<noteq> (CHR '']'' \<in> set netloc) \<or> rejects netloc
      then Inl (ValueError ''Invalid URL'') else Inr scheme)"

section \<open>Reachability\<close>

record server_status =
  sv_url :: uri
  sv_reachable :: bool
  sv_detail :: string
  sv_pending_proofs :: nat

text \<open>The dict of counts: \<open>setdefault(url, 0)\<close> and \<open>counts[url] = counts.get(url, 0) + 1\<close>.\<close>

definition note_anchoring :: "uri \<Rightarrow> (uri \<times> nat) list \<Rightarrow> (uri \<times> nat) list" where
  "note_anchoring url counts = (if map_of counts url = None then counts @ [(url, 0)] else counts)"

definition note_pending :: "uri \<Rightarrow> (uri \<times> nat) list \<Rightarrow> (uri \<times> nat) list" where
  "note_pending url counts =
     dict_put url ((case map_of counts url of None \<Rightarrow> 0 | Some n \<Rightarrow> n) + 1) counts"

definition note_proof :: "proof_anchors \<Rightarrow> (uri \<times> nat) list \<Rightarrow> (uri \<times> nat) list" where
  "note_proof described counts =
     fold note_pending (pending_calendars described)
       (fold note_anchoring (concat (map calendars (anchors described))) counts)"

definition count_proof ::
    "'w host \<Rightarrow> path \<Rightarrow> string \<Rightarrow> (uri \<times> nat) list \<Rightarrow> ('w, (uri \<times> nat) list) prog" where
  "count_proof h proof_dir name counts =
     bindP (askP (\<lambda>w. is_file (path_join proof_dir name) (store_of h w))) (\<lambda>there.
       if \<not> there \<or> \<not> is_proof_name name then ret counts
       else
         bindP (catchP
             (bindP (read_file h (path_join proof_dir name)) (\<lambda>data.
              bindP (liftE (describe_anchors (digest h) (ripemd h) data)) (\<lambda>d. ret (Some d))))
             (\<lambda>e. is_OSError e \<or> is_AnchorExtractionError e) (\<lambda>_. ret None)) (\<lambda>r.
         ret (case r of None \<Rightarrow> counts | Some d \<Rightarrow> note_proof d counts)))"

definition collect_calendar_urls :: "'w host \<Rightarrow> path \<Rightarrow> string \<Rightarrow> ('w, (uri \<times> nat) list) prog" where
  "collect_calendar_urls h root proof_directory =
     (let proof_dir = path_join root proof_directory in
      bindP (askP (\<lambda>w. is_dir proof_dir (store_of h w))) (\<lambda>there.
        if \<not> there then ret []
        else
          bindP (askP (\<lambda>w. sort (list_dir proof_dir (store_of h w)))) (\<lambda>names.
          foldP (count_proof h proof_dir) names [])))"

definition http_status_text :: "int \<Rightarrow> string" where
  "http_status_text code = ''HTTP '' @ int_str code"

definition run_probe :: "(string \<Rightarrow> bool) \<Rightarrow> 'w opener \<Rightarrow> uri \<Rightarrow> ('w, bool \<times> string) prog" where
  "run_probe rejects opener url =
     bindP (liftE (url_scheme rejects (bytes_text url))) (\<lambda>scheme.
     if scheme \<notin> {''http'', ''https''} then ret (False, ''unsupported URL scheme '' @ scheme)
     else (\<lambda>w. case opener (bytes_text url) w of
         (Inr response, w1) \<Rightarrow> ret (True, http_status_text (rs_status response)) w1
       | (Inl (HTTPError code), w1) \<Rightarrow> ret (True, http_status_text code) w1
       | (Inl (URLError reason), w1) \<Rightarrow> ret (False, reason) w1
       | (Inl (OtherOSError text), w1) \<Rightarrow> ret (False, text) w1
       | (Inl (BadProtocol text), w1) \<Rightarrow> raiseP (HTTPException text) w1))"

definition check_calendars ::
    "'w host \<Rightarrow> (string \<Rightarrow> bool) \<Rightarrow> 'w opener \<Rightarrow> path \<Rightarrow> string \<Rightarrow> ('w, server_status list) prog" where
  "check_calendars h rejects opener root proof_directory =
     bindP (collect_calendar_urls h root proof_directory) (\<lambda>counts.
     mapP (\<lambda>url. bindP (run_probe rejects opener url) (\<lambda>(reachable, detail).
         ret \<lparr>sv_url = url, sv_reachable = reachable, sv_detail = detail,
              sv_pending_proofs = the (map_of counts url)\<rparr>))
       (sort (map fst counts)))"

section \<open>Fetching what a calendar filed\<close>

definition calendar_endpoint :: "uri \<Rightarrow> bytes \<Rightarrow> string" where
  "calendar_endpoint url commitment =
     rev (dropWhile (\<lambda>c. c = CHR ''/'') (rev (bytes_text url))) @ ''/timestamp/'' @ hex_of commitment"

text \<open>The clauses after the request.\<close>

definition fetch_failed :: "http_failure \<Rightarrow> (bytes option \<times> string) result" where
  "fetch_failed f =
     (case f of
        HTTPError code \<Rightarrow> Inr (None, if code = 404 then ''not yet confirmed'' else http_status_text code)
      | URLError reason \<Rightarrow> Inr (None, reason)
      | OtherOSError text \<Rightarrow> Inr (None, text)
      | BadProtocol text \<Rightarrow> Inl (HTTPException text))"

definition fetch_body :: "http_response \<Rightarrow> (bytes option \<times> string) result" where
  "fetch_body response =
     (if rs_status response \<noteq> 200 then Inr (None, http_status_text (rs_status response))
      else case rs_read response (MAX_RESPONSE_BYTES + 1) of
        Inl f \<Rightarrow> fetch_failed f
      | Inr body \<Rightarrow>
          if body = [] then Inr (None, ''empty response'')
          else if length body > MAX_RESPONSE_BYTES then Inr (None, ''response exceeded size limit'')
          else Inr (Some body, ''ok''))"

definition fetch_calendar_timestamp :: "(string \<Rightarrow> bool) \<Rightarrow> 'w opener \<Rightarrow> 'w fetcher" where
  "fetch_calendar_timestamp rejects opener url commitment =
     bindP (liftE (url_scheme rejects (bytes_text url))) (\<lambda>scheme.
     if scheme \<notin> {''http'', ''https''} then ret (None, ''unsupported URL scheme '' @ scheme)
     else (\<lambda>w. case opener (calendar_endpoint url commitment) w of
         (Inr response, w1) \<Rightarrow> (fetch_body response, w1)
       | (Inl f, w1) \<Rightarrow> (fetch_failed f, w1)))"

end
