(* ===== verification/GitConfig.thy ===== *)
theory GitConfig
  imports Config GitBaseline
begin

text \<open>
  \<open>gitconfig.py\<close>: the \<open>ots.*\<close> namespace of Git's configuration, read with its scopes, and the
  effective configuration assembled from it. The set of boolean keys is read in the order given
  here; the source iterates over a set.
\<close>

section \<open>Reading the namespace\<close>

datatype config_value = CfgBool bool | CfgText string | CfgNone

record raw_config_value =
  rv_value :: config_value
  rv_scope :: string
  rv_enabling_scope :: "string option"

type_synonym records = "(string \<times> raw_config_value) list"

definition namespace_pattern :: string where
  "namespace_pattern = ''^ots'' @ [CHR 0x5C] @ ''.''"

definition boolean_keys :: "string list" where
  "boolean_keys = [''ots.everycommit'', ''ots.fetchbeforerun'', ''ots.requirecleanworktree'',
     ''ots.proofcommit'', ''ots.squashupgradecommits'']"

text \<open>\<open>--get\<close> and \<open>--get-regexp\<close> exit with 1 when nothing is set.\<close>

definition config_output :: "'w host \<Rightarrow> string list \<Rightarrow> ('w, string option) prog" where
  "config_output h args =
     catchP (bindP (git_out h args) (\<lambda>out. ret (Some out)))
       is_GitCommandError (\<lambda>e. if exc_exit_code e = 1 then ret None else raiseP e)"

definition key_and_value :: "string \<Rightarrow> string \<times> string option" where
  "key_and_value s = partition_char newline s"

fun raw_entries :: "string list \<Rightarrow> (string \<times> string option \<times> string) list \<Rightarrow>
     (string \<times> string option \<times> string) list result" where
  "raw_entries [] acc = Inr acc"
| "raw_entries [scope] acc = Inl IndexError"
| "raw_entries (scope # kv # rest) acc =
     (let (key, val) = key_and_value kv in raw_entries rest (dict_put key (val, scope) acc))"

definition without_last_empty :: "string list \<Rightarrow> string list" where
  "without_last_empty parts = (if parts \<noteq> [] \<and> last parts = [] then butlast parts else parts)"

definition read_raw_entries :: "'w host \<Rightarrow> ('w, (string \<times> string option \<times> string) list) prog" where
  "read_raw_entries h =
     bindP (config_output h [''config'', ''-z'', ''--show-scope'', ''--get-regexp'', namespace_pattern]) (\<lambda>r.
       case r of
         None \<Rightarrow> ret []
       | Some out \<Rightarrow> liftE (raw_entries (without_last_empty (split_char nul out)) []))"

fun scoped_values :: "string list \<Rightarrow> (bool \<times> string) list result" where
  "scoped_values [] = Inr []"
| "scoped_values [scope] = Inl IndexError"
| "scoped_values (scope # v # rest) =
     bindE (scoped_values rest) (\<lambda>vs. Inr ((v = ''true'', scope) # vs))"

definition boolean_of :: "(bool \<times> string) list \<Rightarrow> raw_config_value result" where
  "boolean_of scoped =
     (if scoped = [] then Inl IndexError
      else Inr \<lparr>rv_value = CfgBool (fst (last scoped)), rv_scope = snd (last scoped),
        rv_enabling_scope = map_option snd (List.find fst (rev scoped))\<rparr>)"

definition read_boolean :: "'w host \<Rightarrow> string \<Rightarrow> ('w, raw_config_value option) prog" where
  "read_boolean h key =
     bindP (config_output h [''config'', ''-z'', ''--show-scope'', ''--type=bool'', ''--get-all'', key]) (\<lambda>r.
       case r of
         None \<Rightarrow> ret None
       | Some out \<Rightarrow>
           bindP (liftE (bindE (scoped_values (butlast (split_char nul out))) boolean_of)) (\<lambda>v. ret (Some v)))"

definition raw_value :: "string option \<Rightarrow> config_value" where
  "raw_value v = (case v of None \<Rightarrow> CfgNone | Some s \<Rightarrow> CfgText s)"

definition text_records :: "(string \<times> string option \<times> string) list \<Rightarrow> records" where
  "text_records entries =
     map (\<lambda>(key, val, scope). (key, \<lparr>rv_value = raw_value val, rv_scope = scope, rv_enabling_scope = None\<rparr>))
       (filter (\<lambda>(key, _). key \<notin> set boolean_keys) entries)"

definition read_namespace :: "'w host \<Rightarrow> ('w, records) prog" where
  "read_namespace h =
     bindP (read_raw_entries h) (\<lambda>entries.
       foldP (\<lambda>key records.
           bindP (read_boolean h key) (\<lambda>r.
           ret (case r of None \<Rightarrow> records | Some v \<Rightarrow> dict_put key v records)))
         boolean_keys (text_records entries))"

section \<open>The mapping\<close>

datatype config_field =
    EveryCommit | MaxAge | FixedTime | Timezone | InitialHistory | SourceRef | FetchBeforeRun | TagPrefix
  | RequireCleanWorktree | Signing | ProofCommit | ProofDirectory | SquashUpgradeCommits | Command
  | OtsTimeout | GitTimeout

record mapping_row =
  mr_key :: string
  mr_field :: config_field
  mr_is_trigger :: bool

definition row :: "string \<Rightarrow> config_field \<Rightarrow> bool \<Rightarrow> mapping_row" where
  "row key fld trigger = \<lparr>mr_key = key, mr_field = fld, mr_is_trigger = trigger\<rparr>"

definition MAPPING :: "mapping_row list" where
  "MAPPING =
     [row ''ots.everycommit'' EveryCommit True, row ''ots.maxage'' MaxAge True,
      row ''ots.fixedtime'' FixedTime True, row ''ots.timezone'' Timezone True,
      row ''ots.initialhistory'' InitialHistory False, row ''ots.sourceref'' SourceRef False,
      row ''ots.fetchbeforerun'' FetchBeforeRun False, row ''ots.tagprefix'' TagPrefix False,
      row ''ots.requirecleanworktree'' RequireCleanWorktree False, row ''ots.signing'' Signing False,
      row ''ots.proofcommit'' ProofCommit False, row ''ots.proofdirectory'' ProofDirectory False,
      row ''ots.squashupgradecommits'' SquashUpgradeCommits False, row ''ots.command'' Command False,
      row ''ots.otstimeout'' OtsTimeout False, row ''ots.gittimeout'' GitTimeout False]"

definition parse_timeout :: "string \<Rightarrow> int option result" where
  "parse_timeout text =
     (if text = ''0'' then Inr None
      else catchE (bindE (parse_duration text) (\<lambda>d. Inr (Some d)))
        is_ConfigError (\<lambda>_. Inl (ConfigError ''unsupported duration (or 0 for unbounded)'')))"

section \<open>The trigger ladder\<close>

definition scope_tier :: "string \<Rightarrow> nat option" where
  "scope_tier scope = map_of [(''system'', 0), (''global'', 1), (''local'', 2), (''worktree'', 3), (''command'', 4)] scope"

definition tier_of :: "string \<Rightarrow> nat result" where
  "tier_of scope = (case scope_tier scope of None \<Rightarrow> Inl KeyError | Some n \<Rightarrow> Inr n)"

definition default_origin :: string where
  "default_origin = ''default''"

definition scope_origin :: "string \<Rightarrow> string" where
  "scope_origin scope = ''git config '' @ scope"

record trigger_values =
  tv_every_commit :: bool
  tv_max_age :: "int option"
  tv_fixed_time :: "int option"
  tv_timezone :: "zone option"

type_synonym origins = "(string \<times> string) list"

text \<open>The value of one trigger key, parsed wherever it is set.\<close>

definition trigger_value :: "string \<Rightarrow> (string \<Rightarrow> 'a result) \<Rightarrow> raw_config_value option \<Rightarrow> 'a option result" where
  "trigger_value message parse r =
     (case r of
        None \<Rightarrow> Inr None
      | Some v \<Rightarrow>
          (case rv_value v of
             CfgNone \<Rightarrow> Inl (ConfigError message)
           | CfgText s \<Rightarrow> bindE (parse s) (\<lambda>x. Inr (Some x))
           | CfgBool _ \<Rightarrow> Inl (TypeError ''expected string'')))"

definition enabling_scopes :: "records \<Rightarrow> string list" where
  "enabling_scopes records =
     (case map_of records ''ots.everycommit'' of None \<Rightarrow> []
      | Some r \<Rightarrow> (case rv_enabling_scope r of None \<Rightarrow> [] | Some s \<Rightarrow> [s])) @
     (case map_of records ''ots.maxage'' of None \<Rightarrow> [] | Some r \<Rightarrow> [rv_scope r]) @
     (case map_of records ''ots.fixedtime'' of None \<Rightarrow> [] | Some r \<Rightarrow> [rv_scope r])"

definition at_tier :: "nat \<Rightarrow> raw_config_value option \<Rightarrow> 'a option \<Rightarrow> 'a option result" where
  "at_tier winning r v =
     (case r of
        None \<Rightarrow> Inr None
      | Some x \<Rightarrow> bindE (tier_of (rv_scope x)) (\<lambda>t. Inr (if t = winning then v else None)))"

definition origin_of :: "raw_config_value option \<Rightarrow> 'a option \<Rightarrow> string" where
  "origin_of r v =
     (case v of None \<Rightarrow> default_origin
      | Some _ \<Rightarrow> (case r of None \<Rightarrow> default_origin | Some x \<Rightarrow> scope_origin (rv_scope x)))"

definition default_triggers :: trigger_values where
  "default_triggers = \<lparr>tv_every_commit = False, tv_max_age = Some default_max_age, tv_fixed_time = None,
     tv_timezone = None\<rparr>"

definition trigger_origins :: "string \<Rightarrow> string \<Rightarrow> string \<Rightarrow> string \<Rightarrow> origins" where
  "trigger_origins every age fixed tz =
     [(''ots.everycommit'', every), (''ots.maxage'', age), (''ots.fixedtime'', fixed), (''ots.timezone'', tz)]"

definition resolve_triggers ::
    "(string \<Rightarrow> zone option) \<Rightarrow> records \<Rightarrow> (trigger_values \<times> origins) result" where
  "resolve_triggers zoneinfo records =
     (let every_rec = map_of records ''ots.everycommit'';
          age_rec = map_of records ''ots.maxage'';
          fixed_rec = map_of records ''ots.fixedtime'';
          zone_rec = map_of records ''ots.timezone'';
          every_scope = Option.bind every_rec rv_enabling_scope
      in
      bindE (trigger_value ''ots.maxAge requires a value'' parse_duration age_rec) (\<lambda>age_value.
      bindE (trigger_value ''ots.fixedTime requires a value'' parse_fixed_time fixed_rec) (\<lambda>fixed_value.
      bindE (trigger_value ''ots.timezone requires a value'' (parse_timezone zoneinfo) zone_rec) (\<lambda>zone_value.
      bindE (mapE tier_of (enabling_scopes records)) (\<lambda>tiers.
        if tiers = [] then
          Inr (default_triggers, trigger_origins default_origin default_origin default_origin default_origin)
        else
          let winning = foldl max 0 tiers in
          bindE (case every_scope of None \<Rightarrow> Inr False
            | Some s \<Rightarrow> bindE (tier_of s) (\<lambda>t. Inr (t = winning))) (\<lambda>every.
          bindE (at_tier winning age_rec age_value) (\<lambda>age.
          bindE (at_tier winning fixed_rec fixed_value) (\<lambda>fixed.
          bindE (at_tier winning zone_rec zone_value) (\<lambda>tz.
          guardE (\<not> (fixed \<noteq> None \<and> tz = None))
            (ConfigError ''ots.fixedTime requires a configured ots.timezone in the same scope'') (
          guardE (\<not> (tz \<noteq> None \<and> fixed = None))
            (ConfigError ''ots.timezone is only meaningful with ots.fixedTime in the same scope'') (
          Inr (\<lparr>tv_every_commit = every, tv_max_age = age, tv_fixed_time = fixed, tv_timezone = tz\<rparr>,
            trigger_origins
              (case every_scope of None \<Rightarrow> default_origin
               | Some s \<Rightarrow> if every then scope_origin s else default_origin)
              (origin_of age_rec age) (origin_of fixed_rec fixed) (origin_of zone_rec tz)))))))))))))"

section \<open>Assembling the configuration\<close>

text \<open>One row that is no trigger: the value parsed and put into its section.\<close>

definition text_value :: "config_value \<Rightarrow> string result" where
  "text_value v = (case v of CfgText s \<Rightarrow> Inr s | _ \<Rightarrow> Inl (TypeError ''expected string''))"

definition bool_value :: "config_value \<Rightarrow> bool result" where
  "bool_value v = (case v of CfgBool b \<Rightarrow> Inr b | _ \<Rightarrow> Inl (TypeError ''expected bool''))"

fun set_field :: "config_field \<Rightarrow> config_value \<Rightarrow> config \<Rightarrow> config result" where
  "set_field InitialHistory v c = bindE (bindE (text_value v) parse_initial_history) (\<lambda>s.
     Inr (c\<lparr>cf_policy := (cf_policy c)\<lparr>pc_initial_history := s\<rparr>\<rparr>))"
| "set_field SourceRef v c = bindE (text_value v) (\<lambda>s. Inr (c\<lparr>cf_git := (cf_git c)\<lparr>gc_source_ref := s\<rparr>\<rparr>))"
| "set_field FetchBeforeRun v c =
     bindE (bool_value v) (\<lambda>b. Inr (c\<lparr>cf_git := (cf_git c)\<lparr>gc_fetch_before_run := b\<rparr>\<rparr>))"
| "set_field TagPrefix v c = bindE (bindE (text_value v) validate_tag_prefix) (\<lambda>s.
     Inr (c\<lparr>cf_git := (cf_git c)\<lparr>gc_tag_prefix := s\<rparr>\<rparr>))"
| "set_field RequireCleanWorktree v c =
     bindE (bool_value v) (\<lambda>b. Inr (c\<lparr>cf_git := (cf_git c)\<lparr>gc_require_clean_worktree := b\<rparr>\<rparr>))"
| "set_field Signing v c = bindE (bindE (text_value v) parse_signing) (\<lambda>s.
     Inr (c\<lparr>cf_git := (cf_git c)\<lparr>gc_signing := s\<rparr>\<rparr>))"
| "set_field ProofCommit v c =
     bindE (bool_value v) (\<lambda>b. Inr (c\<lparr>cf_proof := (cf_proof c)\<lparr>pr_commit := b\<rparr>\<rparr>))"
| "set_field ProofDirectory v c = bindE (bindE (text_value v) validate_configured_directory) (\<lambda>s.
     Inr (c\<lparr>cf_proof := (cf_proof c)\<lparr>pr_directory := s\<rparr>\<rparr>))"
| "set_field SquashUpgradeCommits v c =
     bindE (bool_value v) (\<lambda>b. Inr (c\<lparr>cf_proof := (cf_proof c)\<lparr>pr_squash_upgrade_commits := b\<rparr>\<rparr>))"
| "set_field Command v c = bindE (text_value v) (\<lambda>s. Inr (c\<lparr>cf_command := s\<rparr>))"
| "set_field OtsTimeout v c = bindE (bindE (text_value v) parse_timeout) (\<lambda>t.
     Inr (c\<lparr>cf_limits := (cf_limits c)\<lparr>lc_ots_timeout := t\<rparr>\<rparr>))"
| "set_field GitTimeout v c = bindE (bindE (text_value v) parse_timeout) (\<lambda>t.
     Inr (c\<lparr>cf_limits := (cf_limits c)\<lparr>lc_git_timeout := t\<rparr>\<rparr>))"
| "set_field EveryCommit v c = Inr c"
| "set_field MaxAge v c = Inr c"
| "set_field FixedTime v c = Inr c"
| "set_field Timezone v c = Inr c"

definition apply_row :: "records \<Rightarrow> mapping_row \<Rightarrow> config \<times> origins \<Rightarrow> (config \<times> origins) result" where
  "apply_row records r acc =
     (let (c, os) = acc in
      case map_of records (mr_key r) of
        None \<Rightarrow> Inr (c, os @ [(mr_key r, default_origin)])
      | Some v \<Rightarrow>
          if rv_value v = CfgNone then Inl (ConfigError (mr_key r @ '' requires a value''))
          else bindE (set_field (mr_field r) (rv_value v) c) (\<lambda>c'.
            Inr (c', os @ [(mr_key r, scope_origin (rv_scope v))])))"

fun apply_rows :: "records \<Rightarrow> mapping_row list \<Rightarrow> config \<times> origins \<Rightarrow> (config \<times> origins) result" where
  "apply_rows records [] acc = Inr acc"
| "apply_rows records (r # rs) acc =
     (if mr_is_trigger r then apply_rows records rs acc
      else bindE (apply_row records r acc) (apply_rows records rs))"

definition with_triggers :: "trigger_values \<Rightarrow> config \<Rightarrow> config" where
  "with_triggers tv c = c\<lparr>cf_policy := (cf_policy c)\<lparr>pc_every_commit := tv_every_commit tv,
     pc_max_age := tv_max_age tv, pc_fixed_time := tv_fixed_time tv, pc_timezone := tv_timezone tv\<rparr>\<rparr>"

record assembled =
  as_config :: config
  as_origins :: origins
  as_warned :: bool

definition assemble :: "(string \<Rightarrow> zone option) \<Rightarrow> records \<Rightarrow> assembled result" where
  "assemble zoneinfo records =
     (if list_ex (\<lambda>(key, _). key \<notin> set (map mr_key MAPPING)) records
      then Inl (ConfigError ''unknown configuration key'')
      else
        bindE (apply_rows records MAPPING (default_config, [])) (\<lambda>(c, os).
        bindE (resolve_triggers zoneinfo records) (\<lambda>(tv, tos).
        let effective = with_triggers tv c in
        Inr \<lparr>as_config = effective, as_origins = os @ tos,
          as_warned = (case pc_max_age (cf_policy effective) of None \<Rightarrow> False | Some a \<Rightarrow> a < hours 1)\<rparr>)))"

definition assemble_config :: "'w host \<Rightarrow> (string \<Rightarrow> zone option) \<Rightarrow> ('w, config) prog" where
  "assemble_config h zoneinfo =
     bindP (read_namespace h) (\<lambda>records.
     bindP (liftE (assemble zoneinfo records)) (\<lambda>a. ret (as_config a)))"

definition describe_effective_configuration ::
    "'w host \<Rightarrow> (string \<Rightarrow> zone option) \<Rightarrow> ('w, config \<times> origins) prog" where
  "describe_effective_configuration h zoneinfo =
     bindP (read_namespace h) (\<lambda>records.
     bindP (liftE (assemble zoneinfo records)) (\<lambda>a. ret (as_config a, as_origins a)))"

end
