(* ===== verification/CliReport.thy ===== *)
theory CliReport
  imports Servers Repair Orchestration GitConfig
begin

text \<open>
  What the commands of \<open>cli.py\<close> print: the decision of a run, the status, where each proof is anchored,
  the state of the calendars, and the effective configuration. A report is the list of its lines.
\<close>

section \<open>Durations and ids\<close>

text \<open>\<open>int(td.total_seconds())\<close>, which drops the fraction; floating point is taken as exact.\<close>

definition whole_seconds :: "int \<Rightarrow> int" where
  "whole_seconds td = (if 0 \<le> td then td div microseconds else - (- td div microseconds))"

definition format_age :: "int \<Rightarrow> string" where
  "format_age td =
     (let total = whole_seconds td; h = total div 3600; m = total mod 3600 div 60;
          text = (if h \<noteq> 0 then int_str h @ ''h'' else []) @ (if m \<noteq> 0 then int_str m @ ''m'' else [])
      in if text \<noteq> [] then text else ''0m'')"

definition short_id :: "commit_id \<Rightarrow> string" where
  "short_id cid = take 12 cid"

definition short_source :: "commit_id \<Rightarrow> string" where
  "short_source cid = (if cid \<noteq> [] then take 12 cid else ''unknown'')"

section \<open>The decision and the status\<close>

text \<open>\<open>min(snapshot.pending, key=...)\<close>: the first of the oldest.\<close>

fun oldest_of :: "commit_info \<Rightarrow> commit_info list \<Rightarrow> commit_info" where
  "oldest_of m [] = m"
| "oldest_of m (c # cs) = oldest_of (if ci_committer_time c < ci_committer_time m then c else m) cs"

definition pending_age :: "repository_snapshot \<Rightarrow> int option" where
  "pending_age s =
     (case sn_pending s of
        [] \<Rightarrow> None
      | c # cs \<Rightarrow> Some (ps_now (sn_policy_state s) - ci_committer_time (oldest_of c cs)))"

definition decision_lines :: "repository_snapshot \<Rightarrow> string list" where
  "decision_lines s =
     (if de_commits (sn_decision s) = [] then
        (case pending_age s of
           None \<Rightarrow> [''No timestamp required.'']
         | Some age \<Rightarrow> [''No timestamp required: '' @ nat_str (length (sn_pending s)) @
             '' pending commits, oldest age '' @ format_age age @ ''.''])
      else
        map (\<lambda>c. ''Selected: '' @ pd_commit_id c @ '' ('' @ short_id (pd_commit_id c) @ '')'')
          (de_commits (sn_decision s)) @
        [''Triggers: '' @ join_with '' '' (sorted_set (de_triggers (sn_decision s)))])"

definition due_line :: "string \<Rightarrow> bool \<Rightarrow> string" where
  "due_line trigger due = trigger @ '' trigger: '' @ (if due then ''due'' else ''not due'')"

definition status_lines :: "repository_snapshot \<Rightarrow> string list" where
  "status_lines s =
     [''source ref: '' @ display_ref (sn_source s),
      ''source commit: '' @ short_id (resolved_commit_id (sn_source s)),
      ''last timestamped source: '' @
        (case baseline_source (sn_baseline s) of None \<Rightarrow> ''none'' | Some b \<Rightarrow> short_id b),
      ''pending meaningful: '' @ nat_str (length (sn_pending s)),
      ''oldest pending age: '' @ (case pending_age s of None \<Rightarrow> ''N/A'' | Some age \<Rightarrow> format_age age),
      due_line ''max-age'' (''max_age'' \<in> set (de_triggers (sn_decision s))),
      due_line ''fixed-time'' (''fixed_time'' \<in> set (de_triggers (sn_decision s)))]"

section \<open>Anchors of the stored proofs\<close>

text \<open>\<open>str(exc)\<close> of the exceptions that are reported.\<close>

fun exc_text :: "exc \<Rightarrow> string" where
  "exc_text (AnchorExtractionError s) = s"
| "exc_text (OSError s) = s"
| "exc_text _ = []"

type_synonym described = "commit_id \<times> (string + proof_anchors)"

definition describe_stored :: "'w host \<Rightarrow> path \<Rightarrow> string \<Rightarrow> ('w, described) prog" where
  "describe_stored h proof_dir name =
     catchP
       (bindP (read_file h (path_join proof_dir name)) (\<lambda>data.
        bindP (liftE (describe_anchors (digest h) (ripemd h) data)) (\<lambda>a. ret (stem name, Inr a))))
       (\<lambda>e. is_OSError e \<or> is_AnchorExtractionError e)
       (\<lambda>e. ret (stem name, Inl (exc_text e)))"

definition is_anchored :: "described \<Rightarrow> bool" where
  "is_anchored d \<longleftrightarrow> (case snd d of Inr a \<Rightarrow> anchors a \<noteq> [] | Inl _ \<Rightarrow> False)"

definition is_waiting :: "described \<Rightarrow> bool" where
  "is_waiting d \<longleftrightarrow> (case snd d of Inr a \<Rightarrow> anchors a = [] | Inl _ \<Rightarrow> False)"

definition is_unreadable :: "described \<Rightarrow> bool" where
  "is_unreadable d \<longleftrightarrow> (case snd d of Inr _ \<Rightarrow> False | Inl _ \<Rightarrow> True)"

definition count_of :: "('a \<Rightarrow> bool) \<Rightarrow> 'a list \<Rightarrow> nat" where
  "count_of p xs = length (filter p xs)"

definition anchors_summary :: "described list \<Rightarrow> string" where
  "anchors_summary ds =
     ''proofs: '' @ nat_str (count_of is_anchored ds) @ '' anchored, '' @
     nat_str (count_of is_waiting ds) @ '' pending'' @
     (if count_of is_unreadable ds \<noteq> 0 then '', '' @ nat_str (count_of is_unreadable ds) @ '' unreadable'' else [])"

definition anchor_lines :: "bitcoin_anchor \<Rightarrow> string list" where
  "anchor_lines a =
     [''    block '' @ nat_str (block_height a) @ '' via '' @
        (case calendars a of [] \<Rightarrow> ''unknown calendar'' | u # _ \<Rightarrow> bytes_text u)] @
     (case transaction_id a of None \<Rightarrow> [] | Some t \<Rightarrow> [''      tx '' @ t]) @
     (case op_return_data a of None \<Rightarrow> [] | Some d \<Rightarrow> [''      op_return '' @ d]) @
     [''      merkle root '' @ block_merkle_root a]"

definition described_lines :: "described \<Rightarrow> string list" where
  "described_lines d =
     (case d of
        (source, Inl error) \<Rightarrow> [''  '' @ short_id source @ '' unreadable: '' @ error]
      | (source, Inr a) \<Rightarrow>
          let promised = length (promised_calendars a) in
          [''  '' @ short_id source @ '' '' @ (if anchors a \<noteq> [] then ''anchored'' else ''pending'') @
             (if promised \<noteq> 0 then '' ('' @ nat_str (length (anchoring_calendars a)) @ '' of '' @
                nat_str promised @ '' calendars anchored)'' else [])] @
          concat (map anchor_lines (anchors a)) @
          map (\<lambda>u. ''    awaiting '' @ bytes_text u) (pending_calendars a))"

definition proof_anchor_lines :: "'w host \<Rightarrow> path \<Rightarrow> string \<Rightarrow> ('w, string list) prog" where
  "proof_anchor_lines h root d =
     (let proof_dir = path_join root d in
      bindP (askP (\<lambda>w. is_dir proof_dir (store_of h w))) (\<lambda>there.
      if \<not> there then ret [''proofs: none'']
      else
        bindP (askP (\<lambda>w. filter (\<lambda>n. is_file (path_join proof_dir n) (store_of h w) \<and> is_proof_name n)
            (sort (list_dir proof_dir (store_of h w))))) (\<lambda>names.
        if names = [] then ret [''proofs: none'']
        else
          bindP (mapP (describe_stored h proof_dir) names) (\<lambda>ds.
          ret (anchors_summary ds # concat (map described_lines ds))))))"

section \<open>Calendars\<close>

definition server_line :: "server_status \<Rightarrow> string" where
  "server_line r =
     ''  '' @ bytes_text (sv_url r) @ '' '' @ (if sv_reachable r then ''ok'' else ''unavailable'') @ '' ('' @ sv_detail r @
     (if sv_pending_proofs r \<noteq> 0 then '', '' @ nat_str (sv_pending_proofs r) @ '' pending'' else []) @ '')''"

definition server_lines :: "server_status list \<Rightarrow> string list" where
  "server_lines rs =
     (if rs = [] then [''calendars: none named by stored proofs'']
      else (''calendars: '' @ nat_str (count_of sv_reachable rs) @ ''/'' @ nat_str (length rs) @ '' reachable'') #
        map server_line rs)"

definition server_warnings :: "server_status list \<Rightarrow> string list" where
  "server_warnings rs =
     map (\<lambda>r. ''Warning: calendar '' @ bytes_text (sv_url r) @ '' is unavailable ('' @ sv_detail r @ ''); '' @
         (if sv_pending_proofs r \<noteq> 0
          then nat_str (sv_pending_proofs r) @
            '' proof(s) are waiting on it and cannot be completed by `git-ots upgrade`.''
          else ''no proof is currently waiting on it.''))
       (filter (\<lambda>r. \<not> sv_reachable r) rs)"

section \<open>The effective configuration\<close>

definition format_config_duration :: "int \<Rightarrow> string" where
  "format_config_duration td =
     (let total = whole_seconds td in
      if total \<noteq> 0 \<and> total mod 86400 = 0 then int_str (total div 86400) @ ''d''
      else if total \<noteq> 0 \<and> total mod 3600 = 0 then int_str (total div 3600) @ ''h''
      else if total \<noteq> 0 \<and> total mod 60 = 0 then int_str (total div 60) @ ''m''
      else int_str total @ ''s'')"

text \<open>The value of a field as Python has it.\<close>

datatype field_value = FBool bool | FNone | FDuration int | FTime int | FText string

definition optional_value :: "('a \<Rightarrow> field_value) \<Rightarrow> 'a option \<Rightarrow> field_value" where
  "optional_value f a = (case a of None \<Rightarrow> FNone | Some x \<Rightarrow> f x)"

fun field_of :: "(zone \<Rightarrow> string) \<Rightarrow> config \<Rightarrow> config_field \<Rightarrow> field_value" where
  "field_of zone_key c EveryCommit = FBool (pc_every_commit (cf_policy c))"
| "field_of zone_key c MaxAge = optional_value FDuration (pc_max_age (cf_policy c))"
| "field_of zone_key c FixedTime = optional_value FTime (pc_fixed_time (cf_policy c))"
| "field_of zone_key c Timezone = optional_value (\<lambda>z. FText (zone_key z)) (pc_timezone (cf_policy c))"
| "field_of zone_key c InitialHistory = FText (pc_initial_history (cf_policy c))"
| "field_of zone_key c SourceRef = FText (gc_source_ref (cf_git c))"
| "field_of zone_key c FetchBeforeRun = FBool (gc_fetch_before_run (cf_git c))"
| "field_of zone_key c TagPrefix = FText (gc_tag_prefix (cf_git c))"
| "field_of zone_key c RequireCleanWorktree = FBool (gc_require_clean_worktree (cf_git c))"
| "field_of zone_key c Signing = FText (gc_signing (cf_git c))"
| "field_of zone_key c ProofCommit = FBool (pr_commit (cf_proof c))"
| "field_of zone_key c ProofDirectory = FText (pr_directory (cf_proof c))"
| "field_of zone_key c SquashUpgradeCommits = FBool (pr_squash_upgrade_commits (cf_proof c))"
| "field_of zone_key c Command = FText (cf_command c)"
| "field_of zone_key c OtsTimeout = optional_value FDuration (lc_ots_timeout (cf_limits c))"
| "field_of zone_key c GitTimeout = optional_value FDuration (lc_git_timeout (cf_limits c))"

definition in_limits :: "config_field \<Rightarrow> bool" where
  "in_limits f \<longleftrightarrow> f = OtsTimeout \<or> f = GitTimeout"

definition clock_text :: "int \<Rightarrow> string" where
  "clock_text t = pad2 (t div hours 1) @ '':'' @ pad2 (t mod hours 1 div (60 * microseconds))"

fun format_config_value :: "bool \<Rightarrow> field_value \<Rightarrow> string" where
  "format_config_value limits (FBool b) = (if b then ''true'' else ''false'')"
| "format_config_value limits FNone = (if limits then ''0 (unbounded)'' else ''<unset>'')"
| "format_config_value limits (FDuration d) = format_config_duration d"
| "format_config_value limits (FTime t) = clock_text t"
| "format_config_value limits (FText s) = s"

definition ljust :: "nat \<Rightarrow> string \<Rightarrow> string" where
  "ljust n s = s @ replicate (n - length s) (CHR '' '')"

definition config_rows :: "(zone \<Rightarrow> string) \<Rightarrow> config \<Rightarrow> origins \<Rightarrow> (string \<times> string \<times> string) list result" where
  "config_rows zone_key c origins =
     mapE (\<lambda>r. case map_of origins (mr_key r) of
         None \<Rightarrow> Inl KeyError
       | Some origin \<Rightarrow> Inr (mr_key r,
           format_config_value (in_limits (mr_field r)) (field_of zone_key c (mr_field r)), origin))
       MAPPING"

definition config_lines :: "(string \<times> string \<times> string) list \<Rightarrow> string list" where
  "config_lines rows =
     (let key_width = Max (set (map (\<lambda>(k, _, _). length k) rows));
          value_width = Max (set (map (\<lambda>(_, v, _). length v) rows)) in
      map (\<lambda>(k, v, origin). ljust key_width k @ ''  '' @ ljust value_width v @ ''  '' @ origin) rows)"

end
