(* ===== verification/Cli.thy ===== *)
theory Cli
  imports CliReport
begin

text \<open>
  \<open>cli.py\<close>: the seven commands and the translation of their exceptions into exit codes. The arguments
  are those \<open>argparse\<close> hands over. What is printed on standard output is a line at a time, as is what
  goes to standard error.
\<close>

section \<open>The invocation\<close>

text \<open>
  What an invocation is given. \<open>cc_clock\<close> is \<open>datetime.now(UTC)\<close>, \<open>cc_which\<close> is \<open>shutil.which\<close>,
  \<open>cc_zone_key\<close> the key a \<open>ZoneInfo\<close> prints as, \<open>cc_debug\<close> the value of \<open>GIT_OTS_DEBUG\<close>.
\<close>

record 'w cli_context =
  cc_host :: "'w host"
  cc_locks :: "'w lock_access"
  cc_client :: "'w ots_cli"
  cc_opener :: "'w opener"
  cc_rejects :: "string \<Rightarrow> bool"
  cc_zoneinfo :: "string \<Rightarrow> zone option"
  cc_zone_key :: "zone \<Rightarrow> string"
  cc_version :: string
  cc_clock :: "'w \<Rightarrow> instant"
  cc_which :: "string \<Rightarrow> 'w \<Rightarrow> bool"
  cc_print :: "string \<Rightarrow> 'w \<Rightarrow> 'w"
  cc_error :: "string \<Rightarrow> 'w \<Rightarrow> 'w"
  cc_debug :: string
  cc_cwd :: path

definition IDLE_EXIT_CODE :: nat where
  "IDLE_EXIT_CODE = 100"

definition say :: "'w cli_context \<Rightarrow> string list \<Rightarrow> ('w, unit) prog" where
  "say x ls = doP (fold (cc_print x) ls)"

definition complain :: "'w cli_context \<Rightarrow> string list \<Rightarrow> ('w, unit) prog" where
  "complain x ls = doP (fold (cc_error x) ls)"

text \<open>\<open>_logger.info\<close> and \<open>_logger.warning\<close> under \<open>_configure_logging\<close>.\<close>

definition log_info :: "'w cli_context \<Rightarrow> bool \<Rightarrow> string \<Rightarrow> ('w, unit) prog" where
  "log_info x verbose line = (if verbose then complain x [line] else ret ())"

definition debug_from_environment :: "string \<Rightarrow> bool" where
  "debug_from_environment text = (str_lower (strip text) \<in> {''1'', ''true'', ''yes'', ''on''})"

definition cli_locate_repository :: "'w cli_context \<Rightarrow> ('w, repository_layout) prog" where
  "cli_locate_repository x =
     catchP (locate_repository (cc_host x) (cc_cwd x)) is_GitCommandError
       (\<lambda>_. raiseP (InvalidRepositoryStateError ''cannot locate Git repository''))"

definition client_of :: "'w cli_context \<Rightarrow> config \<Rightarrow> 'w ots_cli" where
  "client_of x cfg = (cc_client x)\<lparr>ots_command := cf_command cfg, ots_limit := lc_ots_timeout (cf_limits cfg)\<rparr>"

text \<open>The opening of every command: the repository and its configuration.\<close>

definition opened :: "'w cli_context \<Rightarrow> ('w, repository_layout \<times> config) prog" where
  "opened x =
     bindP (cli_locate_repository x) (\<lambda>layout.
     bindP (assemble_config (cc_host x) (cc_zoneinfo x)) (\<lambda>cfg. ret (layout, cfg)))"

section \<open>The command run\<close>

definition context_of_run :: "'w cli_context \<Rightarrow> repository_snapshot \<Rightarrow> instant \<Rightarrow> 'w run_context" where
  "context_of_run x snapshot t =
     \<lparr>rc_host = cc_host x, rc_client = cc_client x, rc_version = cc_version x, rc_snapshot = snapshot,
      rc_now = t, rc_collaborators = no_collaborators\<rparr>"

text \<open>\<open>run_orchestration(snapshot=snapshot)\<close>, which reads the clock itself.\<close>

definition orchestrate :: "'w cli_context \<Rightarrow> repository_snapshot \<Rightarrow> ('w, run_outcome) prog" where
  "orchestrate x snapshot =
     bindP (askP (cc_clock x)) (\<lambda>t. run_timestamping (cc_locks x) (context_of_run x snapshot t))"

definition outcome_lines :: "run_outcome \<Rightarrow> string list" where
  "outcome_lines o' =
     map (\<lambda>c. ''completed timestamp tag for '' @ short_id c @ '' from its stored proof'')
       (filter (\<lambda>c. c \<notin> set (ro_timestamped o')) (ro_tagged o')) @
     map (\<lambda>c. ''committed stored proof artifacts for '' @ short_id c)
       (filter (\<lambda>c. c \<notin> set (ro_timestamped o')) (ro_committed o')) @
     (if ro_deferred o' \<noteq> []
      then [''deferred timestamping '' @ join_with '', '' (map short_id (ro_deferred o')) @
        '' to finish an earlier run's unrecorded submission first'']
      else [])"

definition act :: "'w cli_context \<Rightarrow> bool \<Rightarrow> bool \<Rightarrow> repository_snapshot \<Rightarrow> ('w, run_outcome) prog" where
  "act x verbose push snapshot =
     bindP (if de_commits (sn_decision snapshot) \<noteq> []
       then log_info x verbose (''Timestamping '' @ nat_str (length (de_commits (sn_decision snapshot))) @ '' commit(s)'')
       else ret ()) (\<lambda>_.
     bindP (orchestrate x snapshot) (\<lambda>o'.
     bindP (say x (outcome_lines o')) (\<lambda>_.
     bindP (if push \<and> outcome_changed o' then push_current_branch (cc_host x) else ret ()) (\<lambda>_.
     bindP (log_info x verbose ''Operations complete'') (\<lambda>_. ret o')))))"

definition inspect_and_act ::
    "'w cli_context \<Rightarrow> instant \<Rightarrow> bool \<Rightarrow> bool \<Rightarrow> bool \<Rightarrow> path \<Rightarrow> config \<Rightarrow> ('w, run_outcome option) prog" where
  "inspect_and_act x now dry_run verbose push root cfg =
     (let h = cc_host x in
      bindP (maybe_fetch_before_run h (gc_source_ref (cf_git cfg)) (gc_fetch_before_run (cf_git cfg))) (\<lambda>_.
      bindP (build_snapshot h root cfg now) (\<lambda>snapshot.
      bindP (if dry_run then ret () else assert_committable_state h root (pr_commit (cf_proof cfg))) (\<lambda>_.
      let triggers = sorted_set (de_triggers (sn_decision snapshot)) in
      bindP (log_info x verbose (''Policy decision: '' @
        (if triggers = [] then ''no action'' else join_with '', '' triggers))) (\<lambda>_.
      bindP (say x (decision_lines snapshot)) (\<lambda>_.
      if dry_run then ret None else bindP (act x verbose push snapshot) (\<lambda>o'. ret (Some o'))))))))"

definition run_command ::
    "'w cli_context \<Rightarrow> instant \<Rightarrow> bool \<Rightarrow> bool \<Rightarrow> bool \<Rightarrow> bool \<Rightarrow> ('w, nat) prog" where
  "run_command x now dry_run verbose idle_code push =
     bindP (log_info x verbose ''Inspecting repository state'') (\<lambda>_.
     bindP (cli_locate_repository x) (\<lambda>layout.
     bindP (liftE (assert_worktree_present layout)) (\<lambda>_.
     bindP (assemble_config (cc_host x) (cc_zoneinfo x)) (\<lambda>cfg.
     bindP (with_lock (cc_locks x) (common_git_dir layout)
       (inspect_and_act x now dry_run verbose push (worktree_root layout) cfg)) (\<lambda>outcome.
     ret (case outcome of
            Some o' \<Rightarrow> if idle_code \<and> \<not> dry_run \<and> \<not> outcome_changed o' then IDLE_EXIT_CODE else 0
          | None \<Rightarrow> 0))))))"

section \<open>The commands that read\<close>

definition probe_client :: "'w cli_context \<Rightarrow> config \<Rightarrow> ('w, unit) prog" where
  "probe_client x cfg =
     bindP (askP (cc_which x (cf_command cfg))) (\<lambda>found.
     if \<not> found then
       doP (log_warning (cc_host x) (''Warning: OpenTimestamps command '' @ [CHR 0x27] @ cf_command cfg @ [CHR 0x27] @
         '' not found in PATH; `git-ots run` will fail until the client is installed.''))
     else
       bindP (liftE (check_command (cf_command cfg))) (\<lambda>_.
       bindP (catchP (bindP (probe (client_of x cfg)) (\<lambda>r. ret (Some r))) is_SubmissionError
           (\<lambda>_. bindP (doP (log_warning (cc_host x) ''Warning: OpenTimestamps client probe failed'')) (\<lambda>_. ret None)))
         (\<lambda>r.
       case r of
         None \<Rightarrow> ret ()
       | Some (version, tested) \<Rightarrow>
           say x [''OpenTimestamps client: '' @ version @ '' ('' @
             (if tested then ''tested'' else ''compatible, untested version'') @ '')''])))"

definition check_servers :: "'w cli_context \<Rightarrow> path \<Rightarrow> config \<Rightarrow> ('w, unit) prog" where
  "check_servers x root cfg =
     bindP (check_calendars (cc_host x) (cc_rejects x) (cc_opener x) root (pr_directory (cf_proof cfg))) (\<lambda>rs.
     bindP (say x (server_lines rs)) (\<lambda>_.
     doP (fold (log_warning (cc_host x)) (server_warnings rs))))"

definition status_command :: "'w cli_context \<Rightarrow> instant \<Rightarrow> bool \<Rightarrow> bool \<Rightarrow> ('w, nat) prog" where
  "status_command x now verbose servers =
     bindP (log_info x verbose ''Inspecting repository state'') (\<lambda>_.
     bindP (opened x) (\<lambda>(layout, cfg).
     let root = worktree_root layout in
     bindP (build_snapshot (cc_host x) root cfg now) (\<lambda>snapshot.
     bindP (say x (status_lines snapshot)) (\<lambda>_.
     bindP (proof_anchor_lines (cc_host x) root (pr_directory (cf_proof cfg))) (\<lambda>ls.
     bindP (say x ls) (\<lambda>_.
     bindP (if servers then check_servers x root cfg else ret ()) (\<lambda>_.
     bindP (probe_client x cfg) (\<lambda>_. ret 0))))))))"

text \<open>The directories of \<open>--proof-dir\<close>, which may be empty.\<close>

definition chosen_directories :: "string option \<Rightarrow> path list option result" where
  "chosen_directories proof_dir =
     (case proof_dir of
        Some d \<Rightarrow> if d = [] then Inr None else bindE (validate_configured_directory d) (\<lambda>t. Inr (Some [t]))
      | None \<Rightarrow> Inr None)"

fun proof_state_value :: "proof_state \<Rightarrow> string" where
  "proof_state_value VALID = ''valid''"
| "proof_state_value PENDING_ATTESTATION = ''pending-attestation''"
| "proof_state_value ORPHANED = ''orphaned''"
| "proof_state_value INVALID = ''invalid''"
| "proof_state_value UNKNOWN_SOURCE = ''unknown-source''"

fun chain_state_value :: "chain_state \<Rightarrow> string" where
  "chain_state_value VERIFIED = ''verified''"
| "chain_state_value CHAIN_PENDING_ATTESTATION = ''pending-attestation''"
| "chain_state_value VERIFICATION_FAILED = ''verification-failed''"
| "chain_state_value NOT_CHECKED = ''not-checked''"

text \<open>A line of a report: \<open>path: state (source) reason...\<close>.\<close>

definition result_line :: "path \<Rightarrow> string \<Rightarrow> string \<Rightarrow> string \<Rightarrow> string" where
  "result_line p state source rest = p @ '': '' @ state @ '' ('' @ source @ '') '' @ rest"

definition validation_lines :: "proof_result list \<Rightarrow> string list" where
  "validation_lines rs =
     (let untagged = count_of (\<lambda>r. \<not> vr_has_timestamp_tag r) rs in
      map (\<lambda>r. result_line (vr_proof_path r) (proof_state_value (vr_state r)) (short_source (vr_source_commit_id r))
          (vr_reason r @ (if vr_has_timestamp_tag r then [] else ''; untagged''))) rs @
      (if untagged \<noteq> 0 then [nat_str untagged @ '' proof(s) have no timestamp tag. '' @
         ''Run `git-ots repair` to recreate the tags from their manifests.''] else []))"

definition validation_code :: "proof_result list \<Rightarrow> nat" where
  "validation_code rs = (if list_ex (\<lambda>r. vr_state r \<in> {INVALID, UNKNOWN_SOURCE}) rs then 5 else 0)"

definition validate_command :: "'w cli_context \<Rightarrow> string option \<Rightarrow> ('w, nat) prog" where
  "validate_command x proof_dir =
     bindP (opened x) (\<lambda>(layout, cfg).
     bindP (liftE (chosen_directories proof_dir)) (\<lambda>ds.
     bindP (validate_proofs (cc_host x) (worktree_root layout) (cf_git cfg) ds) (\<lambda>rs.
     if rs = [] then bindP (say x [''No stored proofs found; nothing was validated.'']) (\<lambda>_. ret 0)
     else bindP (say x (validation_lines rs)) (\<lambda>_. ret (validation_code rs)))))"

definition verification_line :: "verification_result \<Rightarrow> string" where
  "verification_line r =
     result_line (vf_proof_path r) (chain_state_value (vf_state r)) (short_source (vf_source_commit_id r))
       (vf_reason r @ (if vf_validation_state r = VALID then []
          else ''; repository state: '' @ proof_state_value (vf_validation_state r)))"

definition verification_code :: "verification_result list \<Rightarrow> nat" where
  "verification_code rs =
     (if list_ex (\<lambda>r. vf_validation_state r = INVALID) rs then 5
      else if list_ex (\<lambda>r. vf_validation_state r = UNKNOWN_SOURCE) rs then 5
      else if list_ex (\<lambda>r. vf_state r \<noteq> VERIFIED) rs then 4
      else 0)"

definition verify_command :: "'w cli_context \<Rightarrow> string option \<Rightarrow> ('w, nat) prog" where
  "verify_command x proof_dir =
     bindP (opened x) (\<lambda>(layout, cfg).
     bindP (liftE (check_command (cf_command cfg))) (\<lambda>_.
     bindP (liftE (chosen_directories proof_dir)) (\<lambda>ds.
     bindP (verify_proofs (cc_host x) (verify (cc_host x) (client_of x cfg)) (worktree_root layout) (cf_git cfg) ds) (\<lambda>rs.
     if rs = [] then bindP (say x [''No stored proofs found; nothing was verified.'']) (\<lambda>_. ret 0)
     else bindP (say x (map verification_line rs)) (\<lambda>_. ret (verification_code rs))))))"

definition config_command :: "'w cli_context \<Rightarrow> ('w, nat) prog" where
  "config_command x =
     bindP (cli_locate_repository x) (\<lambda>_.
     bindP (describe_effective_configuration (cc_host x) (cc_zoneinfo x)) (\<lambda>(cfg, origins).
     bindP (liftE (config_rows (cc_zone_key x) cfg origins)) (\<lambda>rows.
     bindP (say x (config_lines rows)) (\<lambda>_. ret 0))))"

section \<open>The commands repair and upgrade\<close>

fun repair_action_value :: "repair_action \<Rightarrow> string" where
  "repair_action_value TAGGED = ''tagged''"
| "repair_action_value WOULD_TAG = ''would-tag''"
| "repair_action_value ALREADY_TAGGED = ''already-tagged''"
| "repair_action_value SKIPPED_UNRESOLVED = ''skipped-unresolved-source''"
| "repair_action_value SKIPPED_OFF_LINEAGE = ''skipped-off-lineage''"
| "repair_action_value UNREPAIRABLE = ''unrepairable''"

definition repair_lines :: "repair_result list \<Rightarrow> string list" where
  "repair_lines rs =
     (let actionable = filter (\<lambda>r. rr_action r \<noteq> ALREADY_TAGGED) rs in
      if rs = [] then [''No stored proofs found.'']
      else if actionable = []
      then [''All '' @ nat_str (length rs) @ '' stored proof(s) already have a timestamp tag.'']
      else
        map (\<lambda>r. result_line (rr_proof_path r)
            (repair_action_value (rr_action r) @
               (case rr_tag_name r of None \<Rightarrow> [] | Some name \<Rightarrow> if name = [] then [] else '' '' @ name))
            (short_id (rr_source_commit_id r)) (rr_detail r))
          actionable)"

definition repair_code :: "repair_result list \<Rightarrow> nat" where
  "repair_code rs = (if list_ex (\<lambda>r. rr_action r = UNREPAIRABLE) rs then 5 else 0)"

definition repair_command :: "'w cli_context \<Rightarrow> bool \<Rightarrow> ('w, nat) prog" where
  "repair_command x dry_run =
     bindP (opened x) (\<lambda>(layout, cfg).
     bindP (repair_missing_tags (cc_host x) (cc_locks x) (cc_version x) (cf_git cfg) (cf_proof cfg) dry_run
         (worktree_root layout)) (\<lambda>rs.
     bindP (say x (repair_lines rs)) (\<lambda>_. ret (repair_code rs))))"

fun upgrade_state_value :: "upgrade_state \<Rightarrow> string" where
  "upgrade_state_value UPGRADED = ''upgraded''"
| "upgrade_state_value STILL_PENDING = ''still-pending''"
| "upgrade_state_value ALREADY_COMPLETE = ''already-complete''"
| "upgrade_state_value WOULD_UPGRADE = ''would-upgrade''"
| "upgrade_state_value SKIPPED = ''skipped''"

definition upgrade_line :: "upgrade_result \<Rightarrow> string" where
  "upgrade_line r =
     result_line (ur_proof_path r) (upgrade_state_value (ur_state r)) (short_source (ur_source_commit_id r))
       (ur_reason r @ (if ur_promised_calendars r \<noteq> 0
          then ''; '' @ nat_str (ur_anchored_calendars r) @ '' of '' @ nat_str (ur_promised_calendars r) @
            '' calendars anchored''
          else []))"

definition in_state :: "upgrade_state \<Rightarrow> upgrade_report \<Rightarrow> nat" where
  "in_state s report = count_of (\<lambda>r. ur_state r = s) (up_results report)"

text \<open>The sentence on the commit of the upgraded proofs.\<close>

definition upgrade_commit_lines :: "config \<Rightarrow> bool \<Rightarrow> upgrade_report \<Rightarrow> string list" where
  "upgrade_commit_lines cfg dry_run report =
     (case up_commit_id report of
        Some c \<Rightarrow>
          if up_squashed report
          then [''Folded upgraded proofs into the previous upgrade commit, now '' @ short_id c @ ''.'']
          else [''Committed upgraded proofs as '' @ short_id c @ ''.'']
      | None \<Rightarrow>
          if in_state UPGRADED report \<noteq> 0 then [''Upgraded proofs are uncommitted in the worktree.'']
          else if dry_run \<and> in_state WOULD_UPGRADE report \<noteq> 0 \<and> pr_commit (cf_proof cfg) then
            (case up_would_squash_into report of
               Some t \<Rightarrow> [''Would fold upgraded proofs into the upgrade commit at HEAD, '' @ short_id t @ ''.'']
             | None \<Rightarrow>
                 if pr_squash_upgrade_commits (cf_proof cfg)
                 then [''Would commit upgraded proofs as a new commit; the commit at HEAD is not a squash target.'']
                 else [''Would commit upgraded proofs as a new commit.''])
          else [])"

definition upgrade_lines :: "config \<Rightarrow> bool \<Rightarrow> upgrade_report \<Rightarrow> string list" where
  "upgrade_lines cfg dry_run report =
     (if up_results report = [] then [''No stored proofs found.'']
      else
        map upgrade_line (up_results report) @
        [nat_str (in_state UPGRADED report) @ '' upgraded, '' @
           nat_str (in_state STILL_PENDING report + in_state WOULD_UPGRADE report) @ '' still pending, '' @
           nat_str (in_state ALREADY_COMPLETE report) @ '' already complete.''] @
        upgrade_commit_lines cfg dry_run report)"

definition upgrade_code :: "upgrade_report \<Rightarrow> nat" where
  "upgrade_code report = (if in_state SKIPPED report \<noteq> 0 then 5 else 0)"

definition upgrade_settings :: "config \<Rightarrow> upgrade_config" where
  "upgrade_settings cfg =
     \<lparr>uc_proof_directory = pr_directory (cf_proof cfg), uc_commit = pr_commit (cf_proof cfg),
      uc_squash_upgrade_commits = pr_squash_upgrade_commits (cf_proof cfg),
      uc_require_clean_worktree = gc_require_clean_worktree (cf_git cfg),
      uc_signs_generated_objects = signs_generated_objects (cf_git cfg)\<rparr>"

definition upgrade_command :: "'w cli_context \<Rightarrow> bool \<Rightarrow> ('w, nat) prog" where
  "upgrade_command x dry_run =
     bindP (opened x) (\<lambda>(layout, cfg).
     bindP (upgrade_proofs (cc_host x) (cc_locks x) (client_of x cfg)
         (fetch_calendar_timestamp (cc_rejects x) (cc_opener x)) (upgrade_settings cfg) dry_run
         (worktree_root layout)) (\<lambda>report.
     bindP (say x (upgrade_lines cfg dry_run report)) (\<lambda>_. ret (upgrade_code report))))"

section \<open>Exit codes\<close>

text \<open>What \<open>argparse\<close> hands over: the command with its own options.\<close>

datatype command =
    Run bool bool bool
  | Status bool
  | Validate "string option"
  | Repair bool
  | Verify "string option"
  | Upgrade bool
  | ShowConfig

fun is_InvalidRepositoryStateError :: "exc \<Rightarrow> bool" where
  "is_InvalidRepositoryStateError (InvalidRepositoryStateError _) = True"
| "is_InvalidRepositoryStateError _ = False"

type_synonym clauses = "((exc \<Rightarrow> bool) \<times> string \<times> nat) list"

text \<open>The \<open>except\<close> clauses of a command, in their order, between \<open>KeyboardInterrupt\<close> and \<open>Exception\<close>.\<close>

definition config_clause :: clauses where
  "config_clause = [(is_ConfigError, ''Configuration error'', 2)]"

definition locked_clause :: clauses where
  "locked_clause = [((=) RepositoryLockedError, ''Repository locked'', 7)]"

definition state_clause :: clauses where
  "state_clause = [(is_InvalidRepositoryStateError, ''Repository state error'', 3)]"

definition git_clause :: clauses where
  "git_clause = [(is_GitCommandError, ''Git command failed'', 6)]"

definition persistence_clause :: clauses where
  "persistence_clause =
     [(\<lambda>e. is_PersistenceError e \<or> is_RecoveryValidationError e, ''Proof persistence failed'', 5)]"

fun except_clauses :: "command \<Rightarrow> clauses" where
  "except_clauses (Run _ _ _) = config_clause @ locked_clause @ state_clause @
     [(is_SubmissionError, ''OpenTimestamps submission failed'', 4)] @ persistence_clause @ git_clause"
| "except_clauses (Status _) = config_clause @ state_clause @ git_clause"
| "except_clauses (Validate _) = config_clause @ state_clause @ git_clause"
| "except_clauses (Repair _) = config_clause @ locked_clause @ state_clause @ persistence_clause @ git_clause"
| "except_clauses (Verify _) = config_clause @ state_clause @
     [(is_SubmissionError, ''OpenTimestamps verification failed'', 4)] @ git_clause"
| "except_clauses (Upgrade _) = config_clause @ locked_clause @ state_clause @
     [(is_SubmissionError, ''OpenTimestamps upgrade failed'', 4),
      (is_PersistenceError, ''Proof persistence failed'', 5)] @ git_clause"
| "except_clauses ShowConfig = config_clause @ state_clause @ git_clause"

definition interrupted :: "'w cli_context \<Rightarrow> bool \<Rightarrow> ('w, nat) prog" where
  "interrupted x debug =
     bindP (complain x [if debug then ''Traceback'' else ''Interrupted; terminated the in-progress operation.''])
       (\<lambda>_. ret 130)"

definition unexpected_error :: "'w cli_context \<Rightarrow> bool \<Rightarrow> ('w, nat) prog" where
  "unexpected_error x debug =
     bindP (complain x [if debug then ''Traceback'' else ''Unexpected error (re-run with --debug for a traceback)''])
       (\<lambda>_. ret 1)"

definition handle_exception :: "'w cli_context \<Rightarrow> bool \<Rightarrow> command \<Rightarrow> exc \<Rightarrow> ('w, nat) prog" where
  "handle_exception x debug c e =
     (if e = KeyboardInterrupt then interrupted x debug
      else case find (\<lambda>(is_class, _). is_class e) (except_clauses c) of
        Some (_, message, code) \<Rightarrow> bindP (complain x [message]) (\<lambda>_. ret code)
      | None \<Rightarrow> unexpected_error x debug)"

fun execute :: "'w cli_context \<Rightarrow> instant \<Rightarrow> bool \<Rightarrow> command \<Rightarrow> ('w, nat) prog" where
  "execute x now verbose (Run dry_run idle_code push) = run_command x now dry_run verbose idle_code push"
| "execute x now verbose (Status servers) = status_command x now verbose servers"
| "execute x now verbose (Validate proof_dir) = validate_command x proof_dir"
| "execute x now verbose (Repair dry_run) = repair_command x dry_run"
| "execute x now verbose (Verify proof_dir) = verify_command x proof_dir"
| "execute x now verbose (Upgrade dry_run) = upgrade_command x dry_run"
| "execute x now verbose ShowConfig = config_command x"

text \<open>\<open>main\<close>, after the arguments are parsed; without a command it prints the help, of which one line stands for all.\<close>

definition main :: "'w cli_context \<Rightarrow> instant option \<Rightarrow> bool \<Rightarrow> bool \<Rightarrow> command option \<Rightarrow> ('w, nat) prog" where
  "main x now debug_flag verbose_flag command =
     (let debug = debug_flag \<or> debug_from_environment (cc_debug x) in
      case command of
        None \<Rightarrow> bindP (say x [''usage: git-ots <command> [<options>]'']) (\<lambda>_. ret 2)
      | Some c \<Rightarrow>
          bindP (case now of None \<Rightarrow> askP (cc_clock x) | Some t \<Rightarrow> ret t) (\<lambda>t.
          catchP (execute x t (verbose_flag \<or> debug) c) (\<lambda>e. e \<noteq> OutOfFuel) (handle_exception x debug c)))"

end
