(* ===== verification/RunFacts.thy ===== *)
theory RunFacts
  imports OrchestrationFacts
begin

text \<open>
  What the outcome of a run says of the work it did, and that a refused proof commit leaves no tag.
\<close>

section \<open>The outcome\<close>

lemma stamp_one_processed:
  "stamp_one x c (r, ps) w = (Inr (r', ps'), w') \<Longrightarrow> ps' = ps @ [c]"
  by (auto simp: stamp_one_def Let_def bindP_Inr_iff split: if_splits option.splits)

lemma stamp_fold_processed:
  "foldP (stamp_one x) cs (r, ps) w = (Inr (r', ps'), w') \<Longrightarrow> ps' = ps @ cs"
  by (induction cs arbitrary: r ps w) (simp, fastforce simp: bindP_Inr_iff dest!: stamp_one_processed)

lemma record_commit_Inr:
  "record_commit x ids w = (Inr cs, w') \<Longrightarrow> cs = [] \<or> cs = ids \<and> snap_commits x"
  by (auto simp: record_commit_def bindP_Inr_iff split: if_splits)

lemma run_stamping_outcome:
  assumes "run_stamping x r fl w = (Inr o', w')"
  shows "ro_tagged o' = (if fl = [] then selected_ids x else fl)"
    "ro_timestamped o' = (if fl = [] then selected_ids x else [])"
    "ro_deferred o' = (if fl = [] then [] else selected_ids x)"
    "ro_committed o' = [] \<or> ro_committed o' = ro_tagged o' \<and> snap_commits x"
proof -
  define sel where "sel = (if fl \<noteq> [] then [] else selected_ids x)"
  from assms obtain r1 ps w1 w2 w3 cs where
    f: "foldP (stamp_one x) sel (r, fl) w1 = (Inr (r1, ps), w2)" and
    c: "record_commit x ps w2 = (Inr cs, w3)" and
    o': "o' = \<lparr>ro_timestamped = filter (\<lambda>c. c \<notin> set fl) ps, ro_tagged = ps, ro_committed = cs,
       ro_deferred = (if fl \<noteq> [] then selected_ids x else [])\<rparr>"
    by (auto simp: run_stamping_def Let_def bindP_Inr_iff sel_def)
  have "ps = fl @ sel" using f by (rule stamp_fold_processed)
  with record_commit_Inr [OF c] show "ro_tagged o' = (if fl = [] then selected_ids x else fl)"
    "ro_timestamped o' = (if fl = [] then selected_ids x else [])"
    "ro_deferred o' = (if fl = [] then [] else selected_ids x)"
    "ro_committed o' = [] \<or> ro_committed o' = ro_tagged o' \<and> snap_commits x"
    by (simp_all add: o' sel_def)
qed

lemma run_idle_outcome:
  assumes "run_idle x w = (Inr o', w')"
  shows "ro_timestamped o' = [] \<and> ro_deferred o' = [] \<and>
    (ro_committed o' = [] \<or> ro_tagged o' = [] \<and> snap_commits x \<and> (\<exists>b. baseline_source (sn_baseline (rc_snapshot x)) = Some b \<and> ro_committed o' = [b]))"
proof -
  have "c = None \<or> snap_commits x \<and> c = baseline_source (sn_baseline (rc_snapshot x))"
    if "commit_baseline x w = (Inr c, w1)" for c w1
    using that by (auto simp: commit_baseline_def bindP_Inr_iff split: option.splits if_splits)
  with assms show ?thesis
    by (fastforce simp: run_idle_def bindP_Inr_iff idle_outcome_def split: option.splits)
qed

text \<open>
  C35: what the outcome of a run says. Every selected commit is reported either as timestamped or as
  deferred, in the order of the decision, and never some of each: a run that finishes earlier work
  submits nothing. What is timestamped is tagged; what is committed is all that is tagged or nothing,
  or the baseline alone when there was nothing else to do; without proof commits, nothing is.
\<close>

theorem run_outcome_meaning:
  assumes "run_timestamping L x w = (Inr o', w')"
  shows "ro_timestamped o' @ ro_deferred o' = selected_ids x \<and>
    (ro_timestamped o' = [] \<or> ro_deferred o' = [] \<and> ro_tagged o' = ro_timestamped o') \<and>
    (ro_committed o' = [] \<or> ro_committed o' = ro_tagged o' \<or>
     ro_tagged o' = [] \<and> (\<exists>b. baseline_source (sn_baseline (rc_snapshot x)) = Some b \<and> ro_committed o' = [b])) \<and>
    (\<not> snap_commits x \<longrightarrow> ro_committed o' = [])"
proof -
  from assms obtain w1 w2 where "run_locked x w1 = (Inr o', w2)"
    by (auto simp: run_timestamping_def bindP_Inr_iff with_lock_Inr_iff)
  then consider w3 where "selected_ids x = []" "run_idle x w3 = (Inr o', w2)"
    | r fl w3 where "selected_ids x \<noteq> [] \<or> fl \<noteq> []" "run_stamping x r fl w3 = (Inr o', w2)"
    unfolding run_locked_def bindP_Inr_iff by (fastforce split: if_splits)
  then show ?thesis
  proof cases
    case 1
    with run_idle_outcome [OF 1(2)] show ?thesis by auto
  next
    case 2
    with run_stamping_outcome [OF 2(2)] show ?thesis by (auto split: if_splits)
  qed
qed

lemma run_outcome_meaning_witness:
  "\<exists>o' w. run_timestamping example_locks stranded_run stored_artifacts = (Inr o', w) \<and>
     ro_timestamped o' @ ro_deferred o' = []"
proof -
  obtain o' w where r: "run_timestamping example_locks stranded_run stored_artifacts = (Inr o', w)"
    using stranded_run_succeeds by (auto split: prod.splits sum.splits)
  with run_outcome_meaning [OF r] show ?thesis
    by (auto simp: selected_ids_def stranded_run_def stranded_snapshot_def no_decision_def)
qed

section \<open>No tag without its commit\<close>

text \<open>A program that always raises and does not change what \<open>v\<close> sees.\<close>

definition refuses :: "('w \<Rightarrow> 'v) \<Rightarrow> ('w, 'a) prog \<Rightarrow> bool" where
  "refuses v m \<longleftrightarrow> keeps v m \<and> (\<forall>w. \<exists>e. fst (m w) = Inl e)"

lemma refuses_bind:
  assumes "keeps v m" "\<And>a w w'. m w = (Inr a, w') \<Longrightarrow> refuses v (f a)"
  shows "refuses v (bindP m f)"
proof -
  have "(\<exists>e. fst (bindP m f w) = Inl e) \<and> v (snd (bindP m f w)) = v w" for w
  proof (cases "m w")
    case (Pair r w')
    then show ?thesis
      using assms(2) [of w _ w'] keepsD [OF assms(1) Pair]
      by (cases r) (auto simp: bindP_def refuses_def keeps_def)
  qed
  then show ?thesis by (simp add: refuses_def keeps_def)
qed

lemma refuses_first:
  assumes "refuses v m"
  shows "refuses v (bindP m f)"
proof (rule refuses_bind)
  show "keeps v m" using assms by (simp add: refuses_def)
  show "refuses v (f a)" if "m w = (Inr a, w')" for a w w'
  proof -
    from assms obtain e where "fst (m w) = Inl e" unfolding refuses_def by blast
    with that show ?thesis by simp
  qed
qed

lemma refuses_lock:
  assumes "\<And>s w. v (set_locks L s w) = v w" "refuses v body"
  shows "refuses v (with_lock L d body)"
proof -
  have "\<exists>e. fst (with_lock L d body w) = Inl e" for w
  proof (cases "acquire (new_lock d) (locks_of L w)")
    case (Pair r s)
    have "\<exists>e. fst (body (set_locks L s w)) = Inl e" using assms(2) by (simp add: refuses_def)
    then show ?thesis using Pair by (cases r) (auto simp: with_lock_def split: prod.split)
  qed
  with assms with_lock_keeps [of v L body d] show ?thesis by (auto simp: refuses_def)
qed

lemma make_directories_quiet:
  assumes "\<And>s w. v (set_store h s w) = v w"
  shows "keeps v (make_directories h p segs)"
proof -
  have "keeps v (doP (\<lambda>w. set_store h (make_dir q (store_of h w)) w))" for q
    using assms by (simp add: keeps_def)
  then have "keeps v (make_directory h q)" for q
    unfolding make_directory_def by (auto intro!: keeps_intros split: option.split entry.split)
  then show ?thesis by (induction segs arbitrary: p) (auto intro!: keeps_intros)
qed

text \<open>
  C5: no tag without its commit. When proofs are committed, the policy selects some commit, nothing
  the run handles is in \<open>HEAD\<close> and the proof commit is refused, then the run raises and tags
  nothing: any part of the world that only tagging changes, such as the tags of the repository, is
  as it was.
\<close>

theorem no_tag_without_commit:
  fixes v :: "'w \<Rightarrow> 'v" and x :: "'w run_context"
  assumes reads: "quiet_reads v (rc_host x)"
    and files: "\<And>s w. v (set_store (rc_host x) s w) = v w" "\<And>s w. v (set_locks L s w) = v w"
    and steps: "\<And>c p. keeps v (run_submit x c p)" "\<And>c p. keeps v (run_persist x c p)"
      "\<And>ids. keeps v (run_commit x ids)"
    and commits: "snap_commits x" "selected_ids x \<noteq> []"
    and uncommitted: "\<And>ids w. ids \<noteq> [] \<Longrightarrow>
      fst (paths_are_committed (rc_host x) (artifact_paths (snap_directory x) ids) w) \<noteq> Inr True"
    and refused: "\<And>ids w. \<exists>e. fst (run_commit x ids w) = Inl e"
  shows "(\<exists>e. fst (run_timestamping L x w) = Inl e) \<and> v (snd (run_timestamping L x w)) = v w"
proof -
  have "\<exists>e. fst (record_commit x ids w) = Inl e" if "ids \<noteq> []" for ids w
  proof (cases "paths_are_committed (rc_host x) (artifact_paths (snap_directory x) ids) w")
    case (Pair r w')
    moreover obtain e where "fst (run_commit x ids w') = Inl e" using refused by blast
    ultimately show ?thesis
      using that commits(1) uncommitted [OF that, of w]
      by (cases r) (auto simp: record_commit_def bindP_def split: prod.split)
  qed
  moreover have "keeps v (record_commit x ids)" for ids
    using reads steps by (auto simp: record_commit_def intro!: keeps_intros quiet_intros)
  ultimately have rec: "refuses v (record_commit x ids)" if "ids \<noteq> []" for ids
    using that by (simp add: refuses_def)
  have stamp: "keeps v (stamp_one x c acc)" for c acc
    using reads steps unfolding stamp_one_def Let_def by (auto intro!: keeps_intros quiet_intros)
  have "refuses v (run_stamping x r fl)" for r fl
    unfolding run_stamping_def Let_def
    by (intro refuses_bind make_directories_quiet files keeps_fold stamp)
      (auto intro!: refuses_first rec simp: commits(2) dest!: stamp_fold_processed split: prod.split)
  then have "refuses v (run_locked x)"
    using commits(2) reads unfolding run_locked_def
    by (intro refuses_bind) (auto intro!: keeps_intros quiet_intros split: prod.split)
  then have "refuses v (run_timestamping L x)"
    unfolding run_timestamping_def by (intro refuses_bind refuses_lock files keeps_intros)
  then show ?thesis by (simp add: refuses_def keeps_def)
qed

text \<open>A run on a store with a list of tags beside it, whose proof commit is refused.\<close>

definition tagging_host :: "(file_store \<times> commit_id list) host" where
  "tagging_host =
     \<lparr>run_git = (\<lambda>_ _ w. (Inr (0, [], []), w)), run_git_bytes = (\<lambda>_ _ w. (Inr (0, [], []), w)), store_of = fst,
      set_store = (\<lambda>s w. (s, snd w)), write_fault = (\<lambda>_. NoFault), temp_name = (\<lambda>p w. fresh_temp p (fst w)),
      resolve_path = (\<lambda>p _. p), monotonic = (\<lambda>_. 0), sleep = (\<lambda>_ w. w), log_warning = (\<lambda>_ w. w),
      json_loads = (\<lambda>_. None), fromisoformat = (\<lambda>_. None), digest = (\<lambda>_ _. replicate 32 0), ripemd = (\<lambda>_. None)\<rparr>"

definition silent_client :: "'w ots_cli" where
  "silent_client = \<lparr>ots_command = ''ots'', ots_limit = None, call_runner = (\<lambda>_. ret (0, [], [])),
     join_worker = (\<lambda>_ w. (None, w)), active_child = (\<lambda>_. None), kill_group = (\<lambda>_ w. w), temp_dir = (\<lambda>_. ''/tmp/t'')\<rparr>"

definition free_locks :: "'w lock_access" where
  "free_locks = \<lparr>locks_of = (\<lambda>_. \<lparr>lock_table = (\<lambda>_. None), open_fds = [],
     flocked = (\<lambda>_. None), lock_fault = (\<lambda>_. None)\<rparr>), set_locks = (\<lambda>_ w. w)\<rparr>"

definition refused_run :: "(file_store \<times> commit_id list) run_context" where
  "refused_run = \<lparr>rc_host = tagging_host, rc_client = silent_client, rc_version = ''1.0'',
     rc_snapshot = stranded_snapshot\<lparr>sn_decision :=
       \<lparr>de_commits = [\<lparr>pd_commit_id = example_commit, pd_committer_time = 0\<rparr>], de_triggers = [''max_age'']\<rparr>\<rparr>,
     rc_now = 0,
     rc_collaborators = \<lparr>cb_submit = Some (\<lambda>_ _. ret stored_proof), cb_persist = Some (\<lambda>_ _. ret ()),
       cb_tag = Some (\<lambda>c. doP (\<lambda>w. (fst w, c # snd w))),
       cb_commit = Some (\<lambda>_. raiseP (GitCommandError 1 []))\<rparr>\<rparr>"

lemma no_tag_without_commit_witness:
  "(\<exists>e. fst (run_timestamping free_locks refused_run (example_store, [])) = Inl e) \<and>
     snd (snd (run_timestamping free_locks refused_run (example_store, []))) = []"
proof -
  have "(\<exists>e. fst (run_timestamping free_locks refused_run (example_store, [])) = Inl e) \<and>
      snd (snd (run_timestamping free_locks refused_run (example_store, []))) = snd (example_store, [])"
  proof (rule no_tag_without_commit)
    show "quiet_reads snd (rc_host refused_run)"
      by (simp add: quiet_reads_def keeps_def refused_run_def tagging_host_def)
    have "strip [] = []" by code_simp
    then show "fst (paths_are_committed (rc_host refused_run) (artifact_paths (snap_directory refused_run) ids) w) \<noteq> Inr True"
      if "ids \<noteq> []" for ids w
      using that by (cases ids) (auto simp: artifact_paths_def bindP_def git_stripped_def git_out_def runner_run_def
          refused_run_def tagging_host_def)
  qed (simp_all add: refused_run_def tagging_host_def free_locks_def run_submit_def run_persist_def run_commit_def
      snap_commits_def selected_ids_def stranded_snapshot_def default_config_def default_proof_def keeps_def)
  then show ?thesis by simp
qed

end
