(* ===== verification/ServerFacts.thy ===== *)
theory ServerFacts
  imports Servers UpgradePass
begin

text \<open>
  What asking the calendars of \<open>servers.py\<close> can come to: which requests are made, what a fetched
  response is, and how many proofs wait for a calendar. The fetcher of the upgrade is interpreted
  by the code that implements it.
\<close>

section \<open>Requests\<close>

lemma url_scheme_error: "url_scheme rejects url = Inl e \<Longrightarrow> e = ValueError ''Invalid URL''"
  by (auto simp: url_scheme_def Let_def split: prod.splits if_splits)

lemma fetch_failed_Inr: "fetch_failed f = Inr r \<Longrightarrow> fst r = None"
  by (auto simp: fetch_failed_def split: http_failure.splits)

lemma fetch_failed_Inl: "fetch_failed f = Inl e \<Longrightarrow> \<exists>t. e = HTTPException t"
  by (auto simp: fetch_failed_def split: http_failure.splits)

lemma fetch_body_Inl: "fetch_body r = Inl e \<Longrightarrow> \<exists>t. e = HTTPException t"
  by (auto simp: fetch_body_def fetch_failed_Inl split: if_splits sum.splits)

lemma fetch_raises:
  assumes "fetch_calendar_timestamp rejects opener u m w = (Inl e, w')"
  shows "e = ValueError ''Invalid URL'' \<or> (\<exists>t. e = HTTPException t)"
  using assms
  by (auto simp: fetch_calendar_timestamp_def bindP_Inl_iff dest: url_scheme_error fetch_body_Inl fetch_failed_Inl
      split: if_splits prod.splits sum.splits)

interpretation calendar: calendar_fetcher "fetch_calendar_timestamp rejects opener" for rejects opener
proof unfold_locales
  fix u m w e
  assume "fst (fetch_calendar_timestamp rejects opener u m w) = Inl e"
  then obtain w' where "fetch_calendar_timestamp rejects opener u m w = (Inl e, w')" by (metis prod.collapse)
  from fetch_raises [OF this] show "\<not> is_PersistenceError e" by auto
qed

text \<open>
  What is fetched from a calendar. Nothing but HTTP is ever spoken: for another scheme no
  request is made. A response that is returned answered the request of the commitment at the
  calendar's own URL with status 200, and has between one byte and the size limit.
\<close>

theorem fetched_response:
  assumes "fetch_calendar_timestamp rejects opener u m w = (Inr (r, detail), w')"
  shows "(url_scheme rejects (bytes_text u) \<in> {Inr ''http'', Inr ''https''} \<or> r = None \<and> w' = w) \<and>
    (\<forall>b. r = Some b \<longrightarrow> 0 < length b \<and> length b \<le> MAX_RESPONSE_BYTES \<and>
       (\<exists>response. opener (calendar_endpoint u m) w = (Inr response, w') \<and> rs_status response = 200 \<and>
          rs_read response (MAX_RESPONSE_BYTES + 1) = Inr b))"
  using assms
  by (auto simp: fetch_calendar_timestamp_def bindP_Inr_iff fetch_body_def dest: fetch_failed_Inr
      split: if_splits prod.splits sum.splits)

definition answering :: "bytes \<Rightarrow> file_store opener" where
  "answering b url w = (Inr \<lparr>rs_status = 200, rs_read = (\<lambda>_. Inr b)\<rparr>, w)"

lemma fetched_response_witness: "0 < length example_response \<and> length example_response \<le> MAX_RESPONSE_BYTES"
proof -
  have "url_scheme (\<lambda>_. False) (bytes_text (encode_ascii ''http://c'')) = Inr ''http''" by code_simp
  then have "fetch_calendar_timestamp (\<lambda>_. False) (answering example_response) (encode_ascii ''http://c'') [1] [] =
      (Inr (Some example_response, ''ok''), [])"
    by (simp add: fetch_calendar_timestamp_def bindP_def answering_def fetch_body_def example_response_def
        MAX_RESPONSE_BYTES_def bitcoin_tag_def)
  from fetched_response [OF this] show ?thesis by simp
qed

text \<open>
  C33: the refusal to store a proof that dropped attestations is never reached. Whatever the
  calendars answer to the tool's requests, the collection from them does not end in that error.
\<close>

theorem merged_proof_never_refused:
  assumes "parse_proof proof = Inr p"
    and "collect_from_calendars h (fetch_calendar_timestamp rejects opener) proof payload w = (Inl e, w')"
  shows "\<not> is_PersistenceError e"
  using assms by (rule calendar.never_refused)

definition bad_url_proof :: bytes where
  "bad_url_proof = header_magic @ [0x01, 0x08] @ replicate 32 0 @ [0xF0, 1, 9, 0x00] @
     pending_tag @ [9, 8] @ encode_ascii ''http://[''"

lemma bad_url: "url_scheme rejects (bytes_text (encode_ascii ''http://['')) = Inl (ValueError ''Invalid URL'')"
proof -
  have "split_scheme (url_cleaned (bytes_text (encode_ascii ''http://[''))) = (''http'', ''//['')" by code_simp
  moreover have "netloc_of ''//['' = ''[''" by code_simp
  ultimately show ?thesis by (simp add: url_scheme_def)
qed

lemma bad_url_collectible:
  "\<exists>p t. parse_proof bad_url_proof = Inr p \<and>
     collectible_calendars zero_digest (\<lambda>_. None) p = Inr [t] \<and> col_url t = encode_ascii ''http://[''"
proof -
  have "(case parse_proof bad_url_proof of Inl _ \<Rightarrow> False | Inr p \<Rightarrow>
      (case collectible_calendars zero_digest (\<lambda>_. None) p of Inr [t] \<Rightarrow> col_url t = encode_ascii ''http://[''
       | _ \<Rightarrow> False))"
    by code_simp
  then show ?thesis by (auto split: sum.splits list.splits)
qed

text \<open>
  A calendar URL can end the collection. A stored proof whose pending attestation names
  \<open>http://[\<close> makes the fetch raise, although its contract is never to raise, and the
  collection from the calendars with it.
\<close>

theorem calendar_url_ends_collection:
  "collect_from_calendars zero_host (fetch_calendar_timestamp rejects opener) bad_url_proof payload w =
     (Inl (ValueError ''Invalid URL''), w)"
proof -
  obtain p t where "parse_proof bad_url_proof = Inr p"
    "collectible_calendars zero_digest (\<lambda>_. None) p = Inr [t]" "col_url t = encode_ascii ''http://[''"
    using bad_url_collectible by blast
  then show ?thesis
    by (simp add: collect_from_calendars_def bindP_def collect_one_def fetch_calendar_timestamp_def bad_url
        zero_host_def file_host_def)
qed

lemma example_refused:
  "collect_from_calendars zero_host (fetch_calendar_timestamp (\<lambda>_. False) (answering [])) bad_url_proof [1] [] =
     (Inl (ValueError ''Invalid URL''), [])"
proof -
  obtain p t where "parse_proof bad_url_proof = Inr p"
    "collectible_calendars zero_digest (\<lambda>_. None) p = Inr [t]" "col_url t = encode_ascii ''http://[''"
    using bad_url_collectible by blast
  then show ?thesis
    by (simp add: collect_from_calendars_def bindP_def collect_one_def fetch_calendar_timestamp_def bad_url
        zero_host_def file_host_def)
qed

lemma merged_proof_never_refused_witness: "\<not> is_PersistenceError (ValueError ''Invalid URL'')"
proof -
  obtain p where "parse_proof bad_url_proof = Inr p" using bad_url_collectible by blast
  from merged_proof_never_refused [OF this example_refused] show ?thesis .
qed

section \<open>Pending proofs\<close>

lemma map_of_note_anchoring:
  "map_of (note_anchoring u c) v = (if v = u \<and> map_of c u = None then Some 0 else map_of c v)"
  by (auto simp: note_anchoring_def map_add_def split: option.split)

lemma keys_dict_put: "distinct (map fst d) \<Longrightarrow> distinct (map fst (dict_put k v d)) \<and> fst ` set (dict_put k v d) = insert k (fst ` set d)"
  by (induction k v d rule: dict_put.induct) (auto simp: image_iff)

lemma map_of_fold_anchoring:
  "map_of (fold note_anchoring us c) v = (if v \<in> set us \<and> map_of c v = None then Some 0 else map_of c v)"
  by (induction us arbitrary: c) (auto simp: map_of_note_anchoring)

lemma map_of_fold_pending:
  "distinct us \<Longrightarrow> map_of (fold note_pending us c) v =
     (if v \<in> set us then Some ((case map_of c v of None \<Rightarrow> 0 | Some n \<Rightarrow> n) + 1) else map_of c v)"
  by (induction us arbitrary: c) (auto simp: note_pending_def map_of_dict_put)

lemma distinct_keys:
  "distinct (map fst c) \<Longrightarrow> distinct (map fst (note_proof d c))"
proof -
  have 1: "distinct (map fst (fold note_anchoring us c))" if "distinct (map fst c)" for us and c :: "(uri \<times> nat) list"
    using that by (induction us arbitrary: c) (auto simp: note_anchoring_def map_of_eq_None_iff)
  have "distinct (map fst (fold note_pending us c))" if "distinct (map fst c)" for us and c :: "(uri \<times> nat) list"
    using that by (induction us arbitrary: c) (auto simp: note_pending_def keys_dict_put)
  with 1 show "distinct (map fst c) \<Longrightarrow> distinct (map fst (note_proof d c))" by (simp add: note_proof_def)
qed

text \<open>The descriptions of the proofs that can be read; \<open>named_by\<close> are the calendars one of them names.\<close>

definition described_proofs :: "'w host \<Rightarrow> path \<Rightarrow> file_store \<Rightarrow> string list \<Rightarrow> proof_anchors list" where
  "described_proofs h proof_dir s names =
     List.map_filter (\<lambda>n. if is_proof_name n then
         (case file_content (path_join proof_dir n) s of None \<Rightarrow> None
          | Some b \<Rightarrow> (case describe_anchors (digest h) (ripemd h) b of Inl _ \<Rightarrow> None | Inr d \<Rightarrow> Some d))
       else None) names"

definition named_by :: "proof_anchors \<Rightarrow> uri set" where
  "named_by d = set (concat (map calendars (anchors d))) \<union> set (pending_calendars d)"

definition tally :: "proof_anchors list \<Rightarrow> uri \<Rightarrow> nat option" where
  "tally ds u = (if \<exists>d \<in> set ds. u \<in> named_by d
     then Some (length (filter (\<lambda>d. u \<in> set (pending_calendars d)) ds)) else None)"

lemma tally_snoc:
  "tally (ds @ [d]) u = (if u \<in> set (pending_calendars d) then Some ((case tally ds u of None \<Rightarrow> 0 | Some n \<Rightarrow> n) + 1)
     else if u \<in> named_by d then Some (case tally ds u of None \<Rightarrow> 0 | Some n \<Rightarrow> n) else tally ds u)"
proof -
  have "filter (\<lambda>d. u \<in> set (pending_calendars d)) ds = []" if "\<not> (\<exists>d \<in> set ds. u \<in> named_by d)"
    using that by (auto simp: filter_empty_conv named_by_def)
  then show ?thesis by (auto simp: tally_def named_by_def)
qed

lemma note_proof_tally:
  assumes "distinct (pending_calendars d)" "map_of c = tally ds"
  shows "map_of (note_proof d c) = tally (ds @ [d])"
  by (rule ext)
    (auto simp: note_proof_def map_of_fold_pending [OF assms(1)] map_of_fold_anchoring assms(2) tally_snoc named_by_def
      split: option.split)

lemma describe_anchors_pending:
  "describe_anchors H R b = Inr d \<Longrightarrow> distinct (pending_calendars d)"
  by (auto simp: describe_anchors_def guardE_def Let_def bindE_Inr_iff sorted_set_def
      split: if_splits option.splits)

lemma count_proofs:
  assumes "foldP (count_proof h dir) names c w = (Inr c', w')" "map_of c = tally ds" "distinct (map fst c)"
  shows "w' = w \<and> map_of c' = tally (ds @ described_proofs h dir (store_of h w) names) \<and> distinct (map fst c')"
  using assms
proof (induction names arbitrary: c ds)
  case (Cons n names)
  let ?one = "described_proofs h dir (store_of h w) [n]"
  from Cons.prems(1) obtain c1 w1 where s: "count_proof h dir n c w = (Inr c1, w1)"
    and r: "foldP (count_proof h dir) names c1 w1 = (Inr c', w')"
    by (auto simp: bindP_Inr_iff)
  have "w1 = w \<and> (c1 = c \<and> ?one = [] \<or> (\<exists>d. ?one = [d] \<and> c1 = note_proof d c \<and> distinct (pending_calendars d)))"
    using s describe_anchors_pending
    by (auto simp: count_proof_def bindP_Inr_iff catchP_Inr_iff bindP_Inl_iff read_file_def read_bytes_def is_file_def
        described_proofs_def List.map_filter_def split: if_splits option.splits)
  then have w: "w1 = w" and c1: "map_of c1 = tally (ds @ ?one)" "distinct (map fst c1)"
    using Cons.prems(2,3) note_proof_tally distinct_keys by auto
  have "described_proofs h dir (store_of h w) (n # names) = ?one @ described_proofs h dir (store_of h w) names"
    by (simp add: described_proofs_def List.map_filter_def)
  with Cons.IH [OF r [unfolded w] c1] show ?case by simp
qed (simp add: described_proofs_def List.map_filter_def)

text \<open>The proofs in the proof directory that can be read.\<close>

definition stored_proofs :: "'w host \<Rightarrow> path \<Rightarrow> file_store \<Rightarrow> proof_anchors list" where
  "stored_proofs h dir s = (if is_dir dir s then described_proofs h dir s (sort (list_dir dir s)) else [])"

lemma mapP_statuses:
  assumes "mapP (\<lambda>url. bindP (m url) (\<lambda>(reachable, detail).
       ret \<lparr>sv_url = url, sv_reachable = reachable, sv_detail = detail, sv_pending_proofs = f url\<rparr>)) us w = (Inr rs, w')"
  shows "map (\<lambda>r. (sv_url r, sv_pending_proofs r)) rs = map (\<lambda>u. (u, f u)) us"
  using assms by (induction us arbitrary: w rs) (auto simp: bindP_Inr_iff)

lemma map_of_own_values:
  assumes "set us = fst ` set c"
  shows "map_of (map (\<lambda>u. (u, the (map_of c u))) us) = map_of c"
proof
  fix u
  have "map_of c u = None \<longleftrightarrow> u \<notin> set us"
    by (simp add: assms map_of_eq_None_iff)
  then show "map_of (map (\<lambda>u. (u, the (map_of c u))) us) u = map_of c u"
    by (auto simp: map_of_map_restrict restrict_map_def)
qed

text \<open>
  C34: \<open>status --check-servers\<close> reports every calendar a readable stored proof names, once, in the order
  of the URLs, with the number of proofs that still wait for it.
\<close>

theorem calendars_are_counted:
  assumes "check_calendars h rejects opener root d w = (Inr rs, w')"
  shows "sorted (map sv_url rs) \<and> distinct (map sv_url rs) \<and>
    map_of (map (\<lambda>r. (sv_url r, sv_pending_proofs r)) rs) =
      tally (stored_proofs h (path_join root d) (store_of h w))"
proof -
  from assms obtain counts w1 where c: "collect_calendar_urls h root d w = (Inr counts, w1)"
    and "mapP (\<lambda>url. bindP (run_probe rejects opener url) (\<lambda>(reachable, detail).
       ret \<lparr>sv_url = url, sv_reachable = reachable, sv_detail = detail,
         sv_pending_proofs = the (map_of counts url)\<rparr>)) (sort (map fst counts)) w1 = (Inr rs, w')"
    by (auto simp: check_calendars_def bindP_Inr_iff)
  note m = mapP_statuses [OF this(2)]
  have k: "map_of counts = tally (stored_proofs h (path_join root d) (store_of h w)) \<and> distinct (map fst counts)"
    using c count_proofs [of h "path_join root d" _ "[]" w counts w1 "[]"]
    by (auto simp: collect_calendar_urls_def Let_def bindP_Inr_iff stored_proofs_def tally_def fun_eq_iff
        split: if_splits)
  have u: "map sv_url rs = sort (map fst counts)"
    using arg_cong [OF m, of "map fst"] by (simp add: comp_def)
  have "map_of (map (\<lambda>u. (u, the (map_of counts u))) (sort (map fst counts))) = map_of counts"
    by (simp add: map_of_own_values)
  with m u k show ?thesis by simp
qed

definition anchored_files :: file_store where
  "anchored_files = [(''/repo/proofs'', Directory), (''/repo/proofs/x.ots'', RegularFile example_proof)]"

lemma example_checked:
  "check_calendars zero_host (\<lambda>_. False) (\<lambda>_ w. (Inl (HTTPError 404), w)) ''/repo'' ''proofs'' anchored_files =
     (Inr [\<lparr>sv_url = [0x75], sv_reachable = False, sv_detail = ''unsupported URL scheme '', sv_pending_proofs = 0\<rparr>],
      anchored_files)"
proof -
  have "sort (list_dir ''/repo/proofs'' anchored_files) = [''x.ots'']" by code_simp
  moreover have "is_proof_name ''x.ots''" by code_simp
  moreover have "bytes_text [0x75] = ''u''" by code_simp
  moreover have "url_scheme (\<lambda>_. False) ''u'' = Inr []" by code_simp
  moreover have "map_of anchored_files ''/repo/proofs'' = Some Directory"
    "map_of anchored_files ''/repo/proofs/x.ots'' = Some (RegularFile example_proof)"
    by (simp_all add: anchored_files_def)
  moreover note example_describe
  ultimately show ?thesis
    by (simp add: check_calendars_def collect_calendar_urls_def count_proof_def run_probe_def bindP_def catchP_def
        zero_host_def file_host_def path_join_def is_dir_def is_file_def file_content_def read_file_def
        read_bytes_def note_proof_def note_anchoring_def example_anchors_def Let_def)
qed

lemma calendars_are_counted_witness:
  "tally (stored_proofs zero_host ''/repo/proofs'' anchored_files) [0x75] = Some 0"
proof -
  have "path_join ''/repo'' ''proofs'' = ''/repo/proofs''" "store_of zero_host anchored_files = anchored_files"
    by (simp_all add: path_join_def zero_host_def file_host_def)
  moreover note fun_cong [OF calendars_are_counted [OF example_checked, THEN conjunct2, THEN conjunct2], of "[0x75]"]
  ultimately show ?thesis by simp
qed

end
