(* ===== verification/ConfigFacts.thy ===== *)
theory ConfigFacts
  imports GitConfig "HOL-Library.Multiset"
begin

text \<open>
  What the parsers of \<open>config.py\<close> let through, the policy ladder of \<open>gitconfig.py\<close>, and the
  well-formedness of every configuration that is assembled.
\<close>

section \<open>What the parsers accept\<close>

lemma unit_length_pos: "unit_length c = Some u \<Longrightarrow> 0 < u"
  by (auto simp: unit_length_def hours_def microseconds_def split: if_splits)

lemma parse_duration_pos: "parse_duration s = Inr d \<Longrightarrow> 0 < d"
  by (auto simp: parse_duration_def Let_def intro!: mult_pos_pos dest!: unit_length_pos
      split: option.splits if_splits list.splits)

lemma parse_timeout_pos: "parse_timeout s = Inr (Some d) \<Longrightarrow> 0 < d"
  by (auto simp: parse_timeout_def catchE_Inr_iff bindE_Inr_iff parse_duration_pos split: if_splits)

lemma parse_fixed_time_range: "parse_fixed_time s = Inr t \<Longrightarrow> 0 \<le> t \<and> t < hours 24"
  by (auto simp: parse_fixed_time_def Let_def hours_def microseconds_def split: list.splits if_splits)

definition contained_directory :: "string \<Rightarrow> bool" where
  "contained_directory d \<longleftrightarrow> d \<noteq> [] \<and> \<not> str_startswith d ''/'' \<and> \<not> str_endswith d ''/'' \<and>
     (\<forall>s \<in> set (split_char (CHR ''/'') d). s \<notin> {[], ''.'', ''..''} \<and> directory_segment_ok s)"

lemma check_directory_segments_Inr:
  "check_directory_segments ss = Inr u \<Longrightarrow> \<forall>s \<in> set ss. s \<notin> {[], ''.'', ''..''} \<and> directory_segment_ok s"
  by (induction ss) (auto split: if_splits)

lemma configured_directory_contained:
  "validate_configured_directory d = Inr d' \<Longrightarrow> d' = d \<and> contained_directory d"
  unfolding validate_configured_directory_def contained_directory_def
  by (auto simp: bindE_Inr_iff dest!: check_directory_segments_Inr)

definition usable_prefix :: "string \<Rightarrow> bool" where
  "usable_prefix p \<longleftrightarrow> str_endswith p ''/'' \<and> \<not> str_startswith p ''/'' \<and>
     (\<forall>s \<in> set (split_char (CHR ''/'') (butlast p)). prefix_segment_ok s \<and> \<not> str_contains s ''..'' \<and>
        \<not> str_endswith s ''.lock'' \<and> \<not> list_ex prefix_forbidden s)"

lemma check_prefix_segments_Inr:
  "check_prefix_segments ss = Inr u \<Longrightarrow> \<forall>s \<in> set ss. prefix_segment_ok s \<and> \<not> str_contains s ''..'' \<and>
     \<not> str_endswith s ''.lock'' \<and> \<not> list_ex prefix_forbidden s"
  by (induction ss) (auto split: if_splits)

lemma tag_prefix_usable: "validate_tag_prefix p = Inr p' \<Longrightarrow> p' = p \<and> usable_prefix p"
  unfolding validate_tag_prefix_def usable_prefix_def
  by (auto simp: bindE_Inr_iff dest!: check_prefix_segments_Inr)

section \<open>Sections of a configuration\<close>

definition wf_sections :: "config \<Rightarrow> bool" where
  "wf_sections c \<longleftrightarrow>
     pc_initial_history (cf_policy c) \<in> {''latest'', ''all''} \<and>
     gc_signing (cf_git c) \<in> {''inherit'', ''required''} \<and>
     usable_prefix (gc_tag_prefix (cf_git c)) \<and>
     contained_directory (pr_directory (cf_proof c)) \<and>
     (\<forall>t. lc_ots_timeout (cf_limits c) = Some t \<longrightarrow> 0 < t) \<and>
     (\<forall>t. lc_git_timeout (cf_limits c) = Some t \<longrightarrow> 0 < t)"

definition wf_triggers :: "trigger_values \<Rightarrow> bool" where
  "wf_triggers tv \<longleftrightarrow>
     (tv_every_commit tv \<or> tv_max_age tv \<noteq> None \<or> tv_fixed_time tv \<noteq> None) \<and>
     (tv_fixed_time tv = None \<longleftrightarrow> tv_timezone tv = None) \<and>
     (\<forall>a. tv_max_age tv = Some a \<longrightarrow> 0 < a) \<and>
     (\<forall>t. tv_fixed_time tv = Some t \<longrightarrow> 0 \<le> t \<and> t < hours 24)"

lemma default_config_wf: "wf_sections default_config"
proof -
  have "usable_prefix ''ots/''" "contained_directory proof_directory_default" by code_simp+
  then show ?thesis
    by (simp add: wf_sections_def default_config_def default_policy_def default_git_def default_proof_def
        default_limits_def microseconds_def)
qed

lemma accepted_values:
  "validate_tag_prefix p = Inr p' \<Longrightarrow> usable_prefix p'"
  "validate_configured_directory d = Inr d' \<Longrightarrow> contained_directory d'"
  "parse_initial_history s = Inr s' \<Longrightarrow> s' \<in> {''latest'', ''all''}"
  "parse_signing s = Inr s' \<Longrightarrow> s' \<in> {''inherit'', ''required''}"
  using tag_prefix_usable configured_directory_contained
  by (force simp: parse_initial_history_def parse_signing_def signing_modes_def split: if_splits)+

lemma set_field_wf:
  assumes "set_field f v c = Inr c'" "wf_sections c"
  shows "wf_sections c'"
proof (cases f)
  case InitialHistory
  with assms show ?thesis by (auto simp: wf_sections_def bindE_Inr_iff dest!: accepted_values(3))
next
  case TagPrefix
  with assms show ?thesis by (auto simp: wf_sections_def bindE_Inr_iff dest!: accepted_values(1))
next
  case Signing
  with assms show ?thesis by (auto simp: wf_sections_def bindE_Inr_iff dest!: accepted_values(4))
next
  case ProofDirectory
  with assms show ?thesis by (auto simp: wf_sections_def bindE_Inr_iff dest!: accepted_values(2))
next
  case OtsTimeout
  with assms show ?thesis by (auto simp: wf_sections_def bindE_Inr_iff parse_timeout_pos)
next
  case GitTimeout
  with assms show ?thesis by (auto simp: wf_sections_def bindE_Inr_iff parse_timeout_pos)
qed (use assms in \<open>auto simp: wf_sections_def bindE_Inr_iff\<close>)

lemma apply_rows_wf: "apply_rows records rs (c, os) = Inr (c', os') \<Longrightarrow> wf_sections c \<Longrightarrow> wf_sections c'"
  by (induction rs arbitrary: c os)
    (auto simp: apply_row_def bindE_Inr_iff dest: set_field_wf split: if_splits option.splits)

section \<open>The ladder\<close>

text \<open>What a trigger key contributes when the scope of tier \<open>t\<close> decides.\<close>

definition value_at :: "nat \<Rightarrow> (string \<Rightarrow> 'a result) \<Rightarrow> raw_config_value option \<Rightarrow> 'a option" where
  "value_at t parse r =
     (case r of
        Some v \<Rightarrow>
          if scope_tier (rv_scope v) = Some t
          then (case rv_value v of CfgText s \<Rightarrow> (case parse s of Inr x \<Rightarrow> Some x | Inl _ \<Rightarrow> None) | _ \<Rightarrow> None)
          else None
      | None \<Rightarrow> None)"

definition enabled_at :: "nat \<Rightarrow> records \<Rightarrow> bool" where
  "enabled_at t records \<longleftrightarrow>
     (\<exists>r s. map_of records ''ots.everycommit'' = Some r \<and> rv_enabling_scope r = Some s \<and> scope_tier s = Some t)"

definition decides :: "(string \<Rightarrow> zone option) \<Rightarrow> records \<Rightarrow> nat \<Rightarrow> trigger_values \<Rightarrow> bool" where
  "decides zoneinfo records t tv \<longleftrightarrow>
     (\<forall>s \<in> set (enabling_scopes records). \<exists>n \<le> t. scope_tier s = Some n) \<and>
     (\<exists>s \<in> set (enabling_scopes records). scope_tier s = Some t) \<and>
     (tv_every_commit tv \<longleftrightarrow> enabled_at t records) \<and>
     tv_max_age tv = value_at t parse_duration (map_of records ''ots.maxage'') \<and>
     tv_fixed_time tv = value_at t parse_fixed_time (map_of records ''ots.fixedtime'') \<and>
     tv_timezone tv = value_at t (parse_timezone zoneinfo) (map_of records ''ots.timezone'')"

lemma tier_of_Inr [simp]: "tier_of s = Inr n \<longleftrightarrow> scope_tier s = Some n"
  by (simp add: tier_of_def split: option.splits)

lemma trigger_value_Inr:
  "trigger_value m parse r = Inr v \<longleftrightarrow>
     (r = None \<and> v = None \<or> (\<exists>x s y. r = Some x \<and> rv_value x = CfgText s \<and> parse s = Inr y \<and> v = Some y))"
  by (auto simp: trigger_value_def bindE_Inr_iff split: option.splits config_value.splits)

lemma at_tier_value:
  assumes "trigger_value m parse r = Inr v" "at_tier t r v = Inr u"
  shows "u = value_at t parse r"
    and "u \<noteq> None \<longleftrightarrow> (\<exists>x. r = Some x \<and> scope_tier (rv_scope x) = Some t)"
  using assms by (auto simp: at_tier_def value_at_def trigger_value_Inr bindE_Inr_iff split: option.splits if_splits)

lemma foldl_max: "foldl max (a :: nat) xs = Max (set (a # xs))"
  unfolding Max.set_eq_fold foldl_conv_fold by (simp add: max.commute)

lemma mapE_tier: "mapE tier_of ss = Inr ns \<longleftrightarrow> map scope_tier ss = map Some ns"
  by (induction ss arbitrary: ns) (auto simp: bindE_Inr_iff Cons_eq_map_conv)

lemma winning_tier:
  assumes "mapE tier_of ss = Inr ns" "ns \<noteq> []"
  shows "(\<forall>s \<in> set ss. \<exists>n \<le> foldl max 0 ns. scope_tier s = Some n) \<and>
    (\<exists>s \<in> set ss. scope_tier s = Some (foldl max 0 ns))"
proof -
  have m: "foldl max 0 ns = Max (set ns)"
    using assms(2) by (simp add: foldl_max Max_insert [of "set ns" 0])
  have im: "scope_tier ` set ss = Some ` set ns"
    using assms(1) unfolding mapE_tier by (metis list.set_map)
  have "Max (set ns) \<in> set ns" using assms(2) by simp
  then have "Some (Max (set ns)) \<in> scope_tier ` set ss" unfolding im by simp
  moreover have "\<exists>n \<le> Max (set ns). scope_tier s = Some n" if "s \<in> set ss" for s
  proof -
    have "scope_tier s \<in> Some ` set ns" using that im by blast
    then show ?thesis by auto
  qed
  ultimately show ?thesis unfolding m by (metis imageE)
qed

lemma enabling_scopes_iff:
  "s \<in> set (enabling_scopes records) \<longleftrightarrow>
     (\<exists>r. map_of records ''ots.everycommit'' = Some r \<and> rv_enabling_scope r = Some s) \<or>
     (\<exists>r. map_of records ''ots.maxage'' = Some r \<and> rv_scope r = s) \<or>
     (\<exists>r. map_of records ''ots.fixedtime'' = Some r \<and> rv_scope r = s)"
  by (cases "map_of records ''ots.everycommit''"; cases "map_of records ''ots.maxage''";
      cases "map_of records ''ots.fixedtime''")
    (auto simp: enabling_scopes_def split: option.splits)

lemma resolve_triggers_cases:
  assumes "resolve_triggers zoneinfo records = Inr (tv, os)"
  shows "enabling_scopes records = [] \<and> tv = default_triggers \<or>
    (\<exists>t. decides zoneinfo records t tv \<and>
       (tv_fixed_time tv = None \<longleftrightarrow> tv_timezone tv = None) \<and>
       (tv_every_commit tv \<or> tv_max_age tv \<noteq> None \<or> tv_fixed_time tv \<noteq> None))"
proof -
  let ?age = "map_of records ''ots.maxage''" and ?fixed = "map_of records ''ots.fixedtime''"
    and ?zone = "map_of records ''ots.timezone''"
    and ?every = "Option.bind (map_of records ''ots.everycommit'') rv_enabling_scope"
  from assms obtain av fv zv ns where
    av: "trigger_value ''ots.maxAge requires a value'' parse_duration ?age = Inr av" and
    fv: "trigger_value ''ots.fixedTime requires a value'' parse_fixed_time ?fixed = Inr fv" and
    zv: "trigger_value ''ots.timezone requires a value'' (parse_timezone zoneinfo) ?zone = Inr zv" and
    ns: "mapE tier_of (enabling_scopes records) = Inr ns"
    unfolding resolve_triggers_def Let_def bindE_Inr_iff by blast
  show ?thesis
  proof (cases "ns = []")
    case True
    with assms av fv zv ns show ?thesis
      by (auto simp: resolve_triggers_def Let_def mapE_tier)
  next
    case False
    let ?t = "foldl max 0 ns"
    from assms av fv zv ns False obtain ev a f z where
      ev: "(case ?every of None \<Rightarrow> Inr False | Some s \<Rightarrow> bindE (tier_of s) (\<lambda>t. Inr (t = ?t))) = Inr ev" and
      a: "at_tier ?t ?age av = Inr a" and f: "at_tier ?t ?fixed fv = Inr f" and z: "at_tier ?t ?zone zv = Inr z" and
      fz: "\<not> (f \<noteq> None \<and> z = None)" "\<not> (z \<noteq> None \<and> f = None)" and
      tv: "tv = \<lparr>tv_every_commit = ev, tv_max_age = a, tv_fixed_time = f, tv_timezone = z\<rparr>"
      unfolding resolve_triggers_def Let_def bindE_Inr_iff by (auto simp: bindE_Inr_iff)
    have e: "ev \<longleftrightarrow> enabled_at ?t records"
      using ev by (auto simp: enabled_at_def bindE_Inr_iff split: option.splits Option.bind_splits)
    note w = winning_tier [OF ns False]
    have d: "decides zoneinfo records ?t tv"
      unfolding decides_def tv using w e at_tier_value(1) [OF av a] at_tier_value(1) [OF fv f]
        at_tier_value(1) [OF zv z] by simp
    from w obtain s where s: "s \<in> set (enabling_scopes records)" "scope_tier s = Some ?t" by blast
    then have "ev \<or> a \<noteq> None \<or> f \<noteq> None"
      unfolding enabling_scopes_iff e at_tier_value(2) [OF av a] at_tier_value(2) [OF fv f] enabled_at_def by blast
    with d fz tv show ?thesis by auto
  qed
qed

lemma value_at_Some: "value_at t parse r = Some x \<Longrightarrow> \<exists>s. parse s = Inr x"
  by (auto simp: value_at_def split: option.splits config_value.splits sum.splits if_splits)

lemma resolved_triggers_wf:
  assumes "resolve_triggers zoneinfo records = Inr (tv, os)"
  shows "wf_triggers tv"
proof -
  have ranges: "(\<forall>a. tv_max_age tv = Some a \<longrightarrow> 0 < a) \<and>
      (\<forall>f. tv_fixed_time tv = Some f \<longrightarrow> 0 \<le> f \<and> f < hours 24)" if "decides zoneinfo records t tv" for t
    using that value_at_Some parse_duration_pos parse_fixed_time_range unfolding decides_def by metis
  from resolve_triggers_cases [OF assms] show ?thesis
  proof (elim disjE exE conjE)
    assume "tv = default_triggers"
    then show ?thesis
      by (simp add: wf_triggers_def default_triggers_def default_max_age_def hours_def microseconds_def)
  qed (use ranges in \<open>auto simp: wf_triggers_def\<close>)
qed

text \<open>The triggers a policy section holds.\<close>

definition policy_triggers :: "policy_config \<Rightarrow> trigger_values" where
  "policy_triggers p = \<lparr>tv_every_commit = pc_every_commit p, tv_max_age = pc_max_age p,
     tv_fixed_time = pc_fixed_time p, tv_timezone = pc_timezone p\<rparr>"

lemma apply_rows_origins:
  "apply_rows records rs (c, os) = Inr (c', os') \<Longrightarrow>
     map fst os' = map fst os @ map mr_key (filter (\<lambda>r. \<not> mr_is_trigger r) rs)"
  by (induction rs arbitrary: c os)
    (auto simp: apply_row_def bindE_Inr_iff split: if_splits option.splits)

lemma resolved_origins:
  "resolve_triggers zoneinfo records = Inr (tv, os) \<Longrightarrow>
     map fst os = [''ots.everycommit'', ''ots.maxage'', ''ots.fixedtime'', ''ots.timezone'']"
  by (auto simp: resolve_triggers_def trigger_origins_def Let_def bindE_Inr_iff split: if_splits)

section \<open>Properties\<close>

text \<open>
  C24: the policy ladder. The triggers that take effect all come from one scope: the narrowest that
  enables any of them, where a false \<open>ots.everyCommit\<close> enables nothing. A key set in another scope
  contributes nothing, a fixed time and its zone come together, and some trigger is always on: the
  built-in daily one when no scope enables any.
\<close>

theorem one_scope_decides:
  assumes "resolve_triggers zoneinfo records = Inr (tv, os)"
  shows "enabling_scopes records = [] \<and> tv = default_triggers \<or>
    (\<exists>t. decides zoneinfo records t tv \<and>
       (tv_fixed_time tv = None \<longleftrightarrow> tv_timezone tv = None) \<and>
       (tv_every_commit tv \<or> tv_max_age tv \<noteq> None \<or> tv_fixed_time tv \<noteq> None))"
  using assms by (rule resolve_triggers_cases)

definition example_records :: records where
  "example_records =
     [(''ots.maxage'', \<lparr>rv_value = CfgText ''12h'', rv_scope = ''global'', rv_enabling_scope = None\<rparr>),
      (''ots.everycommit'', \<lparr>rv_value = CfgBool False, rv_scope = ''local'', rv_enabling_scope = Some ''global''\<rparr>)]"

lemma example_records_resolve:
  "case resolve_triggers (\<lambda>_. None) example_records of
     Inr (tv, _) \<Rightarrow> tv_every_commit tv \<and> tv_max_age tv = Some (hours 12) | Inl _ \<Rightarrow> False"
  by code_simp

lemma one_scope_decides_witness:
  "\<exists>tv os. resolve_triggers (\<lambda>_. None) example_records = Inr (tv, os) \<and>
     (\<exists>t. decides (\<lambda>_. None) example_records t tv)"
proof -
  obtain tv os where r: "resolve_triggers (\<lambda>_. None) example_records = Inr (tv, os)"
    using example_records_resolve by (auto split: sum.splits)
  have "enabling_scopes example_records \<noteq> []" by code_simp
  with one_scope_decides [OF r] r show ?thesis by blast
qed

text \<open>
  C25: every configuration that is assembled is well formed. The proof directory is relative and has
  no empty, \<open>.\<close> or \<open>..\<close> segment, so that neither Git's checks nor the writers refuse it; the tag prefix
  can stand in a ref name; enumerated values are among those allowed, durations are positive, the
  time of day lies within a day, some policy is on; and every key has exactly one origin.
\<close>

theorem assembled_config_wf:
  assumes "assemble zoneinfo records = Inr a"
  shows "wf_sections (as_config a) \<and> wf_triggers (policy_triggers (cf_policy (as_config a))) \<and>
    validate_proof_directory (pr_directory (cf_proof (as_config a))) = Inr () \<and>
    mset (map fst (as_origins a)) = mset (map mr_key MAPPING)"
proof -
  from assms obtain c os tv tos where
    c: "apply_rows records MAPPING (default_config, []) = Inr (c, os)" and
    t: "resolve_triggers zoneinfo records = Inr (tv, tos)" and
    a: "as_config a = with_triggers tv c" "as_origins a = os @ tos"
    by (auto simp: assemble_def bindE_Inr_iff Let_def split: if_splits)
  have s: "wf_sections (as_config a)"
    using apply_rows_wf [OF c default_config_wf] by (simp add: a wf_sections_def with_triggers_def)
  then have "validate_proof_directory (pr_directory (cf_proof (as_config a))) = Inr ()"
    by (simp add: wf_sections_def contained_directory_def validate_proof_directory_def)
  moreover have "policy_triggers (cf_policy (as_config a)) = tv"
    by (simp add: a policy_triggers_def with_triggers_def)
  moreover have "mset (map fst (as_origins a)) = mset (map mr_key MAPPING)"
    unfolding a map_append apply_rows_origins [OF c] resolved_origins [OF t]
    by (simp add: MAPPING_def row_def)
  ultimately show ?thesis using s resolved_triggers_wf [OF t] by simp
qed

lemma example_records_assemble:
  "case assemble (\<lambda>_. None) example_records of Inr a \<Rightarrow> \<not> as_warned a | Inl _ \<Rightarrow> False"
  by code_simp

lemma assembled_config_wf_witness:
  "\<exists>a. assemble (\<lambda>_. None) example_records = Inr a \<and> wf_sections (as_config a)"
  using example_records_assemble assembled_config_wf by (fastforce split: sum.splits)

text \<open>
  A false \<open>ots.everyCommit\<close> is inert. A record of the key that is true in no scope changes
  nothing: the triggers are those of a configuration without the key.
\<close>

theorem false_trigger_is_inert:
  assumes "map_of records ''ots.everycommit'' = Some r" "rv_enabling_scope r = None"
  shows "resolve_triggers zoneinfo records =
    resolve_triggers zoneinfo (filter (\<lambda>(k, _). k \<noteq> ''ots.everycommit'') records)"
proof -
  let ?f = "filter (\<lambda>(k, _). k \<noteq> ''ots.everycommit'') records"
  have m: "map_of (filter (\<lambda>(k, _). k \<noteq> k0) xs) k = (if k = k0 then None else map_of xs k)"
    for k k0 :: string and xs :: records
    by (induction xs) auto
  have b: "Option.bind (map_of records ''ots.everycommit'') rv_enabling_scope = None"
    "Option.bind (map_of ?f ''ots.everycommit'') rv_enabling_scope = None"
    using assms by (simp_all add: m)
  have "enabling_scopes records = enabling_scopes ?f"
    using assms by (simp add: enabling_scopes_def m)
  then show ?thesis
    unfolding resolve_triggers_def Let_def b by (simp add: m cong: if_cong)
qed

lemma false_trigger_is_inert_witness:
  "resolve_triggers (\<lambda>_. None)
     [(''ots.everycommit'', \<lparr>rv_value = CfgBool False, rv_scope = ''local'', rv_enabling_scope = None\<rparr>),
      (''ots.maxage'', \<lparr>rv_value = CfgText ''12h'', rv_scope = ''global'', rv_enabling_scope = None\<rparr>)] =
   resolve_triggers (\<lambda>_. None)
     [(''ots.maxage'', \<lparr>rv_value = CfgText ''12h'', rv_scope = ''global'', rv_enabling_scope = None\<rparr>)]"
  by (subst false_trigger_is_inert
      [where r = "\<lparr>rv_value = CfgBool False, rv_scope = ''local'', rv_enabling_scope = None\<rparr>"]) simp_all

text \<open>
  A final newline passes the checks of the proof directory: \<open>$\<close> matches before it, so that a
  character the pattern means to exclude is accepted.
\<close>

theorem newline_directory_accepted:
  "validate_configured_directory (''proofs'' @ [newline]) = Inr (''proofs'' @ [newline]) \<and>
   \<not> is_directory_char newline"
  by code_simp

end
