(* ===== verification/CliFacts.thy ===== *)
theory CliFacts
  imports Cli RunFacts ServerFacts ConfigFacts
begin

text \<open>
  What the exit codes of the commands promise: the documented readers only read, the idle exit of
  \<open>run\<close> means that nothing was changed, and a \<open>verify\<close> that succeeds confirmed every proof. What
  \<open>git-ots config\<close> prints can be set again.
\<close>

section \<open>Reading\<close>

lemma quiet_config [quiet_intros]:
  assumes "quiet_reads v h"
  shows "keeps v (read_namespace h)" "keeps v (assemble_config h z)" "keeps v (describe_effective_configuration h z)"
proof -
  have o: "keeps v (config_output h (''config'' # args))" for args
    using assms by (auto simp: config_output_def intro!: keeps_intros quiet_intros)
  show n: "keeps v (read_namespace h)"
    unfolding read_namespace_def read_raw_entries_def read_boolean_def by (auto intro!: keeps_intros o)
  show "keeps v (assemble_config h z)" "keeps v (describe_effective_configuration h z)"
    unfolding assemble_config_def describe_effective_configuration_def by (auto intro!: keeps_intros n)
qed

text \<open>A view that the output of an invocation, its lock and its reading of the repository leave alone.\<close>

definition quiet_invocation :: "('w \<Rightarrow> 'v) \<Rightarrow> 'w cli_context \<Rightarrow> bool" where
  "quiet_invocation v x \<longleftrightarrow> quiet_reads v (cc_host x) \<and> (\<forall>s w. v (cc_print x s w) = v w) \<and>
     (\<forall>s w. v (cc_error x s w) = v w) \<and> (\<forall>s w. v (set_locks (cc_locks x) s w) = v w)"

lemma quiet_invocationD:
  assumes "quiet_invocation v x"
  shows "quiet_reads v (cc_host x)" "v (set_locks (cc_locks x) s w) = v w"
    "keeps v (say x ls)" "keeps v (complain x ls)" "keeps v (log_info x b l)"
    "keeps v (cli_locate_repository x)" "keeps v (opened x)"
proof -
  note q = assms [unfolded quiet_invocation_def]
  show r: "quiet_reads v (cc_host x)" and "v (set_locks (cc_locks x) s w) = v w" using q by simp_all
  have f: "v (fold g ls w) = v w" if "\<And>s w. v (g s w) = v w" for g :: "string \<Rightarrow> 'a \<Rightarrow> 'a" and ls w
    using that by (induction ls arbitrary: w) simp_all
  show "keeps v (say x ls)" and c: "keeps v (complain x ls)" for ls
    using f q by (simp_all add: say_def complain_def keeps_def)
  show "keeps v (log_info x b l)" by (simp add: log_info_def c keeps_ret)
  show l: "keeps v (cli_locate_repository x)"
    unfolding cli_locate_repository_def by (intro keeps_intros quiet_refs r)
  show "keeps v (opened x)"
    unfolding opened_def by (intro keeps_intros l quiet_config r)
qed

lemma keeps_fold_warnings:
  assumes "quiet_reads v h"
  shows "keeps v (doP (fold (log_warning h) ls))"
proof -
  have "v (fold (log_warning h) ls w) = v w" for w
    using assms by (induction ls arbitrary: w) (simp_all add: quiet_reads_def)
  then show ?thesis by (simp add: keeps_def)
qed

lemma proof_anchor_lines_keeps: "keeps v (proof_anchor_lines h root d)"
  unfolding proof_anchor_lines_def describe_stored_def Let_def by (auto intro!: keeps_intros)

lemma collect_calendar_urls_keeps: "keeps v (collect_calendar_urls h root d)"
  unfolding collect_calendar_urls_def count_proof_def Let_def by (auto intro!: keeps_intros)

lemma check_calendars_keeps:
  assumes "\<And>u w. v (snd (opener u w)) = v w"
  shows "keeps v (check_calendars h rejects opener root d)"
proof -
  have "keeps v (\<lambda>w. case opener u w of
      (Inr response, w1) \<Rightarrow> ret (True, http_status_text (rs_status response)) w1
    | (Inl (HTTPError code), w1) \<Rightarrow> ret (True, http_status_text code) w1
    | (Inl (URLError reason), w1) \<Rightarrow> ret (False, reason) w1
    | (Inl (OtherOSError text), w1) \<Rightarrow> ret (False, text) w1
    | (Inl (BadProtocol text), w1) \<Rightarrow> raiseP (HTTPException text) w1)" for u
    using assms [of u] by (auto simp: keeps_def ret_def raiseP_def split: prod.split sum.split http_failure.split)
      (metis snd_conv)+
  then have "keeps v (run_probe rejects opener u)" for u
    unfolding run_probe_def by (auto intro!: keeps_intros)
  then show ?thesis
    unfolding check_calendars_def by (auto intro!: keeps_intros collect_calendar_urls_keeps)
qed

lemma build_snapshot_keeps: "quiet_reads v h \<Longrightarrow> keeps v (build_snapshot h root cfg now)"
  by (simp add: keeps_def snapshot_only_reads)

lemma fetch_keeps:
  assumes "quiet_reads v h" "\<And>args inp. keeps v (run_git h (''git'' # ''fetch'' # args) inp)"
  shows "keeps v (maybe_fetch_before_run h r b)"
proof -
  have "keeps v (fetch_remote h remote)" for remote
    unfolding fetch_remote_def by (intro keeps_intros keeps_run assms)
  then show ?thesis
    unfolding maybe_fetch_before_run_def by (intro keeps_intros quiet_refs assms)
qed

text \<open>The commands that are documented to change nothing, dry runs among them.\<close>

fun reading :: "command \<Rightarrow> bool" where
  "reading (Run dry_run _ _) = dry_run"
| "reading (Repair dry_run) = dry_run"
| "reading (Upgrade dry_run) = dry_run"
| "reading _ = True"

text \<open>The programs and servers that a reading command consults.\<close>

fun quiet_outside :: "('w \<Rightarrow> 'v) \<Rightarrow> 'w cli_context \<Rightarrow> command \<Rightarrow> bool" where
  "quiet_outside v x (Run _ _ _) = (\<forall>args inp. keeps v (run_git (cc_host x) (''git'' # ''fetch'' # args) inp))"
| "quiet_outside v x (Status servers) = ((\<forall>cfg. keeps v (probe (client_of x cfg))) \<and>
     (servers \<longrightarrow> (\<forall>u w. v (snd (cc_opener x u w)) = v w)))"
| "quiet_outside v x (Verify _) = (\<forall>cfg b p. keeps v (verify (cc_host x) (client_of x cfg) b p))"
| "quiet_outside v x _ = True"

lemma execute_keeps:
  assumes q: "quiet_invocation v x" and out: "quiet_outside v x c" and c: "reading c"
  shows "keeps v (execute x now verbose c)"
proof -
  note i = quiet_invocationD [OF q]
  note snapshot = build_snapshot_keeps [OF i(1)]
  show ?thesis
  proof (cases c)
    case (Run dry_run idle_code push)
    have "keeps v (inspect_and_act x now True verbose push root cfg)" for root cfg
      unfolding inspect_and_act_def Let_def if_True
      using out Run by (intro keeps_intros fetch_keeps snapshot i) simp
    with Run c show ?thesis
      unfolding Run execute.simps run_command_def by (auto intro!: keeps_intros with_lock_keeps quiet_config i)
  next
    case (Status b)
    with out have p: "keeps v (probe (client_of x cfg))" and o: "b \<Longrightarrow> v (snd (cc_opener x u w)) = v w" for cfg u w
      by simp_all
    have servers: "keeps v (check_servers x root cfg)" if b for root cfg
      unfolding check_servers_def using that by (intro keeps_intros i check_calendars_keeps keeps_fold_warnings o)
    have "keeps v (doP (log_warning (cc_host x) l))" for l
      using i(1) by (simp add: quiet_reads_def keeps_def)
    then have probe: "keeps v (probe_client x cfg)" for cfg
      unfolding probe_client_def by (intro keeps_intros i p)
    show ?thesis
      unfolding Status execute.simps status_command_def Let_def
      by (auto intro!: keeps_intros i snapshot proof_anchor_lines_keeps servers probe)
  next
    case (Validate d)
    then show ?thesis
      unfolding Validate execute.simps validate_command_def by (auto intro!: keeps_intros i validate_proofs_keeps)
  next
    case (Repair d)
    have "keeps v (repair_missing_tags (cc_host x) (cc_locks x) ver g p True r)" for ver g p r
      by (simp add: keeps_def repair_dry_run_reads [OF i(1,2)])
    with Repair c show ?thesis
      unfolding Repair execute.simps repair_command_def by (auto intro!: keeps_intros i)
  next
    case (Verify d)
    have "keeps v (verify_proofs (cc_host x) (verify (cc_host x) (client_of x cfg)) r g ds)" for cfg r g ds
      using verification_only_reads [of v "cc_host x" "verify (cc_host x) (client_of x cfg)"] i(1) out Verify
      by (simp add: keeps_def)
    with Verify show ?thesis
      unfolding Verify execute.simps verify_command_def by (auto intro!: keeps_intros i)
  next
    case (Upgrade d)
    have "keeps v (upgrade_proofs (cc_host x) (cc_locks x) cl f u True r)" for cl f u r
      by (simp add: keeps_def dry_run_changes_nothing [OF i(1,2)])
    with Upgrade c show ?thesis
      unfolding Upgrade execute.simps upgrade_command_def by (auto intro!: keeps_intros i)
  next
    case ShowConfig
    then show ?thesis
      unfolding ShowConfig execute.simps config_command_def by (auto intro!: keeps_intros i quiet_config)
  qed
qed

lemma handle_keeps:
  assumes "quiet_invocation v x"
  shows "keeps v (handle_exception x debug c e)"
  unfolding handle_exception_def interrupted_def unexpected_error_def
  by (auto intro!: keeps_intros quiet_invocationD [OF assms] split: option.split)

text \<open>
  C20: what is documented to read only reads. \<open>status\<close>, \<open>validate\<close>, \<open>verify\<close>, \<open>config\<close> and the dry runs of
  \<open>run\<close>, \<open>repair\<close> and \<open>upgrade\<close>, however they end, leave alone whatever the reading commands of Git,
  \<open>git fetch\<close>, the output, the lock and the programs they consult leave alone: no tag, commit, index
  entry or stored proof is made or changed.
\<close>

theorem reading_commands_read:
  assumes "quiet_invocation v x" "quiet_outside v x c" "reading c"
  shows "v (snd (main x now debug verbose (Some c) w)) = v w"
proof -
  have "keeps v (main x now debug verbose (Some c))"
    unfolding main_def Let_def option.case
    by (intro keeps_intros execute_keeps handle_keeps assms)
  then show ?thesis by (simp add: keeps_def)
qed

text \<open>An invocation in a repository without tags, proofs and pending commits.\<close>

definition idle_answers :: "string list \<Rightarrow> int \<times> string" where
  "idle_answers args =
     (if args = [''rev-parse'', ''--show-toplevel''] then (0, ''/r'')
      else if args = [''rev-parse'', ''--git-common-dir''] then (0, ''.git'')
      else if args = [''rev-parse'', ''--show-object-format''] then (0, ''sha1'')
      else if take 2 args = [''rev-parse'', ''--verify''] then (0, example_commit)
      else if take 1 args = [''config''] then (1, [])
      else (0, []))"

definition idle_context :: "file_store cli_context" where
  "idle_context =
     \<lparr>cc_host = example_host\<lparr>run_git := (\<lambda>av _ w. (Inr (fst (idle_answers (tl av)), snd (idle_answers (tl av)), []), w))\<rparr>,
      cc_locks = example_locks, cc_client = idle_client, cc_opener = (\<lambda>_ w. (Inl (URLError []), w)),
      cc_rejects = (\<lambda>_. False), cc_zoneinfo = (\<lambda>_. None), cc_zone_key = (\<lambda>_. []), cc_version = ''1.0'',
      cc_clock = (\<lambda>_. 0), cc_which = (\<lambda>_ _. False), cc_print = (\<lambda>_ w. w), cc_error = (\<lambda>_ w. w),
      cc_debug = [], cc_cwd = ''/r''\<rparr>"

lemma idle_context_quiet:
  "quiet_invocation v idle_context" "keeps v (run_git (cc_host idle_context) av inp)"
  by (simp_all add: quiet_invocation_def quiet_reads_def keeps_def idle_context_def example_host_def file_host_def
      example_locks_def)

lemma reading_commands_read_witness:
  "snd (main idle_context None False False (Some (Run True False False)) [(''/r/a'', RegularFile [1])]) =
     [(''/r/a'', RegularFile [1])]"
  using reading_commands_read [where v = "\<lambda>w. w" and x = idle_context and c = "Run True False False"]
  by (simp add: idle_context_quiet)

section \<open>The idle exit\<close>

lemma diagnose_raises: "diagnose x s cl w \<noteq> (Inr a, w')"
  by (auto simp: diagnose_def Let_def bindP_Inr_iff split: if_splits)

lemma complete_one_idle:
  assumes q: "quiet_reads v (rc_host x)" and c: "complete_one x tagged s st w = (Inr st', w')"
  shows "cp_completed st' = cp_completed st \<and> v w' = v w \<or> cp_completed st' = cp_completed st @ [s]"
proof (cases "s \<in> set (cp_seen st) \<or> s \<in> set tagged")
  case True
  with c show ?thesis by (auto simp: complete_one_def Let_def split: if_splits)
next
  case False
  with c obtain cl cache w1 ev w2 e w3 where
    s1: "claiming_proof_commits x s (search_baseline_of x s) (cp_cache st) w = (Inr (cl, cache), w1)" and
    s2: "committed_evidence x s w1 = (Inr ev, w2)" and
    s3: "(if ev = None \<and> cl \<noteq> [] then recover_worktree x s else ret ev) w2 = (Inr e, w3)" and
    s4: "(case e of Some e \<Rightarrow> bindP (run_tag x [s \<mapsto> e] s) (\<lambda>_. ret (st\<lparr>cp_seen := s # cp_seen st, cp_cache := cache,
          cp_completed := cp_completed st @ [s]\<rparr>))
        | None \<Rightarrow> if cl = [] then ret (st\<lparr>cp_seen := s # cp_seen st, cp_cache := cache\<rparr>) else diagnose x s cl) w3 = (Inr st', w')"
    by (auto simp: complete_one_def Let_def bindP_Inr_iff)
  have "v w1 = v w" by (rule keepsD [OF run_reads(4) [OF q] s1])
  moreover have "v w2 = v w1" by (rule keepsD [OF run_reads(1) [OF q] s2])
  moreover have "keeps v (if ev = None \<and> cl \<noteq> [] then recover_worktree x s else ret ev)"
    by (intro keeps_intros recover_worktree_keeps)
  from this s3 have "v w3 = v w2" by (rule keepsD)
  ultimately show ?thesis
    using s4 by (auto simp: bindP_Inr_iff diagnose_raises split: option.splits if_splits)
qed

lemma complete_fold_idle:
  assumes "quiet_reads v (rc_host x)" "foldP (complete_one x tagged) ss st w = (Inr st', w')"
  shows "cp_completed st' = cp_completed st \<and> v w' = v w \<or> length (cp_completed st) < length (cp_completed st')"
  using assms(2)
proof (induction ss arbitrary: st w)
  case (Cons s ss)
  then obtain st1 w1 where s: "complete_one x tagged s st w = (Inr st1, w1)"
    and r: "foldP (complete_one x tagged) ss st1 w1 = (Inr st', w')"
    by (auto simp: bindP_Inr_iff)
  from complete_one_idle [OF assms(1) s] Cons.IH [OF r] show ?case by auto
qed simp

lemma run_idle_unchanged:
  assumes q: "quiet_reads v (rc_host x)" and r: "run_idle x w = (Inr o', w')" "\<not> outcome_changed o'"
  shows "v w' = v w"
proof -
  from r obtain w1 where b: "commit_baseline x w = (Inr None, w1)"
    and t: "complete_tags x w1 = (Inr [], w')"
    by (auto simp: run_idle_def bindP_Inr_iff outcome_changed_def idle_outcome_def split: option.splits)
  have "v w1 = v w"
    using b keepsD [OF recover_worktree_keeps, of x _ _ _ _ v] keepsD [OF quiet_refs(8) [OF q]]
      keepsD [OF quiet_evidence(1) [OF q]]
    by (auto simp: commit_baseline_def bindP_Inr_iff split: option.splits if_splits)
  moreover have "v w' = v w1"
  proof (cases "snap_commits x")
    case True
    with t obtain tags w2 st where e: "enumerate_timestamp_tags (rc_host x) (gc_tag_prefix (snap_git x)) w1 = (Inr tags, w2)"
      and f: "foldP (complete_one x (map tag_commit_id tags)) (sources_to_check x)
        \<lparr>cp_cache = [], cp_seen = [], cp_completed = []\<rparr> w2 = (Inr st, w')" and n: "cp_completed st = []"
      by (auto simp: complete_tags_def bindP_Inr_iff)
    have "v w2 = v w1" by (rule keepsD [OF quiet_tags(1) [OF q] e])
    with complete_fold_idle [OF q f] n show ?thesis by simp
  qed (use t in \<open>simp add: complete_tags_def\<close>)
  ultimately show ?thesis by simp
qed

lemma run_unchanged:
  assumes q: "quiet_reads v (rc_host x)" and l: "\<And>s w. v (set_locks L s w) = v w"
    and r: "run_timestamping L x w = (Inr o', w')" "\<not> outcome_changed o'"
  shows "v w' = v w"
proof -
  from r(1) obtain s w1 s' where b: "run_locked x (set_locks L s w) = (Inr o', w1)" and w': "w' = set_locks L s' w1"
    by (auto simp: run_timestamping_def bindP_Inr_iff with_lock_Inr_iff)
  from b obtain rec fl w2 w3 w4 where
    a: "assert_committable_state (rc_host x) (snap_root x) (snap_commits x) (set_locks L s w) = (Inr (), w2)" and
    c: "(if snap_commits x \<and> gc_require_clean_worktree (snap_git x) then
         bindP (is_worktree_clean (rc_host x)) (\<lambda>clean.
         if clean then ret () else raiseP (InvalidRepositoryStateError ''worktree has uncommitted changes''))
       else ret ()) w2 = (Inr (), w3)" and
    i: "(if simulated x then ret (Map.empty, []) else in_flight_sources x (selected_ids x)) w3 = (Inr (rec, fl), w4)" and
    f: "(if selected_ids x = [] \<and> fl = [] then run_idle x else run_stamping x rec fl) w4 = (Inr o', w1)"
    unfolding run_locked_def by (auto simp: bindP_Inr_iff)
  have "v w2 = v w" using keepsD [OF quiet_source_ref(2) [OF q] a] l by simp
  moreover have "keeps v (if snap_commits x \<and> gc_require_clean_worktree (snap_git x) then
         bindP (is_worktree_clean (rc_host x)) (\<lambda>clean.
         if clean then ret () else raiseP (InvalidRepositoryStateError ''worktree has uncommitted changes''))
       else ret ())"
    by (intro keeps_intros quiet_refs q)
  from this c have "v w3 = v w2" by (rule keepsD)
  moreover have "keeps v (if simulated x then ret (Map.empty, []) else in_flight_sources x (selected_ids x))"
    by (intro keeps_intros run_reads q)
  from this i have "v w4 = v w3" by (rule keepsD)
  moreover have "v w1 = v w4"
  proof (cases "selected_ids x = [] \<and> fl = []")
    case True
    with f r(2) show ?thesis using run_idle_unchanged [OF q] by simp
  next
    case False
    then have "ro_tagged o' \<noteq> []" using f run_stamping_outcome(1) [of x rec fl w4 o' w1] by (auto split: if_splits)
    with r(2) show ?thesis by (simp add: outcome_changed_def)
  qed
  ultimately show ?thesis using l w' by simp
qed

lemma except_codes: "(p, m, n) \<in> set (except_clauses c) \<Longrightarrow> n \<in> {2, 3, 4, 5, 6, 7}"
  by (cases c) (auto simp: config_clause_def locked_clause_def state_clause_def git_clause_def persistence_clause_def)

lemma handle_code:
  assumes "handle_exception x debug c e w = (Inr n, w')"
  shows "n \<in> {1, 2, 3, 4, 5, 6, 7, 130}"
proof (cases "find (\<lambda>(is_class, _). is_class e) (except_clauses c)")
  case None
  with assms show ?thesis
    by (auto simp: handle_exception_def interrupted_def unexpected_error_def bindP_Inr_iff split: if_splits)
next
  case (Some cl)
  obtain p m k where cl: "cl = (p, m, k)" by (cases cl)
  with Some have "(p, m, k) \<in> set (except_clauses c)"
    unfolding find_Some_iff by (metis nth_mem)
  from except_codes [OF this] Some assms cl show ?thesis
    by (auto simp: handle_exception_def interrupted_def bindP_Inr_iff split: if_splits)
qed

lemma main_code:
  assumes "main x now debug verbose (Some c) w = (Inr n, w')"
  shows "(\<exists>t b. execute x t b c w = (Inr n, w')) \<or> n \<in> {1, 2, 3, 4, 5, 6, 7, 130}"
  using assms
  by (auto simp: main_def Let_def bindP_Inr_iff catchP_Inr_iff split: option.splits dest!: handle_code)

lemma execute_code:
  assumes "execute x t b c w = (Inr n, w')"
  shows "n \<in> {0, 4, 5} \<or> n = 100 \<and> (\<exists>push. c = Run False True push)"
  using assms
  by (cases c) (auto simp: run_command_def status_command_def validate_command_def repair_command_def verify_command_def
      upgrade_command_def config_command_def Let_def bindP_Inr_iff validation_code_def repair_code_def
      verification_code_def upgrade_code_def IDLE_EXIT_CODE_def split: if_splits option.splits)

lemma act_unchanged:
  assumes q: "quiet_invocation v x" and a: "act x b push s w = (Inr o', w')" "\<not> outcome_changed o'"
  shows "v w' = v w"
proof -
  note i = quiet_invocationD [OF q]
  from a obtain w1 t w2 w3 w4 where
    l: "(if de_commits (sn_decision s) \<noteq> []
       then log_info x b (''Timestamping '' @ nat_str (length (de_commits (sn_decision s))) @ '' commit(s)'')
       else ret ()) w = (Inr (), w1)" and
    o': "run_timestamping (cc_locks x) (context_of_run x s t) w1 = (Inr o', w2)" and
    s: "say x (outcome_lines o') w2 = (Inr (), w3)" and f: "log_info x b ''Operations complete'' w3 = (Inr (), w')"
    by (auto simp: act_def orchestrate_def bindP_Inr_iff)
  have "keeps v (if de_commits (sn_decision s) \<noteq> []
       then log_info x b (''Timestamping '' @ nat_str (length (de_commits (sn_decision s))) @ '' commit(s)'')
       else ret ())"
    by (intro keeps_intros i)
  from this l have "v w1 = v w" by (rule keepsD)
  moreover have "v w2 = v w1"
    by (rule run_unchanged [OF _ i(2) o' a(2)]) (simp add: context_of_run_def i)
  moreover have "v w3 = v w2" by (rule keepsD [OF i(3) s])
  moreover have "v w' = v w3" by (rule keepsD [OF i(5) f])
  ultimately show ?thesis by simp
qed

lemma run_command_idle:
  assumes q: "quiet_invocation v x" and out: "\<And>args inp. keeps v (run_git (cc_host x) (''git'' # ''fetch'' # args) inp)"
    and r: "run_command x t False b True push w = (Inr 100, w')"
  shows "v w' = v w"
proof -
  note i = quiet_invocationD [OF q]
  from r obtain w1 layout w2 cfg w3 o' where
    s1: "log_info x b ''Inspecting repository state'' w = (Inr (), w1)" and
    s2: "cli_locate_repository x w1 = (Inr layout, w2)" and
    s3: "assemble_config (cc_host x) (cc_zoneinfo x) w2 = (Inr cfg, w3)" and
    s4: "with_lock (cc_locks x) (common_git_dir layout)
       (inspect_and_act x t False b push (worktree_root layout) cfg) w3 = (Inr (Some o'), w')" and
    n: "\<not> outcome_changed o'"
    by (auto simp: run_command_def bindP_Inr_iff IDLE_EXIT_CODE_def split: option.splits if_splits)
  from s4 obtain s w4 s' where
    b: "inspect_and_act x t False b push (worktree_root layout) cfg (set_locks (cc_locks x) s w3) = (Inr (Some o'), w4)"
    and w': "w' = set_locks (cc_locks x) s' w4"
    by (auto simp: with_lock_Inr_iff)
  have "v w4 = v (set_locks (cc_locks x) s w3)"
  proof -
    from b obtain f u1 sn u2 u3 u4 u5 where
      "maybe_fetch_before_run (cc_host x) (gc_source_ref (cf_git cfg)) (gc_fetch_before_run (cf_git cfg))
         (set_locks (cc_locks x) s w3) = (Inr f, u1)"
      "build_snapshot (cc_host x) (worktree_root layout) cfg t u1 = (Inr sn, u2)"
      "assert_committable_state (cc_host x) (worktree_root layout) (pr_commit (cf_proof cfg)) u2 = (Inr (), u3)"
      "log_info x b (''Policy decision: '' @ (if sorted_set (de_triggers (sn_decision sn)) = [] then ''no action''
         else join_with '', '' (sorted_set (de_triggers (sn_decision sn))))) u3 = (Inr (), u4)"
      "say x (decision_lines sn) u4 = (Inr (), u5)" "act x b push sn u5 = (Inr o', w4)"
      by (auto simp: inspect_and_act_def Let_def bindP_Inr_iff)
    then show ?thesis
      using keepsD [OF fetch_keeps [OF i(1) out]] keepsD [OF build_snapshot_keeps [OF i(1)]]
        keepsD [OF quiet_source_ref(2) [OF i(1)]] keepsD [OF i(5)] keepsD [OF i(3)] act_unchanged [OF q _ n]
      by metis
  qed
  then show ?thesis
    using keepsD [OF i(5) s1] keepsD [OF i(6) s2] keepsD [OF quiet_config(2) [OF i(1)] s3] i(2) w' by simp
qed

text \<open>
  C8: the idle exit code of \<open>run --exit-code\<close> can be trusted. The code 100 comes from no other command,
  from no error and from no dry run, and it means that nothing was changed: whatever reading,
  \<open>git fetch\<close>, the output and the lock leave alone is as it was, nothing was submitted, stored,
  committed, tagged or pushed.
\<close>

theorem idle_exit_changes_nothing:
  assumes q: "quiet_invocation v x" and out: "\<And>args inp. keeps v (run_git (cc_host x) (''git'' # ''fetch'' # args) inp)"
    and r: "main x now debug verbose (Some c) w = (Inr 100, w')"
  shows "v w' = v w \<and> (\<exists>push. c = Run False True push)"
proof -
  obtain t b where e: "execute x t b c w = (Inr 100, w')" using main_code [OF r] by auto
  then obtain push where c: "c = Run False True push" using execute_code [OF e] by auto
  with e have "run_command x t False b True push w = (Inr 100, w')" by simp
  then show ?thesis using run_command_idle [OF q out] c by auto
qed

lemma idle_main:
  "case main idle_context None False False (Some (Run False True False)) [(''/r/a'', RegularFile [1])] of
     (Inr n, _) \<Rightarrow> n = 100 | _ \<Rightarrow> False"
  by code_simp

lemma idle_exit_changes_nothing_witness:
  "main idle_context None False False (Some (Run False True False)) [(''/r/a'', RegularFile [1])] =
     (Inr 100, [(''/r/a'', RegularFile [1])])"
proof -
  obtain w where m: "main idle_context None False False (Some (Run False True False)) [(''/r/a'', RegularFile [1])] =
      (Inr 100, w)"
    using idle_main by (auto split: prod.splits sum.splits)
  with idle_exit_changes_nothing [of "\<lambda>w. w", OF idle_context_quiet m] show ?thesis by simp
qed

section \<open>Verifying\<close>

text \<open>
  C21: a \<open>git-ots verify\<close> that exits with 0 has confirmed every proof it found. With the configuration
  the repository has and the directories of \<open>--proof-dir\<close>, the results of \<open>verify_proofs\<close> are what it
  printed, and each is \<open>verified\<close>, for a commit that exists in the repository: the stored proof, as it was when
  the command started, binds that commit, and the client that the configuration names confirmed exactly these
  bytes. Used of the outside: neither Git's reading commands nor the output nor the client change the
  files in question, those of \<open>P\<close>.
\<close>

theorem verify_success_confirms:
  assumes h: "lawful_store (cc_host x)" "quiet_invocation (files_in (cc_host x) P) x"
      "quiet_outside (files_in (cc_host x) P) x (Verify proof_dir)"
    and r: "main x now debug verbose (Some (Verify proof_dir)) w = (Inr 0, w')"
  shows "\<exists>layout cfg ds rs w1 w2. opened x w = (Inr (layout, cfg), w1) \<and> chosen_directories proof_dir = Inr ds \<and>
    verify_proofs (cc_host x) (verify (cc_host x) (client_of x cfg)) (worktree_root layout) (cf_git cfg) ds w1 = (Inr rs, w2) \<and>
    say x (if rs = [] then [''No stored proofs found; nothing was verified.''] else map verification_line rs) w2 = (Inr (), w') \<and>
    (\<forall>r \<in> set rs. vf_state r = VERIFIED \<and> vf_validation_state r \<notin> {INVALID, UNKNOWN_SOURCE} \<and>
       (\<exists>layout2 u u' b. locate_repository (cc_host x) (worktree_root layout) u = (Inr layout2, u') \<and>
          confirmed_by (cc_host x) (client_of x cfg) b (vf_source_commit_id r) \<and>
          (P (path_join (worktree_root layout2) (vf_proof_path r)) \<longrightarrow>
             file_content (path_join (worktree_root layout2) (vf_proof_path r)) (store_of (cc_host x) w) = Some b)))"
proof -
  note i = quiet_invocationD [OF h(2)]
  obtain t b where "execute x t b (Verify proof_dir) w = (Inr 0, w')" using main_code [OF r] by auto
  then have "verify_command x proof_dir w = (Inr 0, w')" by simp
  then obtain layout cfg ds rs w1 w2 where o: "opened x w = (Inr (layout, cfg), w1)" "chosen_directories proof_dir = Inr ds"
    and v: "verify_proofs (cc_host x) (verify (cc_host x) (client_of x cfg)) (worktree_root layout) (cf_git cfg) ds w1 = (Inr rs, w2)"
    and s: "say x (if rs = [] then [''No stored proofs found; nothing was verified.''] else map verification_line rs) w2 = (Inr (), w')"
    and c: "rs = [] \<or> verification_code rs = 0"
    by (auto simp: verify_command_def bindP_Inr_iff split: if_splits)
  have w1: "files_in (cc_host x) P w1 = files_in (cc_host x) P w" by (rule keepsD [OF i(7) o(1)])
  have client: "keeps (files_in (cc_host x) P) (verify (cc_host x) (client_of x cfg) b m)" for b m
    using h(3) by simp
  have "vf_state r = VERIFIED \<and> vf_validation_state r \<notin> {INVALID, UNKNOWN_SOURCE} \<and>
       (\<exists>layout2 u u' b. locate_repository (cc_host x) (worktree_root layout) u = (Inr layout2, u') \<and>
          confirmed_by (cc_host x) (client_of x cfg) b (vf_source_commit_id r) \<and>
          (P (path_join (worktree_root layout2) (vf_proof_path r)) \<longrightarrow>
             file_content (path_join (worktree_root layout2) (vf_proof_path r)) (store_of (cc_host x) w) = Some b))"
    if "r \<in> set rs" for r
  proof -
    have "vf_state r = VERIFIED \<and> vf_validation_state r \<notin> {INVALID, UNKNOWN_SOURCE}"
      using c that by (auto simp: verification_code_def list_ex_iff split: if_splits)
    with verified_means_confirmed [OF h(1) i(1) client v that] w1 show ?thesis
      by (metis files_in_eq_iff)
  qed
  with o v s show ?thesis by blast
qed

definition verifying_context :: "file_store cli_context" where
  "verifying_context = idle_context\<lparr>cc_client := confirming_client\<lparr>join_worker := (\<lambda>_ w. (Some (Inr (0, [], [])), w))\<rparr>,
     cc_host := example_validation_host\<lparr>run_git := (\<lambda>av _ w.
       (Inr (if take 1 (tl av) = [''config''] then (1, [], []) else (0, ''/repo'', [])), w))\<rparr>\<rparr>"

lemma verifying_main:
  "case main verifying_context None False False (Some (Verify (Some ''proofs''))) example_validation_files of
     (Inr n, _) \<Rightarrow> n = 0 | _ \<Rightarrow> False"
  by code_simp

lemma verifying_context_quiet:
  "lawful_store (cc_host verifying_context)"
  "quiet_invocation (files_in (cc_host verifying_context) P) verifying_context"
  "quiet_outside (files_in (cc_host verifying_context) (\<lambda>p. str_startswith p ''/repo/'')) verifying_context (Verify d)"
proof -
  show l: "lawful_store (cc_host verifying_context)"
    using file_host_lawful
    by (simp add: verifying_context_def example_validation_host_def zero_host_def lawful_store_def)
  show "quiet_invocation (files_in (cc_host verifying_context) P) verifying_context"
    by (simp add: quiet_invocation_def quiet_reads_def keeps_def verifying_context_def idle_context_def
        example_validation_host_def zero_host_def file_host_def example_locks_def)
  show "quiet_outside (files_in (cc_host verifying_context) (\<lambda>p. str_startswith p ''/repo/'')) verifying_context (Verify d)"
    unfolding quiet_outside.simps
    by (intro allI temp_dir_only [OF l])
      (use outside_repo in \<open>auto simp: client_of_def verifying_context_def idle_context_def confirming_client_def
        idle_client_def\<close>)
qed

lemma verify_success_confirms_witness:
  "\<exists>cfg rs w1 w2. verify_proofs (cc_host verifying_context) (verify (cc_host verifying_context)
     (client_of verifying_context cfg)) ''/repo'' (cf_git cfg) (Some [''proofs'']) w1 = (Inr rs, w2) \<and>
     (\<forall>r \<in> set rs. vf_state r = VERIFIED \<and>
        (\<exists>b. confirmed_by (cc_host verifying_context) (client_of verifying_context cfg) b (vf_source_commit_id r)))"
proof -
  obtain w where m: "main verifying_context None False False (Some (Verify (Some ''proofs''))) example_validation_files = (Inr 0, w)"
    using verifying_main by (auto split: prod.splits sum.splits)
  have "case opened verifying_context example_validation_files of (Inr (layout, _), _) \<Rightarrow> worktree_root layout = ''/repo'' | _ \<Rightarrow> False"
    and d: "chosen_directories (Some ''proofs'') = Inr (Some [''proofs''])" by code_simp+
  then have "worktree_root layout = ''/repo''"
    if "opened verifying_context example_validation_files = (Inr (layout, cfg), w1)" for layout cfg w1
    using that by simp
  with verify_success_confirms [OF verifying_context_quiet m] d show ?thesis
    by (metis (no_types, lifting) sum.inject(2))
qed

end
