(* ===== verification/ReportFacts.thy ===== *)
theory ReportFacts
  imports CliReport
begin

text \<open>
  The values \<open>git-ots config\<close> prints are ones its parsers accept: what is copied from the report into
  \<open>git config\<close> has the same effect.
\<close>

section \<open>Numbers\<close>

lemma digit_of_char: "n < 10 \<Longrightarrow> is_digit (char_of (48 + n)) \<and> digit_val (char_of (48 + n)) = n"
  by (simp add: is_digit_def digit_val_def)

lemma digits_nat_append [simp]: "digits_nat (s @ [c]) = 10 * digits_nat s + digit_val c"
  by (simp add: digits_nat_def)

lemma digits_nat_str: "digits_nat (nat_str n) = n"
proof (induction n rule: nat_str.induct)
  case (1 n)
  show ?case
  proof (cases "n < 10")
    case True
    then show ?thesis using digit_of_char [of n] by (simp add: nat_str.simps [of n] digits_nat_def)
  next
    case False
    then show ?thesis using 1 digit_of_char [of "n mod 10"] by (subst nat_str.simps) simp
  qed
qed

lemma nat_str_length: "n < 10 ^ k \<Longrightarrow> 0 < k \<Longrightarrow> length (nat_str n) \<le> k"
proof (induction k arbitrary: n)
  case (Suc k)
  show ?case
  proof (cases "n < 10")
    case False
    then have "n div 10 < 10 ^ k" "0 < k" using Suc.prems by (auto intro!: gr0I simp: less_mult_imp_div_less)
    with Suc.IH False show ?thesis by (subst nat_str.simps) simp
  qed (simp add: nat_str.simps [of n])
qed simp

section \<open>Durations and times\<close>

lemma unit_not_digit: "unit_length c = Some u \<Longrightarrow> \<not> is_digit c \<and> c \<noteq> newline \<and> 0 < u"
  by (auto simp: unit_length_def is_digit_def newline_def microseconds_def hours_def split: if_splits)

lemma parse_printed_duration:
  assumes "unit_length c = Some u" "0 < n" "int n * u div hours 24 \<le> max_days"
  shows "parse_duration (nat_str n @ [c]) = Inr (int n * u)"
proof -
  note c = unit_not_digit [OF assms(1)]
  have u: "microseconds \<le> u" using assms(1) by (auto simp: unit_length_def microseconds_def hours_def split: if_splits)
  then have "int n * microseconds \<le> int n * u" by (simp add: mult_left_mono)
  also have "int n * u < (max_days + 1) * hours 24"
    using assms(3) by (simp add: hours_def microseconds_def max_days_def)
  finally have "n < 10 ^ 14" by (simp add: hours_def microseconds_def max_days_def)
  then have l: "length (nat_str n) \<le> 14" by (rule nat_str_length) simp
  have d: "\<And>x. x \<in> set (nat_str n) \<Longrightarrow> is_digit x" by (rule nat_str_digits)
  have "without_end_newline (nat_str n @ [c]) = nat_str n @ [c]" using c by (simp add: without_end_newline_def)
  moreover have "takeWhile is_digit (nat_str n @ [c]) = nat_str n"
    using c d by (simp add: takeWhile_append2)
  moreover have "dropWhile is_digit (nat_str n @ [c]) = [c]"
    using c d by (simp add: dropWhile_append2)
  ultimately show ?thesis
    using assms l nat_str_nonempty [of n] by (simp add: parse_duration_def Let_def digits_nat_str max_int_digits_def)
qed

lemma format_duration_cases:
  assumes "0 < k" "d = k * microseconds" "d div hours 24 \<le> max_days"
  shows "\<exists>n c u. 0 < n \<and> unit_length c = Some u \<and> int n * u = d \<and> format_config_duration d = nat_str n @ [c]"
proof -
  have w: "whole_seconds d = k" using assms by (simp add: whole_seconds_def microseconds_def)
  have "\<exists>n c u. 0 < n \<and> unit_length c = Some u \<and> int n * u = d \<and> int_str (k div m) @ [c0] = nat_str n @ [c]"
    if "k mod m = 0" "0 < m" "unit_length c0 = Some (m * microseconds)" for m c0
  proof -
    have k: "k div m * m = k" using that(1) by auto
    then have "k div m \<noteq> 0" using assms(1) by auto
    moreover have "0 \<le> k div m" using assms(1) that(2) by (simp add: pos_imp_zdiv_nonneg_iff)
    ultimately have p: "0 < k div m" by simp
    have "int (nat (k div m)) * (m * microseconds) = d" using k p assms(2) by (simp flip: mult.assoc)
    with p that(3) show ?thesis by (intro exI [of _ "nat (k div m)"] exI [of _ c0]) (simp add: int_str_def)
  qed
  note u = this [of 86400 "CHR ''d''"] this [of 3600 "CHR ''h''"] this [of 60 "CHR ''m''"] this [of 1 "CHR ''s''"]
  show ?thesis
    using assms(1) u by (auto simp: format_config_duration_def w Let_def unit_length_def hours_def microseconds_def)
qed

lemma parsed_duration:
  assumes "parse_duration s = Inr d"
  shows "(\<exists>k > 0. d = k * microseconds) \<and> d div hours 24 \<le> max_days"
proof -
  from assms obtain n u c where d: "d = int n * u" "unit_length c = Some u" "n \<noteq> 0" "\<not> max_days < int n * u div hours 24"
    by (auto simp: parse_duration_def Let_def split: option.splits list.splits if_splits)
  then have "\<exists>m > 0. u = m * microseconds"
    by (auto simp: unit_length_def hours_def microseconds_def split: if_splits)
  then obtain m where "0 < m" "u = m * microseconds" by blast
  with d show ?thesis by (intro conjI exI [of _ "int n * m"]) simp_all
qed

lemma pad2_digits:
  "k < 60 \<Longrightarrow> \<exists>a b. pad2 (int k) = [a, b] \<and> is_digit a \<and> is_digit b \<and> digits_nat [a, b] = k"
proof -
  have "list_all (\<lambda>k. case pad2 (int k) of [a, b] \<Rightarrow> is_digit a \<and> is_digit b \<and> digits_nat [a, b] = k | _ \<Rightarrow> False) [0..<60]"
    by code_simp
  then have "case pad2 (int k) of [a, b] \<Rightarrow> is_digit a \<and> is_digit b \<and> digits_nat [a, b] = k | _ \<Rightarrow> False" if "k < 60"
    using that unfolding list_all_iff by simp
  then show "k < 60 \<Longrightarrow> ?thesis" by (auto split: list.splits)
qed

lemma parse_printed_time:
  assumes "h < 24" "m < 60"
  shows "parse_fixed_time (clock_text (hours (int h) + int m * 60 * microseconds)) = Inr (hours (int h) + int m * 60 * microseconds)"
proof -
  let ?t = "hours (int h) + int m * 60 * microseconds"
  have "?t div hours 1 = int h" "?t mod hours 1 div (60 * microseconds) = int m"
    using assms by (simp_all add: hours_def microseconds_def)
  moreover obtain a b where h: "pad2 (int h) = [a, b]" "is_digit a" "is_digit b" "digits_nat [a, b] = h"
    using pad2_digits [of h] assms(1) by auto
  moreover obtain c d where m: "pad2 (int m) = [c, d]" "is_digit c" "is_digit d" "digits_nat [c, d] = m"
    using pad2_digits [of m] assms(2) by auto
  ultimately have ab: "clock_text ?t = [a, b, CHR '':'', c, d]" by (simp add: clock_text_def)
  have "d \<noteq> newline" using m(3) by (auto simp: newline_def is_digit_def)
  with ab h m assms show ?thesis
    by (simp add: parse_fixed_time_def without_end_newline_def Let_def)
qed

lemma parsed_time:
  assumes "parse_fixed_time s = Inr t"
  shows "\<exists>h m. h < 24 \<and> m < 60 \<and> t = hours (int h) + int m * 60 * microseconds"
proof -
  from assms obtain h m where "\<not> 23 < h" "\<not> 59 < m" "t = hours (int h) + int m * 60 * microseconds"
    by (auto simp: parse_fixed_time_def Let_def split: list.splits if_splits)
  then show ?thesis by (intro exI [of _ h] exI [of _ m]) auto
qed

text \<open>
  C39: what \<open>git-ots config\<close> prints for a duration or a time of day is an accepted spelling of the very
  same value, whichever spelling the operator had used.
\<close>

theorem reported_values_parse:
  assumes "parse_duration s = Inr d" "parse_fixed_time s' = Inr t"
  shows "parse_duration (format_config_value limits (FDuration d)) = Inr d \<and>
    parse_fixed_time (format_config_value limits (FTime t)) = Inr t"
proof
  obtain k where k: "0 < k" "d = k * microseconds" "d div hours 24 \<le> max_days"
    using parsed_duration [OF assms(1)] by blast
  with format_duration_cases [OF k] show "parse_duration (format_config_value limits (FDuration d)) = Inr d"
    by (auto dest: parse_printed_duration)
  from parsed_time [OF assms(2)] show "parse_fixed_time (format_config_value limits (FTime t)) = Inr t"
    by (auto simp: parse_printed_time)
qed

lemma reported_values_parse_witness:
  "parse_duration (format_config_value False (FDuration (5400 * microseconds))) = Inr (5400 * microseconds) \<and>
   parse_fixed_time (format_config_value False (FTime (hours 7 + 300 * microseconds))) = Inr (hours 7 + 300 * microseconds)"
proof (rule reported_values_parse)
  show "parse_duration ''5400s'' = Inr (5400 * microseconds)" by code_simp
  show "parse_fixed_time ''07:05'' = Inr (hours 7 + 300 * microseconds)" by code_simp
qed

end
