(* ===== verification/UpgradeResults.thy ===== *)
theory UpgradeResults
  imports UpgradePass
begin

text \<open>
  What the results of an upgrade pass of \<open>upgrade.py\<close> say of the files: the loop over the
  stored proofs as a whole, with the upgrades an earlier pass left uncommitted.
\<close>

section \<open>The scan\<close>

definition claims_own_name :: "'w host \<Rightarrow> path \<Rightarrow> 'w \<Rightarrow> bool" where
  "claims_own_name h dir w \<longleftrightarrow> (\<forall>s raw j cid.
     file_content (path_join dir (s @ ''.json'')) (store_of h w) = Some raw \<longrightarrow>
     json_loads h (bytes_text raw) = Some j \<longrightarrow> manifest_source j = Some cid \<longrightarrow> cid = s)"

text \<open>A candidate as the scan of the files of \<open>w\<close> makes it.\<close>

definition scanned_from :: "'w host \<Rightarrow> path \<Rightarrow> string \<Rightarrow> string \<Rightarrow> 'w \<Rightarrow> candidate \<Rightarrow> bool" where
  "scanned_from h root d fmt w ca \<longleftrightarrow>
     ca_proof_rel ca = path_join d (ca_source_commit_id ca @ ''.ots'') \<and>
     file_content (path_join root (ca_proof_rel ca)) (store_of h w) = Some (ca_proof_bytes ca) \<and>
     build_payload fmt (ca_source_commit_id ca) = Inr (ca_payload ca) \<and>
     validate_detached_proof (digest h) (ca_proof_bytes ca) (Some (ca_payload ca)) = Inr ()"

text \<open>HEAD has other bytes of the proof at \<open>rel\<close>, and these bytes add to them.\<close>

definition left_uncommitted :: "'w host \<Rightarrow> path \<Rightarrow> bytes \<Rightarrow> bytes \<Rightarrow> bool" where
  "left_uncommitted h rel b payload \<longleftrightarrow>
     (\<exists>old u u'. read_tree_bytes h ''HEAD'' rel u = (Inr (Some old), u') \<and> old \<noteq> b \<and>
        is_additive_upgrade (digest h) old b payload = Inr True)"

lemma length_ots: "length ''.ots'' = 4"
  by simp

lemma proof_name_stem: "is_proof_name n \<Longrightarrow> stem n @ ''.ots'' = n"
  unfolding is_proof_name_def stem_def str_endswith_def by (metis append_take_drop_id length_ots)

lemma classified:
  assumes r: "classify_stored_proof h root d n fmt w = (Inr sp, w')" and n: "is_proof_name n"
    and own: "claims_own_name h (path_join root d) w"
  shows "case sp of
      Settled r \<Rightarrow> ur_proof_path r = path_join d n \<and> ur_state r = SKIPPED
    | Open ca \<Rightarrow> ca_source_commit_id ca = stem n \<and> scanned_from h root d fmt w ca"
proof -
  let ?p = "path_join (path_join root d) (stem n @ ''.json'')"
  let ?j = "case file_content ?p (store_of h w) of None \<Rightarrow> None
     | Some raw \<Rightarrow> if utf8_valid raw then json_loads h (bytes_text raw) else None"
  note e = proof_name_stem [OF n]
  note run = r [unfolded classify_stored_proof_def Let_def]
  show ?thesis
  proof (cases "is_file ?p (store_of h w) \<and> ?j \<noteq> None \<and> manifest_source (the ?j) \<noteq> None")
    case False
    with run show ?thesis
      by (cases ?j) (auto simp: bindP_def read_json_eq skipped_def split: option.splits if_splits)
  next
    case True
    then obtain j cid where j: "?j = Some j" and cid: "manifest_source j = Some cid" by auto
    then have "cid = stem n"
      using own unfolding claims_own_name_def by (auto split: option.splits if_splits)
    with run True j cid obtain res w1 where
      c: "catchP (bindP (liftE (build_payload fmt (stem n))) (\<lambda>payload.
          bindP (read_file h (path_join root (path_join d n))) (\<lambda>proof.
          bindP (liftE (validate_detached_proof (digest h) proof (Some payload))) (\<lambda>_.
          bindP (liftE (classify_detached_proof proof)) (\<lambda>state. ret (Some (payload, proof, state)))))))
        (\<lambda>e. is_OSError e \<or> is_ValueError e) (\<lambda>_. ret None) w = (Inr res, w1)" and
      k: "(case res of None \<Rightarrow> ret (skipped (path_join d n) (stem n) ''proof does not bind to source commit'')
        | Some (payload, proof, state) \<Rightarrow>
            bindP (liftE (describe_anchors (digest h) (ripemd h) proof)) (\<lambda>described.
            ret (Open \<lparr>ca_proof_rel = path_join d n, ca_source_commit_id = stem n, ca_payload = payload,
              ca_proof_bytes = proof, ca_promised_calendars = length (promised_calendars described),
              ca_anchored = (state = ''valid'')\<rparr>))) w1 = (Inr sp, w')"
      by (auto simp: bindP_Inr_iff read_json_eq)
    show ?thesis
    proof (cases res)
      case None
      with k show ?thesis by (auto simp: skipped_def)
    next
      case (Some x)
      obtain payload b a where x: "x = (payload, b, a)" by (cases x)
      with c Some have "build_payload fmt (stem n) = Inr payload"
        "file_content (path_join root (path_join d n)) (store_of h w) = Some b"
        "validate_detached_proof (digest h) b (Some payload) = Inr ()"
        by (auto simp: catchP_Inr_iff bindP_Inr_iff read_file_def read_bytes_def split: option.splits)
      with k Some x show ?thesis by (auto simp: bindP_Inr_iff scanned_from_def e)
    qed
  qed
qed

text \<open>What the scan has found after the names \<open>ns\<close>.\<close>

definition scan_inv :: "'w host \<Rightarrow> upgrade_config \<Rightarrow> path \<Rightarrow> string \<Rightarrow> 'w \<Rightarrow> string set \<Rightarrow> scanned \<Rightarrow> bool" where
  "scan_inv h cfg root fmt w ns sc \<longleftrightarrow>
     (let rels = map ur_proof_path (sc_results sc) @ map ca_proof_rel (sc_candidates sc) in
      distinct rels \<and> set rels \<subseteq> path_join (uc_proof_directory cfg) ` ns) \<and>
     (\<forall>r \<in> set (sc_results sc). ur_state r = SKIPPED) \<and>
     (\<forall>ca \<in> set (sc_candidates sc). scanned_from h root (uc_proof_directory cfg) fmt w ca) \<and>
     (\<forall>cid \<in> set (sc_recovered sc). uc_commit cfg \<and> (\<exists>ca \<in> set (sc_candidates sc). ca_source_commit_id ca = cid \<and>
        left_uncommitted h (ca_proof_rel ca) (ca_proof_bytes ca) (ca_payload ca)))"

lemma path_join_inj: "path_join d a = path_join d b \<longleftrightarrow> a = b"
  by (simp add: path_join_def)

lemma scan_inv_result:
  assumes "scan_inv h cfg root fmt w ns sc" "n \<notin> ns" "ur_proof_path r = path_join (uc_proof_directory cfg) n"
    "ur_state r = SKIPPED"
  shows "scan_inv h cfg root fmt w (insert n ns) (sc\<lparr>sc_results := sc_results sc @ [r]\<rparr>)"
  using assms by (auto simp: scan_inv_def Let_def path_join_inj)

lemma scan_inv_candidate:
  assumes "scan_inv h cfg root fmt w ns sc" "n \<notin> ns" "ca_proof_rel ca = path_join (uc_proof_directory cfg) n"
    "scanned_from h root (uc_proof_directory cfg) fmt w ca"
  shows "scan_inv h cfg root fmt w (insert n ns) (sc\<lparr>sc_candidates := sc_candidates sc @ [ca]\<rparr>)"
    and "uc_commit cfg \<Longrightarrow> left_uncommitted h (ca_proof_rel ca) (ca_proof_bytes ca) (ca_payload ca) \<Longrightarrow>
      scan_inv h cfg root fmt w (insert n ns) (sc\<lparr>sc_recovered := ca_source_commit_id ca # sc_recovered sc,
        sc_candidates := sc_candidates sc @ [ca]\<rparr>)"
  using assms by (auto simp: scan_inv_def Let_def path_join_inj)

lemma scan_inv_mono: "scan_inv h cfg root fmt w ns sc \<Longrightarrow> ns \<subseteq> ms \<Longrightarrow> scan_inv h cfg root fmt w ms sc"
  unfolding scan_inv_def Let_def by (meson image_mono subset_trans)

lemma same_dir:
  assumes "files_in h P w = files_in h P u" "\<And>n. P (path_join (path_join root d) n)"
  shows "file_content (path_join (path_join root d) n) (store_of h w) = file_content (path_join (path_join root d) n) (store_of h u)"
  using assms by (simp add: files_in_eq_iff)

lemma scanned_from_same:
  assumes "files_in h P w = files_in h P u" "\<And>n. P (path_join (path_join root d) n)"
  shows "claims_own_name h (path_join root d) w = claims_own_name h (path_join root d) u"
    and "scanned_from h root d fmt w ca = scanned_from h root d fmt u ca"
proof -
  note e = same_dir [OF assms]
  show "claims_own_name h (path_join root d) w = claims_own_name h (path_join root d) u"
    unfolding claims_own_name_def e ..
  have "path_join root (path_join d n) = path_join (path_join root d) n" for n by (simp add: path_join_def)
  then show "scanned_from h root d fmt w ca = scanned_from h root d fmt u ca"
    unfolding scanned_from_def using e by metis
qed

lemma scan_one_inv:
  assumes i: "scan_inv h cfg root fmt w0 ns sc" and n: "n \<notin> ns"
    and s: "scan_one h cfg root fmt n sc w = (Inr sc', w')"
    and f: "files_in h P w = files_in h P w0" "\<And>n. P (path_join (path_join root (uc_proof_directory cfg)) n)"
    and own: "claims_own_name h (path_join root (uc_proof_directory cfg)) w0"
  shows "scan_inv h cfg root fmt w0 (insert n ns) sc'"
proof (cases "is_file (path_join (path_join root (uc_proof_directory cfg)) n) (store_of h w) \<and> is_proof_name n")
  case False
  with s have "sc' = sc" by (auto simp: scan_one_def bindP_Inr_iff split: if_splits)
  with i show ?thesis by (auto intro: scan_inv_mono)
next
  case True
  with s obtain sp w1 where c: "classify_stored_proof h root (uc_proof_directory cfg) n fmt w = (Inr sp, w1)" and
    k: "(case sp of Settled r \<Rightarrow> ret (sc\<lparr>sc_results := sc_results sc @ [r]\<rparr>)
         | Open ca \<Rightarrow>
             bindP (read_tree_bytes h ''HEAD'' (ca_proof_rel ca)) (\<lambda>committed.
             case committed of
               Some old \<Rightarrow>
                 if uc_commit cfg \<and> old \<noteq> ca_proof_bytes ca then
                   bindP (liftE (is_additive_upgrade (digest h) old (ca_proof_bytes ca) (ca_payload ca))) (\<lambda>additive.
                   if \<not> additive then
                     bindP (liftE (describe_anchors (digest h) (ripemd h) (ca_proof_bytes ca))) (\<lambda>described.
                     ret (sc\<lparr>sc_results := sc_results sc @ [\<lparr>ur_proof_path = ca_proof_rel ca,
                        ur_source_commit_id = ca_source_commit_id ca, ur_state = SKIPPED,
                        ur_reason = ''worktree proof differs from HEAD but is not an additive upgrade; left untouched'',
                        ur_anchored_calendars = length (anchoring_calendars described),
                        ur_promised_calendars = ca_promised_calendars ca\<rparr>]\<rparr>))
                   else ret (sc\<lparr>sc_recovered := ca_source_commit_id ca # sc_recovered sc,
                          sc_candidates := sc_candidates sc @ [ca]\<rparr>))
                 else ret (sc\<lparr>sc_candidates := sc_candidates sc @ [ca]\<rparr>)
             | None \<Rightarrow> ret (sc\<lparr>sc_candidates := sc_candidates sc @ [ca]\<rparr>))) w1 = (Inr sc', w')"
    unfolding scan_one_def by (auto simp: bindP_Inr_iff)
  note cl = classified [OF c conjunct2 [OF True] own [folded scanned_from_same(1) [OF f]]]
  show ?thesis
  proof (cases sp)
    case (Settled r)
    with k cl scan_inv_result [OF i n] show ?thesis by auto
  next
    case (Open ca)
    with cl have sf: "scanned_from h root (uc_proof_directory cfg) fmt w0 ca"
      and rel: "ca_proof_rel ca = path_join (uc_proof_directory cfg) n"
      using scanned_from_same(2) [OF f] proof_name_stem [OF conjunct2 [OF True]] by (auto simp: scanned_from_def)
    from k Open obtain committed w2 where
      t: "read_tree_bytes h ''HEAD'' (ca_proof_rel ca) w1 = (Inr committed, w2)" by (auto simp: bindP_Inr_iff)
    note [simp] = scan_inv_candidate [OF i n rel sf] scan_inv_result [OF i n] rel
    show ?thesis
    proof (cases "\<exists>old. committed = Some old \<and> uc_commit cfg \<and> old \<noteq> ca_proof_bytes ca")
      case False
      with k Open t show ?thesis by (auto simp: bindP_Inr_iff split: option.splits if_splits)
    next
      case True
      then obtain old where old: "committed = Some old" "old \<noteq> ca_proof_bytes ca" by blast
      have "left_uncommitted h (ca_proof_rel ca) (ca_proof_bytes ca) (ca_payload ca)"
        if "is_additive_upgrade (digest h) old (ca_proof_bytes ca) (ca_payload ca) = Inr True"
        using t old that unfolding left_uncommitted_def by blast
      with k Open t True old show ?thesis by (auto simp: bindP_Inr_iff split: if_splits)
    qed
  qed
qed

lemma scan_inv_fold:
  assumes q: "quiet_reads (files_in h P) h" and P: "\<And>n. P (path_join (path_join root (uc_proof_directory cfg)) n)"
    and own: "claims_own_name h (path_join root (uc_proof_directory cfg)) w0"
  shows "foldP (scan_one h cfg root fmt) names sc w = (Inr sc', w') \<Longrightarrow> distinct names \<Longrightarrow> set names \<inter> ns = {} \<Longrightarrow>
    scan_inv h cfg root fmt w0 ns sc \<Longrightarrow> files_in h P w = files_in h P w0 \<Longrightarrow>
    scan_inv h cfg root fmt w0 (set names \<union> ns) sc' \<and> files_in h P w' = files_in h P w0"
proof (induction names arbitrary: sc w ns)
  case (Cons n names)
  then obtain sc1 w1 where one: "scan_one h cfg root fmt n sc w = (Inr sc1, w1)"
    and rest: "foldP (scan_one h cfg root fmt) names sc1 w1 = (Inr sc', w')"
    by (auto simp: bindP_Inr_iff)
  have "scan_inv h cfg root fmt w0 (insert n ns) sc1"
    using scan_one_inv [OF Cons.prems(4) _ one Cons.prems(5) P own] Cons.prems(3) by simp
  moreover have "files_in h P w1 = files_in h P w0"
    using keepsD [OF scan_one_keeps [OF q] one] Cons.prems(5) by simp
  moreover have "set names \<inter> insert n ns = {}" "distinct names" using Cons.prems(2,3) by auto
  moreover have "set (n # names) \<union> ns = set names \<union> insert n ns" by simp
  ultimately show ?case using Cons.IH [OF rest] by metis
qed simp

section \<open>The loop over the candidates\<close>

lemma process_candidate_Inr:
  assumes o: "outside_world h L c fetch P"
    and r: "process_candidate h c fetch root d fmt ca w = (Inr r, w')"
  shows "ur_proof_path r = ca_proof_rel ca" "ur_source_commit_id r = ca_source_commit_id ca"
    and "P q \<Longrightarrow> q \<noteq> path_join (path_join root d) (ca_source_commit_id ca @ ''.ots'') \<Longrightarrow>
      file_content q (store_of h w') = file_content q (store_of h w)"
    and "if ur_state r = UPGRADED
      then \<exists>b payload. b \<noteq> ca_proof_bytes ca \<and>
        file_content (path_join (path_join root d) (ca_source_commit_id ca @ ''.ots'')) (store_of h w') = Some b \<and>
        build_payload fmt (ca_source_commit_id ca) = Inr payload \<and>
        validate_detached_proof (digest h) b (Some payload) = Inr ()
      else ur_state r \<in> {ALREADY_COMPLETE, STILL_PENDING} \<and> files_in h P w' = files_in h P w"
proof -
  let ?p = "path_join (path_join root d) (ca_source_commit_id ca @ ''.ots'')"
  from r obtain q1 rs det w1 mg col ns w2 where
    u: "upgrade_pending h c ca w = (Inr (q1, rs, det), w1)" and
    k: "collect_from_calendars h fetch q1 (ca_payload ca) w1 = (Inr (mg, col, ns), w2)"
    by (auto simp: process_candidate_def bindP_Inr_iff)
  let ?b = "case mg of None \<Rightarrow> q1 | Some m \<Rightarrow> m"
  have same: "files_in h P w2 = files_in h P w"
    using keepsD [OF upgrade_pending_keeps [OF o] u]
      keepsD [OF collect_keeps [OF outside_worldD(6) [OF o]] k] by simp
  show "ur_proof_path r = ca_proof_rel ca" "ur_source_commit_id r = ca_source_commit_id ca"
    using r by (auto simp: process_candidate_def bindP_Inr_iff Let_def)
  have "(P q \<longrightarrow> q \<noteq> ?p \<longrightarrow> file_content q (store_of h w') = file_content q (store_of h w)) \<and>
    (if ur_state r = UPGRADED
      then \<exists>b payload. b \<noteq> ca_proof_bytes ca \<and> file_content ?p (store_of h w') = Some b \<and>
        build_payload fmt (ca_source_commit_id ca) = Inr payload \<and>
        validate_detached_proof (digest h) b (Some payload) = Inr ()
      else ur_state r \<in> {ALREADY_COMPLETE, STILL_PENDING} \<and> files_in h P w' = files_in h P w)"
  proof (cases "?b = ca_proof_bytes ca")
    case True
    with r u k same have "w' = w2" "ur_state r \<in> {ALREADY_COMPLETE, STILL_PENDING}"
      by (auto simp: process_candidate_def bindP_Inr_iff Let_def split: if_splits)
    with same show ?thesis by (auto simp: files_in_eq_iff)
  next
    case False
    with r u k obtain p where
      "persist_upgraded_proof h root d fmt (ca_source_commit_id ca) ?b w2 = (Inr p, w')"
      and "ur_state r = UPGRADED"
      by (auto simp: process_candidate_def bindP_Inr_iff Let_def split: if_splits)
    with persist_upgraded_done [OF outside_worldD(1) [OF o]] False same show ?thesis
      by (fastforce simp: files_in_eq_iff)
  qed
  then show "P q \<Longrightarrow> q \<noteq> ?p \<Longrightarrow> file_content q (store_of h w') = file_content q (store_of h w)"
    and "if ur_state r = UPGRADED
      then \<exists>b payload. b \<noteq> ca_proof_bytes ca \<and> file_content ?p (store_of h w') = Some b \<and>
        build_payload fmt (ca_source_commit_id ca) = Inr payload \<and>
        validate_detached_proof (digest h) b (Some payload) = Inr ()
      else ur_state r \<in> {ALREADY_COMPLETE, STILL_PENDING} \<and> files_in h P w' = files_in h P w" by blast+
qed

text \<open>
  What the result \<open>r\<close> for a candidate says of the world \<open>w\<close> after the loop; \<open>rec\<close> are the sources whose
  proofs an earlier pass left uncommitted.
\<close>

definition result_of ::
    "'w host \<Rightarrow> path \<Rightarrow> string \<Rightarrow> commit_id list \<Rightarrow> 'w \<Rightarrow> candidate \<Rightarrow> upgrade_result \<Rightarrow> bool" where
  "result_of h root fmt rec w ca r \<longleftrightarrow>
     ur_proof_path r = ca_proof_rel ca \<and> ur_source_commit_id r = ca_source_commit_id ca \<and>
     (ur_state r = UPGRADED \<and> (\<exists>b. b \<noteq> ca_proof_bytes ca \<and>
          file_content (path_join root (ca_proof_rel ca)) (store_of h w) = Some b \<and>
          validate_detached_proof (digest h) b (Some (ca_payload ca)) = Inr ()) \<or>
      ur_state r \<in> {UPGRADED, ALREADY_COMPLETE, STILL_PENDING} \<and>
        (ur_state r = UPGRADED \<longleftrightarrow> ca_source_commit_id ca \<in> set rec) \<and>
        file_content (path_join root (ca_proof_rel ca)) (store_of h w) = Some (ca_proof_bytes ca))"

lemma result_of_same:
  assumes "result_of h root fmt rec w ca r"
    and "file_content (path_join root (ca_proof_rel ca)) (store_of h w') = file_content (path_join root (ca_proof_rel ca)) (store_of h w)"
  shows "result_of h root fmt rec w' ca r"
  using assms by (simp add: result_of_def)

lemma upgrade_one_result:
  assumes o: "outside_world h L c fetch P" and P: "\<And>n. P (path_join (path_join root (uc_proof_directory cfg)) n)"
    and u: "upgrade_one h c fetch cfg root fmt rec ca (rs, up) w = (Inr acc, w')"
    and s: "scanned_from h root (uc_proof_directory cfg) fmt w ca"
  shows "\<exists>r up'. acc = (rs @ [r], up') \<and> result_of h root fmt rec w' ca r \<and>
    (\<forall>q. P q \<longrightarrow> q \<noteq> path_join root (ca_proof_rel ca) \<longrightarrow> file_content q (store_of h w') = file_content q (store_of h w))"
proof -
  from u obtain r where r: "process_candidate h c fetch root (uc_proof_directory cfg) fmt ca w = (Inr r, w')"
    and acc: "acc = (if ca_source_commit_id ca \<in> set rec then
              (rs @ [if ur_state r \<noteq> UPGRADED
                 then r\<lparr>ur_state := UPGRADED, ur_reason :=
                        ''recovered an additive proof upgrade left uncommitted by an earlier invocation; '' @
                        ur_reason r\<rparr>
                 else r], up @ [ca_source_commit_id ca])
            else (rs @ [r], if ur_state r = UPGRADED then up @ [ca_source_commit_id ca] else up))"
    by (auto simp: upgrade_one_def bindP_Inr_iff Let_def split: if_splits)
  note p = process_candidate_Inr [OF o r]
  have path: "path_join (path_join root (uc_proof_directory cfg)) (ca_source_commit_id ca @ ''.ots'') = path_join root (ca_proof_rel ca)"
    using s by (simp add: scanned_from_def path_join_def)
  have "result_of h root fmt rec w' ca (if ca_source_commit_id ca \<in> set rec \<and> ur_state r \<noteq> UPGRADED
      then r\<lparr>ur_state := UPGRADED, ur_reason := t\<rparr> else r)" for t
  proof (cases "ur_state r = UPGRADED")
    case True
    with p(1,2,4) s show ?thesis by (auto simp: result_of_def path scanned_from_def)
  next
    case False
    with p(4) have "files_in h P w' = files_in h P w" "ur_state r \<in> {ALREADY_COMPLETE, STILL_PENDING}" by simp_all
    then have "file_content (path_join root (ca_proof_rel ca)) (store_of h w') = Some (ca_proof_bytes ca)"
      using s P path by (simp add: files_in_eq_iff scanned_from_def) metis
    with False p(1,2) \<open>ur_state r \<in> _\<close> show ?thesis by (auto simp: result_of_def)
  qed
  note res = this
  have "\<exists>r up'. acc = (rs @ [r], up') \<and> result_of h root fmt rec w' ca r"
    using acc res [of "''recovered an additive proof upgrade left uncommitted by an earlier invocation; '' @ ur_reason r"]
    by (auto split: if_splits)
  with p(3) show ?thesis unfolding path by blast
qed

lemma upgrade_fold_results:
  assumes o: "outside_world h L c fetch P" and P: "\<And>n. P (path_join (path_join root (uc_proof_directory cfg)) n)"
  shows "foldP (upgrade_one h c fetch cfg root fmt rec) cas (rs0, up0) w = (Inr (results, up), w') \<Longrightarrow>
    distinct (map ca_proof_rel cas) \<Longrightarrow> (\<forall>ca \<in> set cas. scanned_from h root (uc_proof_directory cfg) fmt w ca) \<Longrightarrow>
    (\<exists>rs. results = rs0 @ rs \<and> list_all2 (result_of h root fmt rec w') cas rs) \<and>
    (\<forall>q. P q \<longrightarrow> q \<notin> path_join root ` ca_proof_rel ` set cas \<longrightarrow> file_content q (store_of h w') = file_content q (store_of h w))"
proof (induction cas arbitrary: rs0 up0 w)
  case (Cons ca cas)
  then obtain acc w1 where one: "upgrade_one h c fetch cfg root fmt rec ca (rs0, up0) w = (Inr acc, w1)"
    and rest: "foldP (upgrade_one h c fetch cfg root fmt rec) cas acc w1 = (Inr (results, up), w')"
    by (auto simp: bindP_Inr_iff)
  obtain r up1 where acc: "acc = (rs0 @ [r], up1)" and r: "result_of h root fmt rec w1 ca r"
    and frame: "\<And>q. P q \<Longrightarrow> q \<noteq> path_join root (ca_proof_rel ca) \<Longrightarrow> file_content q (store_of h w1) = file_content q (store_of h w)"
    using upgrade_one_result [OF o P one] Cons.prems(3) by auto
  have covered: "P (path_join root (ca_proof_rel x))" if "scanned_from h root (uc_proof_directory cfg) fmt w x" for x
    using P [of "ca_source_commit_id x @ ''.ots''"] that by (simp add: scanned_from_def path_join_def)
  have "\<forall>x \<in> set cas. scanned_from h root (uc_proof_directory cfg) fmt w1 x"
  proof
    fix x assume x: "x \<in> set cas"
    then have "ca_proof_rel x \<noteq> ca_proof_rel ca" using Cons.prems(2) by (metis distinct.simps(2) image_eqI list.simps(9) set_map)
    then have "path_join root (ca_proof_rel x) \<noteq> path_join root (ca_proof_rel ca)"
      by (simp add: path_join_inj)
    with frame [OF covered] x Cons.prems(3)
    have "file_content (path_join root (ca_proof_rel x)) (store_of h w1) =
        file_content (path_join root (ca_proof_rel x)) (store_of h w)" by simp
    moreover have "scanned_from h root (uc_proof_directory cfg) fmt w x" using x Cons.prems(3) by simp
    ultimately show "scanned_from h root (uc_proof_directory cfg) fmt w1 x" unfolding scanned_from_def by metis
  qed
  with Cons.IH [OF rest [unfolded acc]] Cons.prems(2) obtain rs where
    rs: "results = (rs0 @ [r]) @ rs" "list_all2 (result_of h root fmt rec w') cas rs" and
    later: "\<And>q. P q \<Longrightarrow> q \<notin> path_join root ` ca_proof_rel ` set cas \<Longrightarrow>
      file_content q (store_of h w') = file_content q (store_of h w1)" by auto
  have "path_join root (ca_proof_rel ca) \<notin> path_join root ` ca_proof_rel ` set cas"
    using Cons.prems(2) by (auto simp: path_join_inj)
  with later covered Cons.prems(3) have "result_of h root fmt rec w' ca r"
    by (intro result_of_same [OF r]) simp
  with rs have "\<exists>rs. results = rs0 @ rs \<and> list_all2 (result_of h root fmt rec w') (ca # cas) rs"
    by (intro exI [of _ "r # rs"]) simp
  moreover have "file_content q (store_of h w') = file_content q (store_of h w)"
    if "P q" "q \<notin> path_join root ` ca_proof_rel ` set (ca # cas)" for q
    using later [of q] frame [of q] that by auto
  ultimately show ?case by blast
qed auto

section \<open>The pass\<close>

text \<open>
  C11: what the results of an upgrade pass say of the files. Where every manifest names the proof it stands beside,
  a proof that a pass reports as upgraded is, after the pass, a file that binds the commit in the
  report, and either its bytes are new, or an earlier pass left them uncommitted: HEAD has other bytes, to which they
  add. A proof with any other result is the file it was before.
\<close>

theorem upgraded_is_stored:
  assumes o: "outside_world h L c fetch P" and P: "\<And>n. P (path_join (path_join root (uc_proof_directory cfg)) n)"
    and own: "claims_own_name h (path_join root (uc_proof_directory cfg)) w"
    and run: "upgrade_locked h c fetch cfg False root fmt w = (Inr rep, w')" and r: "r \<in> set (up_results rep)"
  shows "let file = file_content (path_join root (ur_proof_path r)) in
    if ur_state r = UPGRADED
    then \<exists>b payload. file (store_of h w') = Some b \<and>
      ur_proof_path r = path_join (uc_proof_directory cfg) (ur_source_commit_id r @ ''.ots'') \<and>
      build_payload fmt (ur_source_commit_id r) = Inr payload \<and>
      validate_detached_proof (digest h) b (Some payload) = Inr () \<and>
      (file (store_of h w) \<noteq> Some b \<or> uc_commit cfg \<and> left_uncommitted h (ur_proof_path r) b payload)
    else ur_state r \<in> {SKIPPED, ALREADY_COMPLETE, STILL_PENDING} \<and> file (store_of h w') = file (store_of h w)"
proof -
  let ?d = "uc_proof_directory cfg" and ?v = "files_in h P"
  note q = outside_worldD(3) [OF o]
  note rd = quiet_git_reads [OF q]
  let ?check = "if uc_commit cfg then
         bindP (assert_committable_state h root True) (\<lambda>_.
         if uc_require_clean_worktree cfg then
           bindP (is_worktree_clean h) (\<lambda>clean.
           if \<not> clean then raiseP (InvalidRepositoryStateError ''worktree has uncommitted changes'')
           else ret ())
         else ret ())
       else ret ()"
  from run obtain w1 sc w2 results up w3 x where
    s1: "?check w = (Inr (), w1)" and
    s2: "foldP (scan_one h cfg root fmt) (sort (list_dir (path_join root ?d) (store_of h w1)))
      \<lparr>sc_results = [], sc_candidates = [], sc_recovered = []\<rparr> w1 = (Inr sc, w2)" and
    s3: "foldP (upgrade_one h c fetch cfg root fmt (sc_recovered sc)) (sc_candidates sc) (sc_results sc, []) w2 =
      (Inr (results, up), w3)" and
    s4: "commit_upgrades h cfg up w3 = (Inr x, w')" and rep: "up_results rep = ordered results"
    unfolding upgrade_locked_def by (auto simp: bindP_Inr_iff Let_def)
  have "keeps ?v ?check"
    by (intro keeps_intros quiet_source_ref(2) [OF rd] quiet_refs(4) [OF rd])
  from this s1 have w1: "?v w1 = ?v w" by (rule keepsD)
  have "scan_inv h cfg root fmt w {} \<lparr>sc_results = [], sc_candidates = [], sc_recovered = []\<rparr>"
    by (simp add: scan_inv_def)
  from scan_inv_fold [OF rd P own s2 _ _ this w1] have
    "scan_inv h cfg root fmt w (set (sort (list_dir (path_join root ?d) (store_of h w1))) \<union> {}) sc \<and> ?v w2 = ?v w"
    by (simp add: list_dir_def)
  then obtain ns where inv: "scan_inv h cfg root fmt w ns sc" and w2: "?v w2 = ?v w" by blast
  note inv' = inv [unfolded scan_inv_def Let_def]
  have "\<forall>ca \<in> set (sc_candidates sc). scanned_from h root ?d fmt w2 ca"
    using inv' scanned_from_same(2) [OF w2 P] by blast
  moreover have "distinct (map ca_proof_rel (sc_candidates sc))" using inv' by simp
  ultimately obtain rs where rs: "results = sc_results sc @ rs"
      "list_all2 (result_of h root fmt (sc_recovered sc) w3) (sc_candidates sc) rs"
    and frame: "\<And>q. P q \<Longrightarrow> q \<notin> path_join root ` ca_proof_rel ` set (sc_candidates sc) \<Longrightarrow>
      file_content q (store_of h w3) = file_content q (store_of h w2)"
    using upgrade_fold_results [OF o P s3] by blast
  have w': "?v w' = ?v w3" by (rule keepsD [OF commit_upgrades_keeps [OF q] s4])
  have same: "P p \<Longrightarrow> file_content p (store_of h w2) = file_content p (store_of h w)"
    "P p \<Longrightarrow> file_content p (store_of h w') = file_content p (store_of h w3)" for p
    using w2 w' by (simp_all add: files_in_eq_iff)
  have "r \<in> set (sc_results sc) \<or> r \<in> set rs" using r rep rs(1) by (auto simp: ordered_def)
  then show ?thesis
  proof
    assume r: "r \<in> set (sc_results sc)"
    then have skip: "ur_state r = SKIPPED" and "ur_proof_path r \<notin> ca_proof_rel ` set (sc_candidates sc)"
      and "ur_proof_path r \<in> path_join ?d ` ns" using inv' by auto
    moreover from this obtain n where n: "ur_proof_path r = path_join ?d n" by blast
    have "P (path_join root (ur_proof_path r))" using P [of n] by (simp add: n path_join_def)
    ultimately have "file_content (path_join root (ur_proof_path r)) (store_of h w') =
        file_content (path_join root (ur_proof_path r)) (store_of h w)"
      using frame [of "path_join root (ur_proof_path r)"] same by (auto simp: path_join_inj image_iff)
    with skip show ?thesis by (simp add: Let_def)
  next
    assume "r \<in> set rs"
    with rs(2) obtain ca where ca: "ca \<in> set (sc_candidates sc)"
      and res: "result_of h root fmt (sc_recovered sc) w3 ca r"
      by (metis in_set_conv_nth list_all2_conv_all_nth)
    have sf: "scanned_from h root ?d fmt w ca" using inv' ca by blast
    have cov: "P (path_join root (ca_proof_rel ca))"
      using P [of "ca_source_commit_id ca @ ''.ots''"] sf by (simp add: scanned_from_def path_join_def)
    note res' = res [unfolded result_of_def, folded same(2) [OF cov]]
    have left: "uc_commit cfg \<and> left_uncommitted h (ca_proof_rel ca) (ca_proof_bytes ca) (ca_payload ca)"
      if rec: "ca_source_commit_id ca \<in> set (sc_recovered sc)"
    proof -
      obtain ca' where "uc_commit cfg" "ca' \<in> set (sc_candidates sc)" "ca_source_commit_id ca' = ca_source_commit_id ca"
        "left_uncommitted h (ca_proof_rel ca') (ca_proof_bytes ca') (ca_payload ca')" using inv' rec by blast
      moreover from this inv' sf have "ca_proof_rel ca' = ca_proof_rel ca" by (simp add: scanned_from_def)
      then have "ca' = ca" using inv' ca \<open>ca' \<in> _\<close> by (auto simp: distinct_map dest: inj_onD)
      ultimately show ?thesis by simp
    qed
    show ?thesis
      using res' sf left by (auto simp: scanned_from_def Let_def)
  qed
qed

section \<open>An example\<close>

text \<open>A calendar completes the one proof of a repository that does not commit proofs.\<close>

definition completing_host :: "file_store host" where
  "completing_host = zero_host\<lparr>json_loads := \<lambda>_. Some (JObj [(''source_commit'', JStr example_commit)])\<rparr>"

definition loose_config :: upgrade_config where
  "loose_config = \<lparr>uc_proof_directory = ''proofs'', uc_commit = False, uc_squash_upgrade_commits = False,
     uc_require_clean_worktree = False, uc_signs_generated_objects = False\<rparr>"

definition pending_worktree :: file_store where
  "pending_worktree = [(''/repo/proofs'', Directory),
     (''/repo/proofs/'' @ example_commit @ ''.ots'', RegularFile pending_proof),
     (''/repo/proofs/'' @ example_commit @ ''.json'', RegularFile [])]"

definition stored_payload :: bytes where
  "stored_payload = projr (build_payload ''sha1'' example_commit)"

lemma completed_proof_parses:
  "parse_proof completed_proof = Inr \<lparr>dp_header = header_magic @ [0x01, 0x08] @ replicate 32 0,
     dp_digest = replicate 32 0, dp_root = Node [Branch [0xF0, 1, 9]
       (Node [Att \<lparr>att_tag = pending_tag, att_payload = [1, 0x75]\<rparr>,
              Att \<lparr>att_tag = bitcoin_tag, att_payload = [5]\<rparr>])]\<rparr>"
  by code_simp

lemma example_describes: "\<exists>a. describe_anchors zero_digest (\<lambda>_. None) completed_proof = Inr a"
proof -
  have "completed_proof ! 31 = 1" by code_simp
  then show ?thesis
    unfolding describe_anchors_total_iff [OF completed_proof_parses \<open>completed_proof ! 31 = 1\<close>]
    by (simp add: located_items_def bitcoin_tag_def pending_tag_def)
qed

lemma completed_proof_binds: "validate_detached_proof zero_digest completed_proof (Some p) = Inr ()"
  by code_simp

lemma pending_describes: "\<exists>a. describe_anchors zero_digest (\<lambda>_. None) pending_proof = Inr a"
proof -
  have "pending_proof ! 31 = 1" by code_simp
  then show ?thesis
    unfolding describe_anchors_total_iff [OF pending_proof_parses \<open>pending_proof ! 31 = 1\<close>]
    by (simp add: located_items_def bitcoin_tag_def pending_tag_def)
qed

lemma completing_steps:
  "build_payload ''sha1'' example_commit = Inr stored_payload"
  "upgrade completing_host idle_client pending_proof stored_payload pending_worktree =
     (Inr \<lparr>ua_upgraded = None, ua_detail = []\<rparr>, pending_worktree)"
  "collect_from_calendars completing_host example_fetch pending_proof stored_payload pending_worktree =
     (Inr (Some completed_proof, [[0x75]], []), pending_worktree)"
  "validate_detached_proof zero_digest pending_proof (Some stored_payload) = Inr ()"
  "classify_detached_proof pending_proof = Inr ''pending-attestation''"
  "completed_proof \<noteq> pending_proof"
  "case persist_upgraded_proof completing_host ''/repo'' ''proofs'' ''sha1'' example_commit completed_proof
     pending_worktree of (Inr _, _) \<Rightarrow> True | _ \<Rightarrow> False"
  "sort (list_dir ''/repo/proofs'' pending_worktree) = [example_commit @ ''.json'', example_commit @ ''.ots'']"
  by code_simp+

lemma completing_host_parts [simp]:
  "digest completing_host = zero_digest" "ripemd completing_host = (\<lambda>_. None)" "store_of completing_host = (\<lambda>w. w)"
  by (simp_all add: completing_host_def zero_host_def file_host_def)

lemma completing_classified:
  "\<exists>ca. classify_stored_proof completing_host ''/repo'' ''proofs'' (example_commit @ ''.ots'') ''sha1'' pending_worktree =
      (Inr (Open ca), pending_worktree) \<and>
    ca_proof_rel ca = ''proofs/'' @ example_commit @ ''.ots'' \<and> ca_source_commit_id ca = example_commit \<and>
    ca_payload ca = stored_payload \<and> ca_proof_bytes ca = pending_proof \<and> \<not> ca_anchored ca"
proof -
  obtain a where a: "describe_anchors zero_digest (\<lambda>_. None) pending_proof = Inr a" using pending_describes by blast
  have n: "stem (example_commit @ ''.ots'') = example_commit" by code_simp
  have j: "read_json completing_host (''/repo/proofs/'' @ example_commit @ ''.json'') pending_worktree =
      (Inr (Some (JObj [(''source_commit'', JStr example_commit)])), pending_worktree)" by code_simp
  have m: "manifest_source (JObj [(''source_commit'', JStr example_commit)]) = Some example_commit" by code_simp
  have r: "read_bytes (''/repo/proofs/'' @ example_commit @ ''.ots'') pending_worktree = Inr pending_proof" by code_simp
  have f: "is_file (''/repo/proofs/'' @ example_commit @ ''.json'') pending_worktree" by code_simp
  show ?thesis
    using a n j m r f completing_steps(1,4,5)
    by (simp add: classify_stored_proof_def Let_def path_join_def bindP_def catchP_def read_file_def)
qed

lemma completing_scan:
  "\<exists>ca. foldP (scan_one completing_host loose_config ''/repo'' ''sha1'')
      [example_commit @ ''.json'', example_commit @ ''.ots'']
      \<lparr>sc_results = [], sc_candidates = [], sc_recovered = []\<rparr> pending_worktree =
      (Inr \<lparr>sc_results = [], sc_candidates = [ca], sc_recovered = []\<rparr>, pending_worktree) \<and>
    ca_proof_rel ca = ''proofs/'' @ example_commit @ ''.ots'' \<and> ca_source_commit_id ca = example_commit \<and>
    ca_payload ca = stored_payload \<and> ca_proof_bytes ca = pending_proof \<and> \<not> ca_anchored ca"
proof -
  obtain ca where ca: "classify_stored_proof completing_host ''/repo'' ''proofs'' (example_commit @ ''.ots'') ''sha1''
      pending_worktree = (Inr (Open ca), pending_worktree)"
    "ca_proof_rel ca = ''proofs/'' @ example_commit @ ''.ots''" "ca_source_commit_id ca = example_commit"
    "ca_payload ca = stored_payload" "ca_proof_bytes ca = pending_proof" "\<not> ca_anchored ca"
    using completing_classified by blast
  have t: "read_tree_bytes completing_host ''HEAD'' p w = (Inr None, w)" for p w
    by (simp add: read_tree_bytes_def runner_run_bytes_def catchP_def bindP_def Let_def completing_host_def
        zero_host_def file_host_def)
  have n: "is_proof_name (example_commit @ ''.ots'')" "\<not> is_proof_name (example_commit @ ''.json'')"
    "is_file (''/repo/proofs/'' @ example_commit @ ''.ots'') pending_worktree" by code_simp+
  have d: "uc_proof_directory loose_config = ''proofs''" by (simp add: loose_config_def)
  show ?thesis
    using ca t n by (simp add: scan_one_def d path_join_def bindP_def)
qed

lemma completing_pass:
  "\<exists>rep w' r. upgrade_locked completing_host idle_client example_fetch loose_config False ''/repo'' ''sha1'' pending_worktree =
     (Inr rep, w') \<and> up_results rep = [r] \<and> ur_state r = UPGRADED \<and> ur_source_commit_id r = example_commit \<and>
     ur_proof_path r = ''proofs/'' @ example_commit @ ''.ots''"
proof -
  obtain ca where sc: "foldP (scan_one completing_host loose_config ''/repo'' ''sha1'')
      [example_commit @ ''.json'', example_commit @ ''.ots'']
      \<lparr>sc_results = [], sc_candidates = [], sc_recovered = []\<rparr> pending_worktree =
      (Inr \<lparr>sc_results = [], sc_candidates = [ca], sc_recovered = []\<rparr>, pending_worktree)"
    and ca: "ca_proof_rel ca = ''proofs/'' @ example_commit @ ''.ots''" "ca_source_commit_id ca = example_commit"
    "ca_payload ca = stored_payload" "ca_proof_bytes ca = pending_proof" "\<not> ca_anchored ca"
    using completing_scan by blast
  obtain a where a: "describe_anchors zero_digest (\<lambda>_. None) completed_proof = Inr a" using example_describes by blast
  obtain p w' where p: "persist_upgraded_proof completing_host ''/repo'' ''proofs'' ''sha1'' example_commit completed_proof
      pending_worktree = (Inr p, w')"
    using completing_steps(7) by (auto split: prod.splits sum.splits)
  have d: "uc_proof_directory loose_config = ''proofs''" "\<not> uc_commit loose_config" by (simp_all add: loose_config_def)
  have one: "\<exists>r. process_candidate completing_host idle_client example_fetch ''/repo'' ''proofs'' ''sha1'' ca pending_worktree =
      (Inr r, w') \<and> ur_state r = UPGRADED \<and> ur_source_commit_id r = example_commit \<and>
      ur_proof_path r = ''proofs/'' @ example_commit @ ''.ots''"
    using ca a p completing_steps(2,3,6)
    by (simp add: process_candidate_def upgrade_pending_def bindP_def catchP_def Let_def)
  have c: "check_command (ots_command idle_client) = Inr ()" by (simp add: idle_client_def check_command_def)
  show ?thesis
    using sc one c completing_steps(8) ca
    by (auto simp: upgrade_locked_def d path_join_def bindP_def Let_def upgrade_one_def commit_upgrades_def ordered_def)
qed

lemma completing_outside:
  "outside_world completing_host example_locks idle_client example_fetch (\<lambda>p. str_startswith p ''/repo/'')"
proof -
  have f: "files_in completing_host P = files_in zero_host P" for P
    by (intro ext) (simp add: files_in_def completing_host_def)
  show ?thesis
    using example_outside_world unfolding outside_world_def confined_def quiet_git_def f
    by (simp add: completing_host_def lawful_store_def)
qed

lemma completing_claims: "claims_own_name completing_host ''/repo/proofs'' pending_worktree"
proof -
  have "manifest_source (JObj [(''source_commit'', JStr example_commit)]) = Some example_commit" by code_simp
  moreover have "s @ ''.json'' \<noteq> c @ ''.ots''" for s c :: string
    by (rule notI, drule arg_cong [where f = last]) simp
  ultimately show ?thesis
    by (auto simp: claims_own_name_def completing_host_def zero_host_def file_host_def pending_worktree_def file_content_def path_join_def
        split: if_splits)
qed

lemma upgraded_is_stored_witness:
  "\<exists>rep w' b payload. upgrade_locked completing_host idle_client example_fetch loose_config False ''/repo'' ''sha1''
       pending_worktree = (Inr rep, w') \<and>
     file_content (''/repo/proofs/'' @ example_commit @ ''.ots'') (store_of completing_host w') = Some b \<and>
     b \<noteq> pending_proof \<and> build_payload ''sha1'' example_commit = Inr payload \<and>
     validate_detached_proof zero_digest b (Some payload) = Inr ()"
proof -
  obtain rep w' r where run: "upgrade_locked completing_host idle_client example_fetch loose_config False ''/repo'' ''sha1''
      pending_worktree = (Inr rep, w')" and r: "up_results rep = [r]" "ur_state r = UPGRADED" "ur_source_commit_id r = example_commit"
      "ur_proof_path r = ''proofs/'' @ example_commit @ ''.ots''"
    using completing_pass by blast
  have "uc_proof_directory loose_config = ''proofs''" "\<not> uc_commit loose_config" by (simp_all add: loose_config_def)
  then show ?thesis
    using upgraded_is_stored [OF completing_outside _ _ run, of r] completing_claims r run
    by (auto simp: path_join_def str_startswith_def Let_def completing_host_def zero_host_def file_host_def
        pending_worktree_def file_content_def)
qed

end
