(* ===== verification/Spec2Isabelle.thy ===== *)
theory Spec2Isabelle
  imports RecoveryFacts CliFacts ReportFacts UpgradeResults
begin

text \<open>
  git-ots timestamps the commits of a Git repository with OpenTimestamps. A run finds the commits
  that no proof covers yet, decides with a policy whether one is due, submits the commit id to
  calendars through the \<open>ots\<close> program, and stores the detached proof and a JSON manifest next to it
  in the repository, in a commit or a signed tag. Later runs ask the calendars for the path to
  Bitcoin and merge it into the stored proof. The library follows the modules under
  \<open>src/git_ots\<close>; this theory holds the properties that span them. The theories, in the order of
  their dependencies:

  Basis. \<open>Prelude\<close> has the exceptions as the datatype \<open>exc\<close>, with one predicate for each class an
  \<open>except\<close> clause names, results as sums, slices and UTF-8. \<open>PyText\<close>, \<open>PyJson\<close> and \<open>PyTime\<close> are the
  parts of Python's standard library the code uses: text methods, JSON, calendar dates.
  Text is the list of its UTF-8 bytes. \<open>FileStore\<close> is the file system with \<open>_atomic_write\<close> of
  \<open>timestamp.py\<close>, \<open>Effects\<close> the calculus of programs over a world (\<open>bindP\<close>, \<open>catchP\<close>, loops) and
  the record \<open>host\<close> of what the environment answers: Git, the clock, the file store, SHA.

  Proofs. \<open>Varuint\<close>, \<open>DetachedProof\<close> (\<open>timestamp.py\<close>: payload, header check, structural scan,
  classification), \<open>ProofTree\<close> (\<open>proof_tree.py\<close>: parser, serializer, merge), \<open>Anchors\<close>
  (\<open>anchors.py\<close>: the walk that executes a proof, the open calendar promises). \<open>ProofParser\<close> relates
  parser, scanner and serializer to a relational reading of the wire format; \<open>ProofMerge\<close> relates
  \<open>merge_node\<close> to the union of located attestations; \<open>AnchorFacts\<close> shows that the byte-level walk
  reports what executing the parsed tree gives.

  Persistence. \<open>Manifest\<close> (\<open>timestamp.py\<close>): building and validating the recovery manifest, writing
  proofs and manifests, inspecting what a run left behind. \<open>OtsClient\<close> (\<open>timestamp.py\<close>): the client
  of the \<open>ots\<close> program, its deadline, submission and upgrade of a proof in a scratch directory.

  Git, all \<open>git.py\<close>. \<open>GitRun\<close> (the bounded subprocess, \<open>GitRunner\<close>, the retry loop around the index
  lock), \<open>RepositoryLock\<close> (a transition system with its invariant), \<open>Locked\<close> (a program run under
  that lock), \<open>GitRefs\<close> (locating the repository, refs, preconditions), \<open>GitHistory\<close> (trailers,
  generated commits, enumeration), \<open>GitTags\<close> (annotations, the strict reader of timestamp tags,
  creating and pushing them), \<open>GitObjects\<close> (proof commits, upgrade commits, folding an upgrade into
  the proof commit), \<open>GitBaseline\<close> (the newest timestamped commit of a lineage). \<open>Views\<close> lists the
  operations that leave a view of the world alone when Git's reading commands do, and \<open>Evolution\<close>
  how the files of a repository may change while the tool runs.

  Configuration and policy. \<open>Config\<close> (\<open>config.py\<close>: the records and the parsers of values), \<open>GitConfig\<close>
  (\<open>gitconfig.py\<close>: the \<open>ots.*\<close> keys with their scopes), \<open>ConfigFacts\<close>; \<open>Policy\<close> (\<open>policy.py\<close>: which
  commits are pending, whether one is due, and the calendar arithmetic of occurrences).

  Work on proofs. \<open>Upgrade\<close> (\<open>upgrade.py\<close>: asking calendars, following further promises, replacing
  the file, the pass over all proofs), with \<open>UpgradeFacts\<close>, \<open>UpgradePass\<close> and \<open>UpgradeResults\<close>;
  \<open>Verify\<close> (\<open>verify.py\<close>) with \<open>VerifyFacts\<close>; \<open>Servers\<close> (\<open>servers.py\<close>) with \<open>ServerFacts\<close>; \<open>Repair\<close> (\<open>repair.py\<close>) with
  \<open>RepairFacts\<close>; \<open>Orchestration\<close> (\<open>orchestration.py\<close>: the snapshot, recovery of an interrupted
  submission, the run) with \<open>OrchestrationFacts\<close>, \<open>RunFacts\<close> and \<open>RecoveryFacts\<close>.

  Command line, \<open>cli.py\<close>. \<open>CliReport\<close> is the text of the reports, \<open>Cli\<close> the seven commands and the
  translation of exceptions into exit codes, after the arguments are parsed. \<open>CliFacts\<close> and
  \<open>ReportFacts\<close> show what the exit codes promise and that reported values parse.

  How state corresponds. A Python function that calls Git, reads files or the clock is a
  \<open>('w, 'a) prog\<close>: it takes the world and returns its result or the exception it raises, with the
  world after it. Arguments that are Python objects of the outside (\<open>runner\<close>, \<open>client\<close>) are fields
  of the host. Git itself is a parameter: a command is a step of the host that returns an exit code
  and two outputs, and may change the world in any way; so are the \<open>ots\<close> program and the calendars'
  replies. Theorems that need Git or the file system to keep to their documentation say so in a
  hypothesis: which commands read, that a write touches one path, that a lookup finds what was
  written. Their witnesses run the same definitions on a small concrete host. The text of an error
  message is kept short where nothing reads it; what the code does read of an exception, its exit
  code and its standard error, is kept.

  The interfaces. \<open>wire_codec\<close> is a writer and a reader of one item, interpreted on varuints,
  operations, attestations and trees. \<open>additive_merge\<close> is a merge that adds up located attestations,
  interpreted on \<open>merge_node\<close> and on grafting a calendar's reply. \<open>world_order\<close> is a preorder on
  worlds that programs respect, interpreted on equal views and on \<open>evolves\<close>. \<open>binding_client\<close> is an
  \<open>ots\<close> client whose proofs commit to what was submitted, interpreted on the modelled client.
  \<open>calendar_fetcher\<close> is a request to a calendar that never ends in the error which refuses a merged
  proof, interpreted on \<open>fetch_calendar_timestamp\<close>.

  What the lemmas show. Round trips of varuints, trees, proofs, manifests and reported values;
  equivalence of the three readers of the proof format; merge as union and its invariants; the
  refinement of the walk by the tree; safety of atomic writes at every point of failure; exclusion
  by the repository lock; termination of the retry loop; what an upgrade may do to a proof and to
  the files of the repository, and what its results report; what the policy selects; when a run submits, what it may write, what
  its outcome means and that an interrupted submission is recovered; what verification and
  repair promise; which commands only read.

  Fuel. The parser, the scanner and the walk take fuel, \<open>parse_fuel\<close> of the data, three times its
  length and three more; \<open>parsing_terminates\<close> shows that it never runs out. The retry loop takes a
  round for each tenth of a second of its window and three more; \<open>index_lock_retry_ends\<close> shows that this is
  enough for a clock that advances by what is slept. The other loops of the model recur over lists.

  Not modelled. \<open>argparse\<close> and the help texts of \<open>cli.py\<close>; the wording of messages nothing reads;
  signals, process groups and pipes of subprocesses beyond the order of events, and the time limits
  of Git commands; the HTTP and TLS layers behind an opener; the configuration of logging, beyond
  the fact that a warning is logged; the Unicode checks of \<open>urlsplit\<close> and the names of time zones,
  which are parameters; rounding of durations to floating point; a proof directory or a temporary directory that cannot
  be created (a lock file that cannot is modelled);
  concurrent writers of a file outside the repository lock. The scripts \<open>release_target.py\<close> and
  \<open>sitecustomize.py\<close> serve the project's own builds and tests.
\<close>

section \<open>The proof format\<close>

text \<open>
  C1: parsing after serializing. Whatever bytes \<open>parse_proof\<close> accepts, serializing the result
  succeeds, is no longer than those bytes, and parses to the very same proof: header, digest and
  tree. When nothing is shorter, the bytes are the original ones.
\<close>

theorem parse_serialize_proof:
  assumes "parse_proof data = Inr p"
  shows "\<exists>out. serialize_proof p = Inr out \<and> parse_proof out = Inr p \<and>
    length out \<le> length data \<and> (length out = length data \<longrightarrow> out = data)"
proof -
  from assms obtain off d where c: "starts_with data header_magic"
      "read_varuint data 31 = Inr (1, off)" "off < length data"
      "digest_lengths (data ! off) = Some d" "off + 1 + d \<le> length data"
      "dp_header p = take (off + 1 + d) data" "dp_digest p = bslice data (off + 1) (off + 1 + d)"
      and t: "parse_timestamp data (off + 1 + d) = Inr (dp_root p, length data)"
    by (auto simp: parse_proof_Inr_iff)
  let ?e = "off + 1 + d" and ?w = "wire_node (dp_root p)"
  have wf: "wf_node (dp_root p) \<and> height_node (dp_root p) \<le> max_depth"
    using parse_proof_root_wf [OF assms] .
  have out: "serialize_proof p = Inr (take ?e data @ ?w)"
    using serialize_proof_wf wf c(6) by simp
  have len: "length ?w \<le> length data - ?e \<and>
      (length ?w = length data - ?e \<longrightarrow> bslice data ?e (length data) = ?w)"
    using node_codec.rd_tight [of 0 data ?e "dp_root p" "length data"] t
    by (simp add: parse_timestamp_node_at)
  have off: "31 < off" using c(2) varuint_codec.rd_bounds by fastforce
  have rv: "read_varuint (take ?e data @ ?w) 31 = Inr (1, off)"
    using c(2,5) off by (intro read_varuint_prefix [of data 31 1 off]) auto
  have "parse_timestamp (take ?e data @ ?w) ?e = Inr (dp_root p, ?e + length ?w)"
    using node_codec.rd_ser_at [of "dp_root p" 0 ?e "take ?e data @ ?w" "[]"] wf c(5)
    by (simp add: parse_timestamp_node_at)
  moreover have "starts_with (take ?e data @ ?w) header_magic"
    using c(1,5) off by (simp add: starts_with_def)
  moreover have "(take ?e data @ ?w) ! off = data ! off" using c(3) by (simp add: nth_append)
  moreover have "bslice (take ?e data @ ?w) (off + 1) ?e = bslice data (off + 1) ?e"
    using c(5) by (simp add: bslice_def drop_take)
  ultimately have "parse_proof (take ?e data @ ?w) = Inr p"
    unfolding parse_proof_Inr_iff using c off rv
    by (intro conjI exI [of _ off] exI [of _ d]) (simp_all add: min_absorb2)
  with out len c(5) show ?thesis
    by (auto simp: bslice_def) (metis append_take_drop_id)
qed

lemma parse_serialize_proof_witness:
  "\<exists>out. serialize_proof \<lparr>dp_header = header_magic @ [0x01, 0x08] @ replicate 32 0,
       dp_digest = replicate 32 0, dp_root = example_root\<rparr> = Inr out \<and>
     length out \<le> length example_proof"
  using parse_serialize_proof [OF example_proof_parses] by blast

text \<open>
  Serializing any tree the merge can build and reading it back gives that tree. For a
  well-formed tree of at most \<open>max_depth\<close> operations on a path, after any bytes and before any
  bytes, the parser returns exactly this tree and stops exactly behind it.
\<close>

theorem serialized_tree_parses:
  assumes "wf_node nd" "height_node nd \<le> max_depth" "serialize_node nd = Inr out"
  shows "parse_timestamp (pre @ out @ post) (length pre) = Inr (nd, length pre + length out)"
proof -
  have "out = wire_node nd" using assms(1,3) serialize_wire by simp
  with node_codec.rd_ser [of nd 0 pre post] assms(1,2) show ?thesis
    by (simp add: parse_timestamp_node_at)
qed

lemma serialized_tree_parses_witness:
  "parse_timestamp ([1] @ ([0x00] @ pending_tag @ [2, 1, 0x75]) @ [7]) 1 =
     Inr (Node [Att \<lparr>att_tag = pending_tag, att_payload = [1, 0x75]\<rparr>], 1 + 12)"
proof -
  have "serialize_node (Node [Att \<lparr>att_tag = pending_tag, att_payload = [1, 0x75]\<rparr>]) =
      Inr ([0x00] @ pending_tag @ [2, 1, 0x75])" by code_simp
  from serialized_tree_parses [OF _ _ this, of "[1]" "[7]"] show ?thesis
    by (simp add: wf_att_def pending_tag_def height_node.simps max_depth_def)
qed

text \<open>
  C23: the tag scan of \<open>timestamp.py\<close> and the parser of \<open>proof_tree.py\<close>, two implementations of
  one grammar, agree on every input: they end at the same offset with the tags of the parsed
  tree, or fail together with the same kind of error.
\<close>

theorem scan_agrees_with_parser:
  "parse_timestamp_tree data offset =
     (case parse_timestamp data offset of
        Inr (nd, end) \<Rightarrow> Inr (fst ` set (all_attestations nd), end)
      | Inl e \<Rightarrow> Inl (scan_error e))"
  by (simp add: parse_timestamp_tree_eq forget_def tags_node_def split: sum.split prod.split)

text \<open>
  \<open>classify_detached_proof\<close> answers exactly for the proofs \<open>parse_proof\<close> accepts with a
  one-byte version, and answers \<open>valid\<close> exactly when the tree holds a Bitcoin attestation.
\<close>

theorem classify_decides:
  "classify_detached_proof data = Inr s \<longleftrightarrow>
     data ! 31 = 1 \<and> (\<exists>p. parse_proof data = Inr p \<and>
       s = (if subtree_has_bitcoin_attestation (dp_root p) then ''valid'' else ''pending-attestation''))"
proof -
  have "list_ex item_has_bitcoin_attestation its \<longleftrightarrow>
      (\<exists>it \<in> set its. bitcoin_tag \<in> tags_item it)"
    if "\<And>it. it \<in> set its \<Longrightarrow> item_has_bitcoin_attestation it \<longleftrightarrow> bitcoin_tag \<in> tags_item it" for its
    using that by (auto simp: list_ex_iff)
  then have "subtree_has_bitcoin_attestation nd \<longleftrightarrow> bitcoin_tag \<in> tags_node nd"
    and "item_has_bitcoin_attestation it \<longleftrightarrow> bitcoin_tag \<in> tags_item it" for nd it
    by (induction nd and it
        rule: subtree_has_bitcoin_attestation_item_has_bitcoin_attestation.induct) auto
  then show ?thesis unfolding classify_Inr_iff by simp
qed

text \<open>
  C36: reading a proof always ends. Neither the parser nor the tag scan nor the walk behind
  \<open>describe_anchors\<close> ever runs out of the fuel it is given, whatever the bytes, the offset and the hash
  functions.
\<close>

theorem parsing_terminates:
  "parse_timestamp data offset \<noteq> Inl OutOfFuel \<and> parse_timestamp_tree data offset \<noteq> Inl OutOfFuel \<and>
   describe_anchors H R data \<noteq> Inl OutOfFuel"
  using parse_timestamp_fuel [of data offset] describe_anchors_ends
  by (auto simp: parse_timestamp_tree_eq forget_def scan_error_def split: sum.split prod.split)

text \<open>Every attestation takes its payload and at least ten more bytes: the leaf marker, the tag, the length.\<close>

lemma encode_varuint_nonempty: "encode_varuint_loop n \<noteq> []"
  by (subst encode_varuint_loop.simps) (simp add: Let_def)

lemma wire_attestations:
  "wf_node nd \<Longrightarrow> (\<Sum>a\<leftarrow>all_attestations nd. 10 + length (snd a)) \<le> length (wire_node nd)"
  "wf_item it \<Longrightarrow> (\<Sum>a\<leftarrow>item_attestations it. 10 + length (snd a)) \<le> length (wire_item it)"
proof (induction nd and it rule: all_attestations_item_attestations.induct)
  case (1 its)
  have "its \<noteq> [] \<Longrightarrow> list_all wf_item its \<Longrightarrow>
      (\<And>it. it \<in> set its \<Longrightarrow> (\<Sum>a\<leftarrow>item_attestations it. 10 + length (snd a)) \<le> length (wire_item it)) \<Longrightarrow>
      (\<Sum>a\<leftarrow>concat (map item_attestations its). 10 + length (snd a)) \<le> length (wire_items its)" for its
  proof (induction its)
    case (Cons it its)
    then show ?case by (cases "its = []") (simp_all add: wire_simps add_mono le_SucI)
  qed simp
  from this [of its] 1 show ?case by (simp add: wire_simps list_all_iff)
next
  case (2 a)
  then show ?case
    using encode_varuint_nonempty [of "length (att_payload a)"]
    by (cases "encode_varuint_loop (length (att_payload a))") (auto simp: wire_simps serialize_attestation_def wf_att_def)
next
  case (3 op child)
  then show ?case by (simp add: wire_simps trans_le_add2)
qed

text \<open>
  C40: what an accepted proof can cost. The digest has 20 or 32 bytes, no path is longer than the
  recursion limit, and the attestations with their payloads and ten bytes each fit in the file: a
  proof can neither exhaust the stack nor expand.
\<close>

theorem accepted_proof_bounded:
  assumes "parse_proof data = Inr p"
  shows "length (dp_digest p) \<in> {20, 32} \<and> height_node (dp_root p) \<le> 256 \<and>
    (\<Sum>a\<leftarrow>all_attestations (dp_root p). 10 + length (snd a)) \<le> length data"
proof -
  obtain off d where o: "off < length data" "digest_lengths (data ! off) = Some d" "off + 1 + d \<le> length data"
      "dp_digest p = bslice data (off + 1) (off + 1 + d)"
    and t: "parse_timestamp data (off + 1 + d) = Inr (dp_root p, length data)"
    using assms by (auto simp: parse_proof_Inr_iff)
  then have "length (dp_digest p) \<in> {20, 32}"
    by (auto simp: bslice_def digest_lengths_def split: if_splits)
  moreover have wf: "wf_node (dp_root p)" "height_node (dp_root p) \<le> 256"
    using parse_proof_root_wf [OF assms] by (simp_all add: max_depth_def)
  moreover have "length (wire_node (dp_root p)) \<le> length data"
    using node_codec.rd_tight [of 0 data "off + 1 + d" "dp_root p" "length data"] t
    by (simp add: parse_timestamp_node_at) linarith
  with wire_attestations(1) [OF wf(1)] have
    "(\<Sum>a\<leftarrow>all_attestations (dp_root p). 10 + length (snd a)) \<le> length data" by linarith
  ultimately show ?thesis by simp
qed

lemma accepted_proof_bounded_witness: "height_node example_root \<le> 256"
  using accepted_proof_bounded [OF example_proof_parses] by simp

lemma parse_items_cut_off:
  "list_all wf_item its \<Longrightarrow> height_node (Node its) \<le> max_depth \<Longrightarrow>
   drop off data = concat (map (\<lambda>it. 0xFF # wire_item it) its) @ [0xFF] \<Longrightarrow>
   3 * (length data - off) + 2 \<le> n \<Longrightarrow> parse_items n data off 0 = Inl IndexError"
proof (induction its arbitrary: off n)
  case Nil
  then have off: "off < length data" "length data - off = 1" "data ! off = 0xFF"
    by (auto simp: nth_via_drop dest: arg_cong [of _ _ length] drop_nonempty)
  then have "length data \<le> Suc off" by simp
  then obtain m where n: "n = Suc (Suc m)" using Nil.prems(4) by (cases n; cases "n - 1") auto
  show ?case using off \<open>length data \<le> Suc off\<close> by (simp add: n)
next
  case (Cons it its)
  let ?rest = "concat (map (\<lambda>it. 0xFF # wire_item it) its) @ [0xFF]"
  have d: "drop off data = 0xFF # wire_item it @ ?rest" using Cons.prems(3) by simp
  have off: "off < length data" using drop_nonempty [of off data "[0xFF]"] d by simp
  have at: "data ! off = 0xFF" using d by (simp add: nth_via_drop)
  have d1: "drop (off + 1) data = wire_item it @ ?rest"
    using drop_append_drop [of off data "[0xFF]"] d by simp
  obtain m where n: "n = Suc m" using Cons.prems(4) by (cases n) auto
  have "parse_item m data (off + 1) 0 = Inr (it, off + 1 + length (wire_item it))"
    using Cons.prems(1,2,4) off n d1 by (intro parse_complete(3)) (auto simp: height_Cons)
  moreover have "drop (off + 1 + length (wire_item it)) data = ?rest"
    using drop_append_drop [OF d1] .
  then have "parse_items m data (off + 1 + length (wire_item it)) 0 = Inl IndexError"
    using Cons.prems(1,2,4) off n wire_item_first [of it]
    by (intro Cons.IH) (auto simp: height_Cons)
  ultimately show ?case using off at by (simp add: n)
qed

text \<open>
  A fork marker that ends the buffer escapes as an \<open>IndexError\<close>. The parser of calendar
  responses raises \<open>IndexError\<close>, which is no \<open>ProofParseError\<close>, on every response made of one
  item, or more, each behind its fork marker, and cut off right after another marker.
\<close>

theorem trailing_fork_marker_escapes:
  assumes "list_all wf_item its" "height_node (Node its) \<le> max_depth"
    and "length (concat (map (\<lambda>it. 0xFF # wire_item it) its)) < MAX_RESPONSE_BYTES"
  shows "parse_calendar_response (concat (map (\<lambda>it. 0xFF # wire_item it) its) @ [0xFF]) = Inl IndexError"
proof -
  let ?data = "concat (map (\<lambda>it. 0xFF # wire_item it) its) @ [0xFF]"
  have "parse_items (3 * length ?data + 2) ?data 0 0 = Inl IndexError"
    using assms(1,2) by (rule parse_items_cut_off) simp_all
  then have "parse_timestamp ?data 0 = Inl IndexError"
    by (simp add: parse_timestamp_def parse_fuel_def eval_nat_numeral)
  moreover have "length ?data \<le> MAX_RESPONSE_BYTES" using assms(3) by simp
  ultimately show ?thesis by (simp add: parse_calendar_response_def)
qed

lemma trailing_fork_marker_witness:
  "parse_calendar_response (concat (map (\<lambda>it. 0xFF # wire_item it)
     [Att \<lparr>att_tag = pending_tag, att_payload = [1, 0x75]\<rparr>]) @ [0xFF]) = Inl IndexError"
proof (rule trailing_fork_marker_escapes)
  have "wire_item (Att \<lparr>att_tag = pending_tag, att_payload = [1, 0x75]\<rparr>) =
      [0x00] @ pending_tag @ [2, 1, 0x75]" by code_simp
  then show "length (concat (map (\<lambda>it. 0xFF # wire_item it)
      [Att \<lparr>att_tag = pending_tag, att_payload = [1, 0x75]\<rparr>])) < MAX_RESPONSE_BYTES"
    by (simp add: pending_tag_def MAX_RESPONSE_BYTES_def)
qed (simp_all add: wf_att_def pending_tag_def height_node.simps max_depth_def)

section \<open>Merging\<close>

text \<open>
  C2: a merge is the union. The attestations of the merged tree, each with the operations that
  lead to it, are exactly those of the target together with those of the source.
\<close>

theorem merge_is_union:
  "located_node (fst (merge_node target source)) = located_node target \<union> located_node source"
  by (rule merge_node_located)

text \<open>
  The count decides. \<open>merge_node\<close> reports zero additions exactly when the merged tree is the
  target, unchanged.
\<close>

theorem merge_count_zero_iff:
  "snd (merge_node target source) = 0 \<longleftrightarrow> fst (merge_node target source) = target \<and>
     covered (items target) (items source)"
proof
  assume z: "snd (merge_node target source) = 0"
  then have "snd (merge_items (items target) (items source)) = 0"
    by (simp add: merge_node_def case_prod_unfold Let_def)
  then show "fst (merge_node target source) = target \<and> covered (items target) (items source)"
    using merge_node_zero [OF z] merge_items_unchanged by simp
next
  assume "fst (merge_node target source) = target \<and> covered (items target) (items source)"
  then show "snd (merge_node target source) = 0"
    using merge_items_covered [of "items target" "items source"] by (simp add: merge_node_def)
qed

text \<open>
  Merging a response twice is merging it once, for a response in which no node repeats an
  operation: the second merge adds nothing and leaves the tree as it is.
\<close>

theorem merge_twice:
  assumes "distinct_ops (items source)"
  shows "merge_node (fst (merge_node target source)) source = (fst (merge_node target source), 0)"
  using merge_items_covered [OF merge_items_covers [OF assms, of "items target"]]
  by (simp add: merge_node_def case_prod_unfold Let_def)

lemma merge_twice_witness:
  "merge_node (fst (merge_node example_root example_root)) example_root =
     (fst (merge_node example_root example_root), 0)"
  by (rule merge_twice) (simp add: example_root_def)

definition repeated_source :: node where
  "repeated_source = Node [Branch [0x08] (Node
     [Branch [0x08] (Node [Att \<lparr>att_tag = bitcoin_tag, att_payload = [1]\<rparr>]),
      Branch [0x08] (Node [Att \<lparr>att_tag = bitcoin_tag, att_payload = [2]\<rparr>])])]"

definition small_target :: node where
  "small_target = Node [Att \<lparr>att_tag = pending_tag, att_payload = [1, 0x61]\<rparr>]"

text \<open>
  Without that, it is not: a source with two branches of the same operation adds items again
  on a second merge, although every attestation it carries is already there.
\<close>

theorem merge_twice_can_add:
  "\<exists>target source. wf_node target \<and> wf_node source \<and>
     snd (merge_node (fst (merge_node target source)) source) \<noteq> 0"
proof -
  have "wf_node small_target" "wf_node repeated_source"
    by (simp_all add: small_target_def repeated_source_def wf_att_def wf_op_def unary_op_tags_def
        binary_op_tags_def pending_tag_def bitcoin_tag_def)
  moreover have "snd (merge_node (fst (merge_node small_target repeated_source)) repeated_source) \<noteq> 0"
    by code_simp
  ultimately show ?thesis by blast
qed

text \<open>
  A merge of two trees the parser accepts is again one it accepts, when the place of the
  merge leaves room: it is well-formed, and no path gets longer than the longer of the two.
\<close>

theorem merge_stays_parsable:
  assumes "wf_node target" "wf_node source"
    and "height_node target \<le> n" "height_node source \<le> n"
  shows "wf_node (fst (merge_node target source)) \<and> height_node (fst (merge_node target source)) \<le> n"
proof -
  obtain ts ss where t: "target = Node ts" and s: "source = Node ss"
    by (cases target; cases source)
  have m: "fst (merge_node target source) = Node (fst (merge_items ts ss))"
    by (simp add: t s merge_node_def case_prod_unfold Let_def)
  show ?thesis
    using assms merge_items_wf [of ts ss] merge_items_height [of ts n ss] merge_items_nonempty [of ts ss]
    unfolding m by (simp add: t s)
qed

lemma merge_stays_parsable_witness:
  "wf_node (fst (merge_node example_root example_root))"
  using merge_stays_parsable [of example_root example_root 1]
  by (simp add: example_root_def wf_att_def wf_op_def unary_op_tags_def binary_op_tags_def
      height_node.simps pending_tag_def bitcoin_tag_def)

section \<open>Binding a proof to a commit\<close>

lemma payload_determines:
  assumes "build_payload f c = Inr p" "build_payload f' c' = Inr p"
  shows "f = f' \<and> c = c'"
proof -
  from assms have e: "''git:'' @ f @ '':'' @ c @ [CHR 0x0A] = ''git:'' @ f' @ '':'' @ c' @ [CHR 0x0A]"
    and f: "f = ''sha1'' \<or> f = ''sha256''" and f': "f' = ''sha1'' \<or> f' = ''sha256''"
    by (auto simp only: build_payload_Inr_iff format_length_cases encode_ascii_inj)
  then show ?thesis by auto
qed

text \<open>
  C16: one proof, one commit. A detached proof that validates against the payloads of two commits
  is for one and the same commit and object format, unless its hash function maps the two
  payloads to the same digest.
\<close>

theorem proof_binds_one_commit:
  assumes "build_payload f c = Inr p" "build_payload f' c' = Inr p'"
    and "validate_detached_proof H data (Some p) = Inr ()"
    and "validate_detached_proof H data (Some p') = Inr ()"
    and "\<And>h. H h p = H h p' \<Longrightarrow> p = p'"
  shows "f = f' \<and> c = c'"
proof -
  from assms(3,4) obtain h where "H h p = H h p'"
    unfolding validate_Inr_iff by auto
  then have "p = p'" by (rule assms(5))
  then show ?thesis using payload_determines assms(1,2) by blast
qed

lemma proof_binds_one_commit_witness:
  "\<exists>p. build_payload ''sha1'' (replicate 40 (CHR ''0'')) = Inr p \<and>
     validate_detached_proof zero_digest example_proof (Some p) = Inr () \<and>
     (\<forall>f c. build_payload f c = Inr p \<longrightarrow> f = ''sha1'' \<and> c = replicate 40 (CHR ''0''))"
proof -
  let ?c = "replicate 40 (CHR ''0'')"
  obtain p where p: "build_payload ''sha1'' ?c = Inr p"
    by (simp add: build_payload_def format_length_def hex_digits_def)
  have "validate_detached_proof zero_digest example_proof (Some []) = Inr ()" by code_simp
  then have v: "validate_detached_proof zero_digest example_proof (Some q) = Inr ()" for q
    by (simp add: validate_Inr_iff zero_digest_def)
  have "f = ''sha1'' \<and> c = ?c" if "build_payload f c = Inr p" for f c
    using proof_binds_one_commit [OF that p v v] by simp
  with p v show ?thesis by blast
qed

end
